(* ===== verification/Prelude.thy ===== *)
theory Prelude
  imports Main "HOL-Library.Word"
begin

text \<open>
  Shared vocabulary of the development: the widths of the C integers the emulator uses, the
  outcome of a C call that may leave through \<open>longjmp\<close> or a failed \<open>assert\<close>, the
  Hoare-style predicate over outcomes that the component proofs use, and lemmas on bytes,
  16-bit addresses and status-flag masks that several components need.
\<close>

unbundle bit_operations_syntax

type_synonym u8 = "8 word"
type_synonym u16 = "16 word"
type_synonym u32 = "32 word"
type_synonym u64 = "64 word"

text \<open>
  A C pointer the library only stores and hands back (a host context, a callback address) is
  a number; \<open>NULL\<close> callbacks are \<open>None\<close> of an option.
\<close>

type_synonym ptr = nat
type_synonym fnptr = nat

named_theorems bits \<open>bit-level facts on bytes and addresses\<close>
named_theorems outcome_intros \<open>introduction rules for the outcome predicate\<close>

section \<open>Outcomes of C calls\<close>

text \<open>
  A call returns a value (\<open>Ret\<close>), unwinds to the \<open>setjmp\<close> of the JIT run loop
  (\<open>Longjmp\<close>), or fails an assertion and ends the process (\<open>Abort\<close>).
\<close>

datatype ('s, 'a) outcome = Ret 'a 's | Longjmp 's | Abort

fun andthen :: "('s, 'a) outcome \<Rightarrow> ('a \<Rightarrow> 's \<Rightarrow> ('s, 'b) outcome) \<Rightarrow> ('s, 'b) outcome" where
  "andthen (Ret v s) f = f v s"
| "andthen (Longjmp s) f = Longjmp s"
| "andthen Abort f = Abort"

fun post :: "('a \<Rightarrow> 's \<Rightarrow> bool) \<Rightarrow> ('s \<Rightarrow> bool) \<Rightarrow> ('s, 'a) outcome \<Rightarrow> bool" where
  "post Q L (Ret v s) = Q v s"
| "post Q L (Longjmp s) = L s"
| "post Q L Abort = False"

lemma andthen_Ret [simp]: "andthen m Ret = m"
  by (cases m) simp_all

lemma andthen_assoc: "andthen (andthen m f) g = andthen m (\<lambda>v s. andthen (f v s) g)"
  by (cases m) simp_all

lemma post_andthen [outcome_intros]:
  "post (\<lambda>v s. post Q L (f v s)) L m \<Longrightarrow> post Q L (andthen m f)"
  by (cases m) simp_all

lemma post_seq: "post Q L m \<Longrightarrow> (\<And>v s. Q v s \<Longrightarrow> post R L (f v s)) \<Longrightarrow> post R L (andthen m f)"
  by (cases m) simp_all

lemma post_Ret [outcome_intros]: "Q v s \<Longrightarrow> post Q L (Ret v s)"
  by simp

lemma post_mono:
  "post Q L m \<Longrightarrow> (\<And>v s. Q v s \<Longrightarrow> Q' v s) \<Longrightarrow> (\<And>s. L s \<Longrightarrow> L' s) \<Longrightarrow> post Q' L' m"
  by (cases m) simp_all

lemma post_if [outcome_intros]:
  "(b \<Longrightarrow> post Q L m) \<Longrightarrow> (\<not> b \<Longrightarrow> post Q L n) \<Longrightarrow> post Q L (if b then m else n)"
  by simp

lemma post_conj: "post Q L m \<Longrightarrow> post Q' L' m \<Longrightarrow> post (\<lambda>v s. Q v s \<and> Q' v s) (\<lambda>s. L s \<and> L' s) m"
  by (cases m) simp_all

lemma post_RetD: "post Q L m \<Longrightarrow> m = Ret v s \<Longrightarrow> Q v s"
  by simp

section \<open>C arithmetic\<close>

text \<open>The C remainder: it has the sign of the dividend.\<close>

definition c_rem :: "int \<Rightarrow> int \<Rightarrow> int" where
  "c_rem x m = (if x < 0 then - ((- x) mod m) else x mod m)"

section \<open>Bytes and 16-bit addresses\<close>

text \<open>The two bytes of a 16-bit value, as the code splits and joins them.\<close>

definition hi8 :: "u16 \<Rightarrow> u8" where
  "hi8 w = ucast (drop_bit 8 w)"

definition lo8 :: "u16 \<Rightarrow> u8" where
  "lo8 w = ucast (w AND 0xFF)"

definition join8 :: "u8 \<Rightarrow> u8 \<Rightarrow> u16" where
  "join8 lo hi = ucast lo OR push_bit 8 (ucast hi)"

lemma bit_mask8_u16: "bit (0xFF :: u16) n \<longleftrightarrow> n < 8"
proof -
  have "(0xFF :: u16) = mask 8" by (simp add: mask_eq_exp_minus_1)
  then have "bit (0xFF :: u16) n \<longleftrightarrow> bit (mask 8 :: u16) n" by (rule arg_cong)
  then show ?thesis by (simp only: bit_mask_iff) auto
qed

lemma bit_hi8 [bits]: "bit (hi8 w) n \<longleftrightarrow> n < 8 \<and> bit w (n + 8)"
  by (auto simp: hi8_def bit_simps add.commute)

lemma bit_lo8 [bits]: "bit (lo8 w) n \<longleftrightarrow> n < 8 \<and> bit w n"
  unfolding lo8_def by (auto simp only: bit_unsigned_iff bit_and_iff bit_mask8_u16 possible_bit_word) simp

lemma bit_join8 [bits]:
  "bit (join8 lo hi) n \<longleftrightarrow> n < 16 \<and> (if n < 8 then bit lo n else bit hi (n - 8))"
  by (auto simp: join8_def bit_simps dest: bit_imp_le_length)

lemma join8_lo8_hi8 [simp]: "join8 (lo8 w) (hi8 w) = w"
  by (rule bit_word_eqI) (auto simp: bits)

lemma lo8_join8 [simp]: "lo8 (join8 l h) = l"
  by (rule bit_word_eqI) (auto simp: bits)

lemma hi8_join8 [simp]: "hi8 (join8 l h) = h"
  by (rule bit_word_eqI) (auto simp: bits)

lemma u16_split: "(\<And>l h. w = join8 l h \<Longrightarrow> thesis) \<Longrightarrow> thesis"
  by (metis join8_lo8_hi8)

lemma join8_eq_iff [simp]: "join8 l h = join8 l' h' \<longleftrightarrow> l = l' \<and> h = h'"
  by (metis lo8_join8 hi8_join8)

text \<open>The code joins bytes with \<open>+\<close> in some places and \<open>|\<close> in others.\<close>

lemma join8_plus: "ucast (lo :: u8) + push_bit 8 (ucast (hi :: u8)) = join8 lo hi"
  unfolding join8_def
  by (rule disjunctive_add_eq_or, rule bit_word_eqI)
    (auto simp: bit_simps dest: bit_imp_le_length)

lemma u8_bound: "unat (x :: u8) < 256"
proof -
  have "unat x < 2 ^ LENGTH(8)" by (rule unsigned_less)
  then show ?thesis by simp
qed

lemma u16_bound: "unat (x :: u16) < 65536"
proof -
  have "unat x < 2 ^ LENGTH(16)" by (rule unsigned_less)
  then show ?thesis by simp
qed

lemma unat_ucast_8_16 [simp]: "unat (ucast (x :: u8) :: u16) = unat x"
  using u8_bound [of x] by (simp add: unsigned_ucast_eq take_bit_nat_eq_self)

lemma unat_ucast_16_32 [simp]: "unat (ucast (x :: u16) :: u32) = unat x"
  using u16_bound [of x] by (simp add: unsigned_ucast_eq take_bit_nat_eq_self)

lemma take_bit_inc_32_16: "take_bit 16 (take_bit 32 x + 1) = take_bit 16 (x + 1 :: int)"
  using take_bit_add [of 16 "take_bit 32 x" 1] take_bit_add [of 16 x 1] by simp

lemma ucast_inc_32_16: "ucast (cur + 1 :: u32) = (ucast cur + 1 :: u16)"
  by transfer (simp add: take_bit_inc_32_16)

lemma unat_hi8: "unat (hi8 a) = unat a div 256"
proof -
  have "unat (hi8 a) = take_bit 8 (unat a div 256)"
    by (simp add: hi8_def unsigned_ucast_eq drop_bit_eq_div unat_div)
  also have "\<dots> = unat a div 256"
    using u16_bound [of a] by (intro take_bit_nat_eq_self) simp
  finally show ?thesis .
qed

lemma unat_page_start: "unat (push_bit 8 (ucast (p :: u8)) :: u16) = 256 * unat p"
proof -
  have "unat (push_bit 8 (ucast p) :: u16) = take_bit 16 (256 * unat p)"
    by (simp add: push_bit_eq_mult unat_word_ariths take_bit_eq_mod mult.commute)
  also have "\<dots> = 256 * unat p"
    using u8_bound [of p] by (intro take_bit_nat_eq_self) simp
  finally show ?thesis .
qed

lemma hi8_page:
  "hi8 a = p \<longleftrightarrow> push_bit 8 (ucast p) \<le> a \<and> a \<le> push_bit 8 (ucast p) + 0xFF"
proof -
  have e: "unat (push_bit 8 (ucast p) + 0xFF :: u16) = 256 * unat p + 255"
    using u8_bound [of p] by (simp add: unat_word_ariths unat_page_start)
  have "unat a div 256 = unat p \<longleftrightarrow> 256 * unat p \<le> unat a \<and> unat a \<le> 256 * unat p + 255"
    by linarith
  then show ?thesis
    by (simp add: word_unat_eq_iff unat_hi8 word_le_nat_alt e unat_page_start)
qed

lemma hi8_surj [simp]: "(\<forall>a. hi8 a \<noteq> p) = False"
  by (metis hi8_join8)

lemma unat_lo8: "unat (lo8 a) = unat a mod 256"
proof -
  have "(0xFF :: u16) = mask 8" by (simp add: mask_eq_exp_minus_1)
  then have "lo8 a = ucast (take_bit 8 a)" by (simp only: lo8_def take_bit_eq_mask)
  then show ?thesis by (simp add: unsigned_ucast_eq take_bit_eq_mod unat_mod)
qed

lemma next_page_div:
  assumes "n < 65536" "s < 256" "256 \<le> n mod 256 + s"
  shows "(n + s) mod 65536 div 256 \<noteq> n div (256 :: nat)"
proof -
  define q t where "q = n div 256" and "t = n mod 256 + s - 256"
  have n: "n + s = 256 * (q + 1) + t" and t: "t < 256" and q: "q < 256"
    using assms mult_div_mod_eq [of 256 n] by (simp_all add: q_def t_def less_mult_imp_div_less)
  show ?thesis
  proof (cases "q = 255")
    case True
    with t have "(n + s) mod 65536 = t" by (simp add: n)
    with t True show ?thesis by (simp add: q_def)
  next
    case False
    with t q have "(n + s) mod 65536 = 256 * (q + 1) + t" by (simp add: n)
    with t show ?thesis by (simp add: q_def [symmetric] div_add1_eq)
  qed
qed

lemma same_page_advance:
  assumes "hi8 (pc + of_nat s) = hi8 pc" "s < 256"
  shows "unat (lo8 pc) + s < 256"
proof (rule ccontr)
  assume "\<not> ?thesis"
  moreover have "unat (pc + of_nat s) = (unat pc + s) mod 65536"
    using assms(2) by (simp add: unat_word_ariths unat_of_nat)
  ultimately show False
    using assms next_page_div [of "unat pc" s] u16_bound [of pc]
    by (simp add: word_unat_eq_iff unat_hi8 unat_lo8)
qed

lemma page_advance:
  assumes "unat (lo8 pc) + s < 256"
  shows "hi8 (pc + of_nat s) = hi8 pc" "unat (lo8 (pc + of_nat s)) = unat (lo8 pc) + s"
proof -
  have "unat pc = 256 * unat (hi8 pc) + unat (lo8 pc)" by (simp add: unat_hi8 unat_lo8)
  moreover have "unat (hi8 pc) < 256" by (rule u8_bound)
  ultimately have "unat (pc + of_nat s) = 256 * unat (hi8 pc) + (unat (lo8 pc) + s)"
    using assms by (simp add: unat_word_ariths unat_of_nat)
  with assms show "hi8 (pc + of_nat s) = hi8 pc" "unat (lo8 (pc + of_nat s)) = unat (lo8 pc) + s"
    by (simp_all add: word_unat_eq_iff unat_hi8 [of "pc + of_nat s"] unat_lo8 [of "pc + of_nat s"])
qed

section \<open>Lists\<close>

text \<open>The loops over all 65536 table slots.\<close>

lemma u16_indices: "set (map of_nat [0..<65536]) = (UNIV :: u16 set)"
proof -
  have "w \<in> of_nat ` {0..<65536}" for w :: u16
    by (rule image_eqI [of _ _ "unat w"]) (use u16_bound [of w] in simp_all)
  then show ?thesis by auto
qed

lemma fold_u16: "fold (\<lambda>i. f (of_nat i)) [0..<65536] = fold f (map of_nat [0..<65536] :: u16 list)"
  by (simp only: fold_map comp_def)


lemma fold_last_match:
  "fold (\<lambda>m acc. if p m then Some m else acc) xs acc =
     (case find p (rev xs) of None \<Rightarrow> acc | Some m \<Rightarrow> Some m)"
proof (induction xs arbitrary: acc)
  case Nil
  then show ?case by simp
next
  case (Cons x xs)
  have *: "find p (ys @ zs) = (case find p ys of None \<Rightarrow> find p zs | Some y \<Rightarrow> Some y)" for ys zs
    by (induction ys) auto
  show ?case by (simp add: Cons * split: option.splits)
qed

end
