(* ===== verification/Bus.thy ===== *)
theory Bus
  imports Prelude
begin

text \<open>
  The bus and its devices: \<open>device.h\<close>, \<open>device_ram.c\<close>, \<open>bus.h\<close> and \<open>bus.c\<close>.
  A device lives in a heap and mappings refer to it by its address there, so that one device
  mapped twice is shared. RAM devices are modelled in full; the callbacks of host devices act
  on the host's own memory and are parameters (\<open>devhost\<close>).
\<close>

section \<open>State\<close>

type_synonym devid = nat

text \<open>The pair of \<open>read_1\<close> and \<open>write_1\<close> function pointers of a \<open>device_t\<close>.\<close>

datatype devops = DEV_RAM | DEV_HOST fnptr

record device =
  dev_name :: string
  dev_size :: u16
  dev_ops :: devops
  dev_finish :: "fnptr option"
  dev_aux :: "u16 \<Rightarrow> u8"

text \<open>
  The fields of \<open>struct bus_tag\<close>, then the memory its pointers reach: the heap of devices,
  the next free heap address (\<open>GC_MALLOC\<close>) and the memory of the host's device callbacks.
\<close>

record 'h bus =
  dm_head :: "(devid \<times> u16) list"
  dm_phys_head :: "(devid \<times> u32) list"
  access_debug :: bool
  heap :: "devid \<Rightarrow> device"
  heap_next :: devid
  hostmem :: 'h

record 'h devhost =
  hd_read_1 :: "fnptr \<Rightarrow> devid \<Rightarrow> u16 \<Rightarrow> 'h \<Rightarrow> u8 \<times> 'h"
  hd_write_1 :: "fnptr \<Rightarrow> devid \<Rightarrow> u16 \<Rightarrow> u8 \<Rightarrow> 'h \<Rightarrow> 'h"
  hd_finish :: "fnptr \<Rightarrow> devid \<Rightarrow> 'h \<Rightarrow> 'h"

abbreviation RK65C02_BUS_SIZE :: nat where
  "RK65C02_BUS_SIZE \<equiv> 65536"

abbreviation RK65C02_PHYS_MAX :: nat where
  "RK65C02_PHYS_MAX \<equiv> 16777216"

section \<open>RAM device\<close>

definition device_ram_read_1 :: "device \<Rightarrow> u16 \<Rightarrow> u8" where
  "device_ram_read_1 d offset = dev_aux d offset"

definition device_ram_write_1 :: "device \<Rightarrow> u16 \<Rightarrow> u8 \<Rightarrow> device" where
  "device_ram_write_1 d offset val = d\<lparr>dev_aux := (dev_aux d)(offset := val)\<rparr>"

definition device_ram_init :: "u16 \<Rightarrow> 'h bus \<Rightarrow> devid \<times> 'h bus" where
  "device_ram_init sz b =
     (heap_next b,
      b\<lparr>heap := (heap b)(heap_next b :=
            \<lparr>dev_name = ''RAM'', dev_size = sz, dev_ops = DEV_RAM, dev_finish = None,
             dev_aux = (\<lambda>_. 0)\<rparr>),
        heap_next := heap_next b + 1\<rparr>)"

text \<open>The indirect calls \<open>d->read_1(d, off)\<close> and \<open>d->write_1(d, off, val)\<close>.\<close>

definition device_read_1 :: "'h devhost \<Rightarrow> 'h bus \<Rightarrow> devid \<Rightarrow> u16 \<Rightarrow> u8 \<times> 'h bus" where
  "device_read_1 H b d off =
     (case dev_ops (heap b d) of
        DEV_RAM \<Rightarrow> (device_ram_read_1 (heap b d) off, b)
      | DEV_HOST f \<Rightarrow>
          (let (v, h) = hd_read_1 H f d off (hostmem b) in (v, b\<lparr>hostmem := h\<rparr>)))"

definition device_write_1 :: "'h devhost \<Rightarrow> 'h bus \<Rightarrow> devid \<Rightarrow> u16 \<Rightarrow> u8 \<Rightarrow> 'h bus" where
  "device_write_1 H b d off val =
     (case dev_ops (heap b d) of
        DEV_RAM \<Rightarrow> b\<lparr>heap := (heap b)(d := device_ram_write_1 (heap b d) off val)\<rparr>
      | DEV_HOST f \<Rightarrow> b\<lparr>hostmem := hd_write_1 H f d off val (hostmem b)\<rparr>)"

section \<open>Mappings\<close>

definition bus_init :: "(devid \<Rightarrow> device) \<Rightarrow> devid \<Rightarrow> 'h \<Rightarrow> 'h bus" where
  "bus_init hp nxt hm =
     \<lparr>dm_head = [], dm_phys_head = [], access_debug = False,
      heap = hp, heap_next = nxt, hostmem = hm\<rparr>"

definition bus_device_add :: "'h bus \<Rightarrow> devid \<Rightarrow> u16 \<Rightarrow> 'h bus" where
  "bus_device_add b d addr =
     (if unat addr + unat (dev_size (heap b d)) > RK65C02_BUS_SIZE then b
      else b\<lparr>dm_head := dm_head b @ [(d, addr)]\<rparr>)"

definition bus_device_add_phys :: "'h bus \<Rightarrow> devid \<Rightarrow> u32 \<Rightarrow> 'h bus" where
  "bus_device_add_phys b d base = b\<lparr>dm_phys_head := dm_phys_head b @ [(d, base)]\<rparr>"

definition bus_init_with_default_devs :: "(devid \<Rightarrow> device) \<Rightarrow> devid \<Rightarrow> 'h \<Rightarrow> 'h bus" where
  "bus_init_with_default_devs hp nxt hm =
     (let t = bus_init hp nxt hm;
          (d, t) = device_ram_init 0xDFFF t
      in bus_device_add t d 0)"

text \<open>
  \<open>bus_access_device\<close> walks the whole list and keeps the last match; a C \<open>int\<close> sum
  bounds the range, so it does not wrap. \<open>None\<close> is the \<open>NULL\<close> device.
\<close>

definition dm_hit :: "'h bus \<Rightarrow> u16 \<Rightarrow> devid \<times> u16 \<Rightarrow> bool" where
  "dm_hit b addr m =
     (unat (snd m) \<le> unat addr \<and> unat addr < unat (snd m) + unat (dev_size (heap b (fst m))))"

definition bus_access_device :: "'h bus \<Rightarrow> u16 \<Rightarrow> (devid \<times> u16) option" where
  "bus_access_device b addr =
     (case fold (\<lambda>m acc. if dm_hit b addr m then Some m else acc) (dm_head b) None of
        None \<Rightarrow> None
      | Some (d, doff) \<Rightarrow> Some (d, addr - doff))"

text \<open>
  \<open>bus_access_device_phys\<close> stops at the first match, and its range test is in wrapping
  32-bit arithmetic.
\<close>

fun dm_phys_find :: "'h bus \<Rightarrow> u32 \<Rightarrow> (devid \<times> u32) list \<Rightarrow> (devid \<times> u16) option" where
  "dm_phys_find b addr [] = None"
| "dm_phys_find b addr ((d, base) # ms) =
     (if base \<le> addr \<and> addr < base + ucast (dev_size (heap b d))
      then Some (d, ucast (addr - base)) else dm_phys_find b addr ms)"

definition bus_access_device_phys :: "'h bus \<Rightarrow> u32 \<Rightarrow> (devid \<times> u16) option" where
  "bus_access_device_phys b addr =
     (if unat addr < RK65C02_BUS_SIZE then None else dm_phys_find b addr (dm_phys_head b))"

section \<open>Bus reads and writes\<close>

definition bus_read_1 :: "'h devhost \<Rightarrow> 'h bus \<Rightarrow> u16 \<Rightarrow> u8 \<times> 'h bus" where
  "bus_read_1 H b addr =
     (case bus_access_device b addr of
        None \<Rightarrow> (0xFF, b)
      | Some (d, off) \<Rightarrow> device_read_1 H b d off)"

definition bus_write_1 :: "'h devhost \<Rightarrow> 'h bus \<Rightarrow> u16 \<Rightarrow> u8 \<Rightarrow> 'h bus" where
  "bus_write_1 H b addr val =
     (case bus_access_device b addr of
        None \<Rightarrow> b
      | Some (d, off) \<Rightarrow> device_write_1 H b d off val)"

definition bus_read_1_phys :: "'h devhost \<Rightarrow> 'h bus \<Rightarrow> u32 \<Rightarrow> u8 \<times> 'h bus" where
  "bus_read_1_phys H b addr =
     (if unat addr < RK65C02_BUS_SIZE then bus_read_1 H b (ucast addr)
      else case bus_access_device_phys b addr of
             None \<Rightarrow> (0xFF, b)
           | Some (d, off) \<Rightarrow> device_read_1 H b d off)"

definition bus_write_1_phys :: "'h devhost \<Rightarrow> 'h bus \<Rightarrow> u32 \<Rightarrow> u8 \<Rightarrow> 'h bus" where
  "bus_write_1_phys H b addr val =
     (if unat addr < RK65C02_BUS_SIZE then bus_write_1 H b (ucast addr) val
      else case bus_access_device_phys b addr of
             None \<Rightarrow> b
           | Some (d, off) \<Rightarrow> device_write_1 H b d off val)"

section \<open>Loading images\<close>

fun bus_load_buf_loop :: "'h devhost \<Rightarrow> 'h bus \<Rightarrow> u16 \<Rightarrow> u8 list \<Rightarrow> 'h bus" where
  "bus_load_buf_loop H b addr [] = b"
| "bus_load_buf_loop H b addr (x # xs) = bus_load_buf_loop H (bus_write_1 H b addr x) (addr + 1) xs"

definition bus_load_buf :: "'h devhost \<Rightarrow> 'h bus \<Rightarrow> u16 \<Rightarrow> u8 list \<Rightarrow> ('h bus, bool) outcome" where
  "bus_load_buf H b addr buf =
     (if buf = [] then Abort
      else if unat addr + length buf > RK65C02_BUS_SIZE then Ret False b
      else Ret True (bus_load_buf_loop H b addr buf))"

text \<open>
  The file loaders take what \<open>open\<close> and \<open>read\<close> deliver: \<open>None\<close> when the file cannot
  be opened, otherwise the bytes up to end of file.
\<close>

fun bus_load_file_loop :: "'h devhost \<Rightarrow> 'h bus \<Rightarrow> u32 \<Rightarrow> u8 list \<Rightarrow> bool \<times> 'h bus" where
  "bus_load_file_loop H b cur [] = (True, b)"
| "bus_load_file_loop H b cur (x # xs) =
     (if unat cur \<ge> RK65C02_BUS_SIZE then (False, b)
      else bus_load_file_loop H (bus_write_1 H b (ucast cur) x) (cur + 1) xs)"

definition bus_load_file :: "'h devhost \<Rightarrow> 'h bus \<Rightarrow> u16 \<Rightarrow> u8 list option \<Rightarrow> bool \<times> 'h bus" where
  "bus_load_file H b addr file =
     (case file of
        None \<Rightarrow> (False, b)
      | Some data \<Rightarrow> bus_load_file_loop H b (ucast addr) data)"

fun bus_load_file_phys_loop :: "'h devhost \<Rightarrow> 'h bus \<Rightarrow> u32 \<Rightarrow> u8 list \<Rightarrow> bool \<times> 'h bus" where
  "bus_load_file_phys_loop H b addr [] = (True, b)"
| "bus_load_file_phys_loop H b addr (x # xs) =
     (if unat addr \<ge> RK65C02_PHYS_MAX then (False, b)
      else bus_load_file_phys_loop H (bus_write_1_phys H b addr x) (addr + 1) xs)"

definition bus_load_file_phys :: "'h devhost \<Rightarrow> 'h bus \<Rightarrow> u32 \<Rightarrow> u8 list option \<Rightarrow> bool \<times> 'h bus" where
  "bus_load_file_phys H b addr file =
     (if unat addr < RK65C02_BUS_SIZE then (False, b)
      else case file of
             None \<Rightarrow> (False, b)
           | Some data \<Rightarrow> bus_load_file_phys_loop H b addr data)"

section \<open>Release\<close>

definition dev_finish_call :: "'h devhost \<Rightarrow> devid \<Rightarrow> 'h bus \<Rightarrow> 'h bus" where
  "dev_finish_call H d b =
     (case dev_finish (heap b d) of
        None \<Rightarrow> b
      | Some f \<Rightarrow> b\<lparr>hostmem := hd_finish H f d (hostmem b)\<rparr>)"

definition bus_finish :: "'h devhost \<Rightarrow> 'h bus \<Rightarrow> 'h bus" where
  "bus_finish H b =
     fold (\<lambda>m. dev_finish_call H (fst m)) (dm_phys_head b)
       (fold (\<lambda>m. dev_finish_call H (fst m)) (dm_head b) b)"

section \<open>Contract of a byte store\<close>

text \<open>
  What the memory layers promise their clients: an address may denote a storage cell; reading
  a cell changes nothing, writing one keeps the map from addresses to cells, and a read after a
  write sees the new value exactly where the two addresses denote the same cell. Two addresses
  of one cell are aliases.
\<close>

locale byte_store =
  fixes rd :: "'s \<Rightarrow> 'a \<Rightarrow> 'v \<times> 's"
    and wr :: "'s \<Rightarrow> 'a \<Rightarrow> 'v \<Rightarrow> 's"
    and cell :: "'s \<Rightarrow> 'a \<Rightarrow> 'c option"
  assumes rd_pure: "cell s a = Some c \<Longrightarrow> snd (rd s a) = s"
    and cell_wr: "cell s a = Some c \<Longrightarrow> cell (wr s a v) = cell s"
    and rd_wr: "cell s a = Some c \<Longrightarrow> cell s a' = Some c' \<Longrightarrow>
      fst (rd (wr s a v) a') = (if c' = c then v else fst (rd s a'))"
begin

fun wr_all :: "'s \<Rightarrow> ('a \<times> 'v) list \<Rightarrow> 's" where
  "wr_all s [] = s"
| "wr_all s ((a, v) # ws) = wr_all (wr s a v) ws"

definition cells :: "'s \<Rightarrow> ('a \<times> 'v) list \<Rightarrow> 'c option list" where
  "cells s ws = map (\<lambda>w. cell s (fst w)) ws"

lemma wr_all_cell:
  "None \<notin> set (cells s ws) \<Longrightarrow> cell (wr_all s ws) = cell s"
proof (induction s ws rule: wr_all.induct)
  case (1 s)
  then show ?case by simp
next
  case (2 s a v ws)
  from 2 obtain c where c: "cell s a = Some c"
    by (cases "cell s a") (auto simp: cells_def)
  with 2 show ?case by (simp add: cell_wr [OF c] cells_def)
qed

lemma wr_all_frame:
  "None \<notin> set (cells s ws) \<Longrightarrow> cell s a = Some c \<Longrightarrow> Some c \<notin> set (cells s ws) \<Longrightarrow>
     fst (rd (wr_all s ws) a) = fst (rd s a)"
proof (induction s ws rule: wr_all.induct)
  case (1 s)
  then show ?case by simp
next
  case (2 s a' v ws)
  from 2 obtain c' where c': "cell s a' = Some c'"
    by (cases "cell s a'") (auto simp: cells_def)
  with "2.prems" have "c' \<noteq> c" by (auto simp: cells_def)
  with 2 c' show ?case by (simp add: cell_wr [OF c'] cells_def rd_wr [OF c'])
qed

lemma wr_all_read:
  "distinct (cells s ws) \<Longrightarrow> None \<notin> set (cells s ws) \<Longrightarrow> (a, v) \<in> set ws \<Longrightarrow>
     fst (rd (wr_all s ws) a) = v"
proof (induction s ws rule: wr_all.induct)
  case (1 s)
  then show ?case by simp
next
  case (2 s a' v' ws)
  from 2 obtain c' where c': "cell s a' = Some c'"
    by (cases "cell s a'") (auto simp: cells_def)
  have same: "cell (wr s a' v') = cell s" by (rule cell_wr [OF c'])
  have tail: "None \<notin> set (cells (wr s a' v') ws)"
    using 2 by (auto simp: cells_def same)
  show ?case
  proof (cases "(a, v) = (a', v')")
    case True
    have "Some c' \<notin> set (cells (wr s a' v') ws)"
      using 2 c' by (auto simp: cells_def same)
    then have "fst (rd (wr_all (wr s a' v') ws) a') = fst (rd (wr s a' v') a')"
      by (intro wr_all_frame [where c = c']) (use tail c' same in auto)
    with True show ?thesis by (simp add: rd_wr [OF c' c'])
  next
    case False
    with 2 show ?thesis by (auto simp: cells_def same)
  qed
qed

end

section \<open>Routing\<close>

lemma bus_access_device_last:
  "bus_access_device b a =
     map_option (\<lambda>m. (fst m, a - snd m)) (find (dm_hit b a) (rev (dm_head b)))"
  by (auto simp: bus_access_device_def fold_last_match split: option.splits)

lemma bus_access_device_off:
  assumes "bus_access_device b a = Some (d, off)"
  shows "unat off < unat (dev_size (heap b d))"
proof -
  from assms obtain m where m: "find (dm_hit b a) (rev (dm_head b)) = Some m"
    and d: "d = fst m" and off: "off = a - snd m"
    by (auto simp: bus_access_device_last)
  from m have hit: "dm_hit b a m" by (auto simp: find_Some_iff)
  then have "snd m \<le> a" by (simp add: dm_hit_def word_le_nat_alt)
  then have "unat off = unat a - unat (snd m)" by (simp add: off unat_sub)
  with hit d show ?thesis by (simp add: dm_hit_def less_diff_conv2)
qed

lemma dm_phys_find_off:
  assumes "dm_phys_find b a ms = Some (d, off)"
  shows "unat off < unat (dev_size (heap b d))"
  using assms
proof (induction b a ms rule: dm_phys_find.induct)
  case (1 b a)
  then show ?case by simp
next
  case (2 b a d' base ms)
  show ?case
  proof (cases "base \<le> a \<and> a < base + ucast (dev_size (heap b d'))")
    case True
    let ?sz = "ucast (dev_size (heap b d')) :: u32"
    from True have sub: "unat (a - base) = unat a - unat base" by (simp add: unat_sub)
    have "unat (base + ?sz) \<le> unat base + unat ?sz"
      by (simp only: unat_word_ariths mod_less_eq_dividend)
    moreover have "unat a < unat (base + ?sz)"
      using True by (simp only: word_less_nat_alt)
    ultimately have "unat a < unat base + unat ?sz" by linarith
    then have lt: "unat (a - base) < unat ?sz"
      using sub True by (simp only: word_le_nat_alt) linarith
    have sz: "unat ?sz = unat (dev_size (heap b d'))"
      by simp
    with lt u16_bound [of "dev_size (heap b d')"] have "unat (ucast (a - base) :: u16) = unat (a - base)"
      by (simp add: unsigned_ucast_eq take_bit_nat_eq_self)
    with lt sz have "unat (ucast (a - base) :: u16) < unat (dev_size (heap b d'))" by simp
    moreover from True "2.prems" have "d = d'" "off = ucast (a - base)" by simp_all
    ultimately show ?thesis by simp
  next
    case False
    with 2 show ?thesis by auto
  qed
qed

text \<open>
  Bus invariant: every mapping in the 64K list lies inside the bus, which
  \<open>bus_device_add\<close> checks before it adds one.
\<close>

definition bus_wf :: "'h bus \<Rightarrow> bool" where
  "bus_wf b \<longleftrightarrow>
     (\<forall>(d, a) \<in> set (dm_head b). unat a + unat (dev_size (heap b d)) \<le> RK65C02_BUS_SIZE)"

lemma bus_wf_init: "bus_wf (bus_init hp nxt hm)"
  by (simp add: bus_wf_def bus_init_def)

lemma bus_wf_device_add: "bus_wf b \<Longrightarrow> bus_wf (bus_device_add b d a)"
  by (auto simp: bus_wf_def bus_device_add_def)

lemma bus_wf_device_write: "bus_wf b \<Longrightarrow> bus_wf (device_write_1 H b d off v)"
  by (auto simp: bus_wf_def device_write_1_def device_ram_write_1_def split: devops.splits)

lemma bus_wf_write: "bus_wf b \<Longrightarrow> bus_wf (bus_write_1 H b a v)"
  by (auto simp: bus_write_1_def intro: bus_wf_device_write split: option.splits)

section \<open>RAM cells\<close>

text \<open>The RAM cell an address denotes: the device and the offset in its array.\<close>

definition bus_cell :: "'h bus \<Rightarrow> u16 \<Rightarrow> (devid \<times> u16) option" where
  "bus_cell b a =
     (case bus_access_device b a of
        None \<Rightarrow> None
      | Some (d, off) \<Rightarrow> (if dev_ops (heap b d) = DEV_RAM then Some (d, off) else None))"

definition bus_cell_phys :: "'h bus \<Rightarrow> u32 \<Rightarrow> (devid \<times> u16) option" where
  "bus_cell_phys b a =
     (if unat a < RK65C02_BUS_SIZE then bus_cell b (ucast a)
      else case bus_access_device_phys b a of
             None \<Rightarrow> None
           | Some (d, off) \<Rightarrow> (if dev_ops (heap b d) = DEV_RAM then Some (d, off) else None))"

definition cell_val :: "'h bus \<Rightarrow> devid \<times> u16 \<Rightarrow> u8" where
  "cell_val b c = dev_aux (heap b (fst c)) (snd c)"

definition set_cell :: "'h bus \<Rightarrow> devid \<times> u16 \<Rightarrow> u8 \<Rightarrow> 'h bus" where
  "set_cell b c v = b\<lparr>heap := (heap b)(fst c := device_ram_write_1 (heap b (fst c)) (snd c) v)\<rparr>"

lemma dm_hit_set_cell [simp]: "dm_hit (set_cell b c v) = dm_hit b"
  by (auto simp: dm_hit_def set_cell_def device_ram_write_1_def fun_eq_iff)

lemma dm_phys_find_set_cell [simp]: "dm_phys_find (set_cell b c v) a ms = dm_phys_find b a ms"
proof (induction ms)
  case (Cons m ms)
  have "dev_size (heap (set_cell b c v) d) = dev_size (heap b d)" for d
    by (simp add: set_cell_def device_ram_write_1_def)
  with Cons show ?case by (cases m) simp
qed simp

lemma set_cell_heads [simp]:
  "dm_head (set_cell b c v) = dm_head b" "dm_phys_head (set_cell b c v) = dm_phys_head b"
  "dev_ops (heap (set_cell b c v) d) = dev_ops (heap b d)" "hostmem (set_cell b c v) = hostmem b"
  by (simp_all add: set_cell_def device_ram_write_1_def)

lemma cell_val_set_cell [simp]: "cell_val (set_cell b c v) c' = (if c' = c then v else cell_val b c')"
  by (auto simp: cell_val_def set_cell_def device_ram_write_1_def prod_eq_iff)

lemma bus_access_device_set_cell [simp]:
  "bus_access_device (set_cell b c v) a = bus_access_device b a"
  by (simp add: bus_access_device_last)

lemma bus_cell_set_cell [simp]: "bus_cell (set_cell b c v) = bus_cell b"
  by (rule ext) (simp add: bus_cell_def split: option.splits)

lemma bus_cell_phys_set_cell [simp]: "bus_cell_phys (set_cell b c v) = bus_cell_phys b"
  by (rule ext) (simp add: bus_cell_phys_def bus_access_device_phys_def split: option.splits)

lemma bus_read_cell: "bus_cell b a = Some c \<Longrightarrow> bus_read_1 H b a = (cell_val b c, b)"
  by (auto simp: bus_cell_def bus_read_1_def device_read_1_def device_ram_read_1_def cell_val_def
      split: option.splits if_splits)

lemma bus_write_cell: "bus_cell b a = Some c \<Longrightarrow> bus_write_1 H b a v = set_cell b c v"
  by (auto simp: bus_cell_def bus_write_1_def device_write_1_def set_cell_def
      split: option.splits if_splits)

lemma bus_read_cell_phys: "bus_cell_phys b a = Some c \<Longrightarrow> bus_read_1_phys H b a = (cell_val b c, b)"
  by (auto simp: bus_cell_phys_def bus_read_1_phys_def bus_read_cell device_read_1_def
      device_ram_read_1_def cell_val_def split: option.splits if_splits)

lemma bus_write_cell_phys: "bus_cell_phys b a = Some c \<Longrightarrow> bus_write_1_phys H b a v = set_cell b c v"
  by (auto simp: bus_cell_phys_def bus_write_1_phys_def bus_write_cell device_write_1_def
      set_cell_def split: option.splits if_splits)

interpretation bus_ram: byte_store "bus_read_1 H" "bus_write_1 H" bus_cell for H
  by unfold_locales (auto simp: bus_read_cell bus_write_cell)

interpretation phys_ram: byte_store "bus_read_1_phys H" "bus_write_1_phys H" bus_cell_phys for H
  by unfold_locales (auto simp: bus_read_cell_phys bus_write_cell_phys)

section \<open>Loading a buffer\<close>

text \<open>The consecutive bytes from \<open>addr\<close> on are RAM cells, no two of them the same cell.\<close>

definition ram_span :: "'h bus \<Rightarrow> u16 \<Rightarrow> nat \<Rightarrow> bool" where
  "ram_span b addr n \<longleftrightarrow>
     (\<forall>i < n. bus_cell b (addr + of_nat i) \<noteq> None) \<and>
     inj_on (\<lambda>i. bus_cell b (addr + of_nat i)) {..<n}"

definition span_writes :: "u16 \<Rightarrow> u8 list \<Rightarrow> (u16 \<times> u8) list" where
  "span_writes addr buf = map (\<lambda>i. (addr + of_nat i, buf ! i)) [0..<length buf]"

lemma span_writes_Cons: "span_writes addr (x # xs) = (addr, x) # span_writes (addr + 1) xs"
  unfolding span_writes_def length_Cons upt_conv_Cons [OF zero_less_Suc] map_Suc_upt [symmetric]
  by (simp add: add.assoc)

lemma bus_load_buf_loop_wr_all:
  "bus_load_buf_loop H b addr buf = bus_ram.wr_all H b (span_writes addr buf)"
proof (induction H b addr buf rule: bus_load_buf_loop.induct)
  case (1 H b addr)
  then show ?case by (simp add: span_writes_def)
next
  case (2 H b addr x xs)
  then show ?case by (simp add: span_writes_Cons)
qed

lemma bus_ram_cells_span:
  "bus_ram.cells b (span_writes addr buf) = map (\<lambda>i. bus_cell b (addr + of_nat i)) [0..<length buf]"
  by (simp add: bus_ram.cells_def span_writes_def)

lemma ram_span_cells:
  assumes "ram_span b addr (length buf)"
  shows "None \<notin> set (bus_ram.cells b (span_writes addr buf))"
    and "distinct (bus_ram.cells b (span_writes addr buf))"
  using assms unfolding bus_ram_cells_span ram_span_def
  by (auto simp: distinct_map atLeast0LessThan)

lemma load_loop_read:
  assumes span: "ram_span b addr (length buf)" and i: "i < length buf"
  shows "bus_read_1 H (bus_load_buf_loop H b addr buf) (addr + of_nat i) =
     (buf ! i, bus_load_buf_loop H b addr buf)"
proof -
  let ?b = "bus_ram.wr_all H b (span_writes addr buf)"
  have mem: "(addr + of_nat i, buf ! i) \<in> set (span_writes addr buf)"
    using i by (auto simp: span_writes_def)
  from span i obtain c where "bus_cell b (addr + of_nat i) = Some c"
    by (auto simp: ram_span_def)
  then have c: "bus_cell ?b (addr + of_nat i) = Some c"
    by (simp add: bus_ram.wr_all_cell [OF ram_span_cells(1) [OF span]])
  show ?thesis unfolding bus_load_buf_loop_wr_all
    using bus_ram.wr_all_read [OF ram_span_cells(2,1) [OF span] mem, of H] bus_ram.rd_pure [OF c, of H]
    by (simp add: prod_eq_iff)
qed

lemma load_loop_frame:
  assumes span: "ram_span b addr (length buf)" and c: "bus_cell b a = Some c"
    and out: "\<forall>i < length buf. bus_cell b (addr + of_nat i) \<noteq> Some c"
  shows "bus_read_1 H (bus_load_buf_loop H b addr buf) a =
     (cell_val b c, bus_load_buf_loop H b addr buf)"
proof -
  let ?b = "bus_ram.wr_all H b (span_writes addr buf)"
  have c': "bus_cell ?b a = Some c"
    using c by (simp add: bus_ram.wr_all_cell [OF ram_span_cells(1) [OF span]])
  have "Some c \<notin> set (bus_ram.cells b (span_writes addr buf))"
    using out by (auto simp: bus_ram_cells_span)
  from bus_ram.wr_all_frame [OF ram_span_cells(1) [OF span] c this, of H] bus_ram.rd_pure [OF c', of H]
  show ?thesis unfolding bus_load_buf_loop_wr_all
    by (simp add: prod_eq_iff bus_read_cell [OF c])
qed

text \<open>The file loader stores what the buffer loader stores, up to the end of the bus.\<close>

lemma bus_load_file_loop_eq:
  "unat cur \<le> RK65C02_BUS_SIZE \<Longrightarrow>
     bus_load_file_loop H b cur data =
       (unat cur + length data \<le> RK65C02_BUS_SIZE,
        bus_load_buf_loop H b (ucast cur) (take (RK65C02_BUS_SIZE - unat cur) data))"
proof (induction H b cur data rule: bus_load_file_loop.induct)
  case (1 H b cur)
  then show ?case by simp
next
  case (2 H b cur x xs)
  show ?case
  proof (cases "unat cur = RK65C02_BUS_SIZE")
    case True
    then show ?thesis by simp
  next
    case False
    with "2.prems" have lt: "unat cur < RK65C02_BUS_SIZE" by simp
    then have inc: "unat (cur + 1) = unat cur + 1" by (simp add: unat_word_ariths)
    have "RK65C02_BUS_SIZE - unat cur = Suc (RK65C02_BUS_SIZE - unat (cur + 1))"
      using lt inc by simp
    with 2 lt inc show ?thesis by (simp add: ucast_inc_32_16)
  qed
qed

lemma device_add_route:
  "bus_access_device (bus_device_add b d base) a =
     (if unat base + unat (dev_size (heap b d)) \<le> RK65C02_BUS_SIZE \<and>
         unat base \<le> unat a \<and> unat a < unat base + unat (dev_size (heap b d))
      then Some (d, a - base) else bus_access_device b a)"
proof -
  have "dm_hit (bus_device_add b d base) = dm_hit b"
    by (auto simp: bus_device_add_def dm_hit_def fun_eq_iff)
  then show ?thesis
    by (simp add: bus_access_device_last) (simp add: bus_device_add_def dm_hit_def)
qed

section \<open>Properties\<close>

text \<open>A heap with nothing in it yet and a host without devices, for the concrete instances below.\<close>

definition free_heap :: "devid \<Rightarrow> device" where
  "free_heap = (\<lambda>_. \<lparr>dev_name = [], dev_size = 0, dev_ops = DEV_RAM, dev_finish = None,
                     dev_aux = (\<lambda>_. 0)\<rparr>)"

definition no_devices :: "unit devhost" where
  "no_devices = \<lparr>hd_read_1 = (\<lambda>_ _ _ h. (0xFF, h)), hd_write_1 = (\<lambda>_ _ _ _ h. h),
                 hd_finish = (\<lambda>_ _ h. h)\<rparr>"

text \<open>
  C30. An access is only ever handed to a device at an offset inside that device, on the 64K
  bus and in the physical space above it, whatever mappings the host made.
\<close>

theorem bus_offset_in_bounds:
  "(bus_access_device b a = Some (d, off) \<longrightarrow> unat off < unat (dev_size (heap b d))) \<and>
   (bus_access_device_phys b pa = Some (d', off') \<longrightarrow> unat off' < unat (dev_size (heap b d')))"
  by (auto simp: bus_access_device_phys_def intro: bus_access_device_off dm_phys_find_off
      split: if_splits)

theorem bus_offset_in_bounds_witness:
  "let b = bus_device_add_phys (bus_init_with_default_devs free_heap 0 ()) 0 0x20000 in
     bus_access_device b 0x1234 = Some (0, 0x1234) \<and>
     bus_access_device_phys b 0x20010 = Some (0, 0x10) \<and>
     unat (0x1234 :: u16) < unat (dev_size (heap b 0)) \<and>
     unat (0x10 :: u16) < unat (dev_size (heap b 0))"
  using bus_offset_in_bounds [where b = "bus_device_add_phys (bus_init_with_default_devs free_heap 0 ()) 0 0x20000"
      and a = "0x1234" and d = 0 and off = "0x1234" and pa = "0x20010" and d' = 0 and off' = "0x10"]
  by (simp add: bus_init_with_default_devs_def bus_init_def device_ram_init_def bus_device_add_def
      bus_device_add_phys_def bus_access_device_def bus_access_device_phys_def dm_hit_def)

text \<open>
  C31. Mapping a device that fits on the 64K bus gives it its whole range, over any device
  mapped there before, at offset address minus base; every other address is routed as before.
  A device that does not fit changes nothing.
\<close>

theorem bus_device_add_routes:
  "bus_access_device (bus_device_add b d base) a =
     (if unat base + unat (dev_size (heap b d)) \<le> RK65C02_BUS_SIZE \<and>
         unat base \<le> unat a \<and> unat a < unat base + unat (dev_size (heap b d))
      then Some (d, a - base) else bus_access_device b a)"
  by (rule device_add_route)

text \<open>
  C32. In the physical space the order is the other way round: a new mapping is reached only
  at addresses from 64K up that no earlier mapping covers.
\<close>

theorem bus_device_add_phys_routes:
  "bus_access_device_phys (bus_device_add_phys b d base) a =
     (case bus_access_device_phys b a of
        Some r \<Rightarrow> Some r
      | None \<Rightarrow>
          (if RK65C02_BUS_SIZE \<le> unat a \<and> base \<le> a \<and> a < base + ucast (dev_size (heap b d))
           then Some (d, ucast (a - base)) else None))"
proof -
  have same: "dm_phys_find (bus_device_add_phys b d base) a ms = dm_phys_find b a ms" for ms
    by (induction ms) (auto simp: bus_device_add_phys_def)
  have app: "dm_phys_find b a (ms @ [(d, base)]) =
      (case dm_phys_find b a ms of Some r \<Rightarrow> Some r | None \<Rightarrow> dm_phys_find b a [(d, base)])" for ms
    by (induction ms) auto
  show ?thesis
    by (simp add: bus_access_device_phys_def same)
      (simp add: bus_device_add_phys_def app split: option.splits)
qed

text \<open>
  C33. Memory is memory: after a write to a RAM address, a read sees the written byte at every
  address of the same cell (mirrors included) and the old byte at every other RAM address, on
  the 64K bus and through physical addresses.
\<close>

theorem ram_read_after_write:
  "(bus_cell b a = Some c \<longrightarrow> bus_cell b a' = Some c' \<longrightarrow>
      fst (bus_read_1 H (bus_write_1 H b a v) a') = (if c' = c then v else fst (bus_read_1 H b a'))) \<and>
   (bus_cell_phys b p = Some k \<longrightarrow> bus_cell_phys b p' = Some k' \<longrightarrow>
      fst (bus_read_1_phys H (bus_write_1_phys H b p v) p') =
        (if k' = k then v else fst (bus_read_1_phys H b p')))"
  by (blast intro: bus_ram.rd_wr phys_ram.rd_wr)

theorem ram_read_after_write_witness:
  "let b = bus_device_add_phys (bus_init_with_default_devs free_heap 0 ()) 0 0x20000 in
     fst (bus_read_1 no_devices (bus_write_1 no_devices b 0x10 0xAB) 0x10) = 0xAB \<and>
     fst (bus_read_1_phys no_devices (bus_write_1_phys no_devices b 0x20010 0xAB) 0x10) = 0xAB"
  using ram_read_after_write [where b = "bus_device_add_phys (bus_init_with_default_devs free_heap 0 ()) 0 0x20000"
      and H = no_devices and v = "0xAB" and a = "0x10" and a' = "0x10" and c = "(0, 0x10)" and c' = "(0, 0x10)"
      and p = "0x20010" and p' = "0x10" and k = "(0, 0x10)" and k' = "(0, 0x10)"]
  by (simp add: bus_init_with_default_devs_def bus_init_def device_ram_init_def bus_device_add_def
      bus_device_add_phys_def bus_access_device_def bus_access_device_phys_def dm_hit_def
      bus_cell_def bus_cell_phys_def)

text \<open>
  C36. The default bus maps its RAM at 0x0000 to 0xDFFE and nothing else; a read of any other
  address gives 0xFF and a write to it changes nothing.
\<close>

theorem default_bus_map:
  "let b = bus_init_with_default_devs hp nxt hm in
     if a < 0xDFFF then bus_access_device b a = Some (nxt, a)
     else bus_read_1 H b a = (0xFF, b) \<and> bus_write_1 H b a v = b"
proof -
  have "bus_access_device (bus_init_with_default_devs hp nxt hm) a =
      (if a < 0xDFFF then Some (nxt, a) else None)"
    by (simp add: bus_init_with_default_devs_def device_ram_init_def bus_init_def
        bus_device_add_def bus_access_device_def dm_hit_def word_less_nat_alt)
  then show ?thesis by (simp add: Let_def bus_read_1_def bus_write_1_def)
qed

text \<open>
  C34. Loading a buffer that fits into RAM succeeds, stores every byte at its address and
  leaves every other RAM byte alone.
\<close>

theorem bus_load_buf_stores:
  assumes "buf \<noteq> []" and "unat addr + length buf \<le> RK65C02_BUS_SIZE"
    and "ram_span b addr (length buf)"
  shows "\<exists>b'. bus_load_buf H b addr buf = Ret True b' \<and>
     (\<forall>i < length buf. fst (bus_read_1 H b' (addr + of_nat i)) = buf ! i) \<and>
     (\<forall>a c. bus_cell b a = Some c \<longrightarrow> (\<forall>i < length buf. bus_cell b (addr + of_nat i) \<noteq> Some c) \<longrightarrow>
        fst (bus_read_1 H b' a) = fst (bus_read_1 H b a))"
proof (intro exI conjI)
  show "bus_load_buf H b addr buf = Ret True (bus_load_buf_loop H b addr buf)"
    using assms by (simp add: bus_load_buf_def)
qed (use assms in \<open>auto simp: load_loop_read load_loop_frame bus_read_cell\<close>)

theorem bus_load_buf_stores_witness:
  "\<exists>b'. bus_load_buf no_devices (bus_init_with_default_devs free_heap 0 ()) 0xC000 [0xA9, 0x2A] =
       Ret True b' \<and>
     fst (bus_read_1 no_devices b' 0xC000) = 0xA9 \<and> fst (bus_read_1 no_devices b' 0xC001) = 0x2A"
proof -
  have "ram_span (bus_init_with_default_devs free_heap 0 ()) 0xC000 (length [0xA9, 0x2A :: u8])"
    by (auto simp: ram_span_def less_Suc_eq inj_on_def bus_init_with_default_devs_def bus_init_def
        device_ram_init_def bus_device_add_def bus_access_device_def dm_hit_def bus_cell_def)
  from bus_load_buf_stores [OF _ _ this, of no_devices] show ?thesis
    by (auto simp: less_Suc_eq all_conj_distrib)
qed

text \<open>
  C35. Loading a file reports success exactly when the file opens and fits above the load
  address; a file that is too long is still stored up to the end of the bus.
\<close>

theorem bus_load_file_result:
  "bus_load_file H b addr file =
     (case file of
        None \<Rightarrow> (False, b)
      | Some data \<Rightarrow>
          (unat addr + length data \<le> RK65C02_BUS_SIZE,
           bus_load_buf_loop H b addr (take (RK65C02_BUS_SIZE - unat addr) data)))"
  using u16_bound [of addr]
  by (simp add: bus_load_file_def bus_load_file_loop_eq unsigned_ucast_eq take_bit_word_eq_self
      split: option.splits)

end
