(* ===== verification/Isa.thy ===== *)
theory Isa
  imports Prelude
begin

text \<open>
  Instruction encoding: the types of \<open>instruction.h\<close>, the 256-row opcode table that the build
  generates from \<open>65c02isa.csv\<close> (\<open>65c02isa.awk\<close> numbers the rows from 0), decoding,
  and the search by mnemonic and addressing mode.
\<close>

section \<open>Types\<close>

datatype addressing =
    IMPLIED | IMMEDIATE | ZP | ZPX | ZPY | IZP | IZPX | IZPY | ZPR | RELATIVE
  | ABSOLUTE | ABSOLUTEX | ABSOLUTEY | IABSOLUTE | IABSOLUTEX | ACCUMULATOR

record instruction =
  opcode :: u8
  op1 :: u8
  op2 :: u8

text \<open>
  The \<open>emul\<close> function pointers. The four families \<open>emul_bbr0\<close>..\<open>7\<close>, \<open>emul_bbs0\<close>..\<open>7\<close>,
  \<open>emul_rmb0\<close>..\<open>7\<close> and \<open>emul_smb0\<close>..\<open>7\<close> carry their bit number.
\<close>

datatype (plugins only: code) emul_fn =
    EMUL_ADC | EMUL_AND | EMUL_ASL | EMUL_BBR nat | EMUL_BBS nat | EMUL_BIT | EMUL_BCC
  | EMUL_BCS | EMUL_BEQ | EMUL_BMI | EMUL_BNE | EMUL_BPL | EMUL_BRA | EMUL_BRK | EMUL_BVC
  | EMUL_BVS | EMUL_CLC | EMUL_CLD | EMUL_CLI | EMUL_CLV | EMUL_CMP | EMUL_CPX | EMUL_CPY
  | EMUL_DEC | EMUL_DEX | EMUL_DEY | EMUL_EOR | EMUL_INC | EMUL_INX | EMUL_INY | EMUL_JMP
  | EMUL_JSR | EMUL_LDA | EMUL_LDX | EMUL_LDY | EMUL_LSR | EMUL_NOP | EMUL_ORA | EMUL_PHA
  | EMUL_PHP | EMUL_PHX | EMUL_PHY | EMUL_PLA | EMUL_PLP | EMUL_PLX | EMUL_PLY | EMUL_RTI
  | EMUL_RTS | EMUL_RMB nat | EMUL_ROL | EMUL_ROR | EMUL_SBC | EMUL_SED | EMUL_SEC | EMUL_SEI
  | EMUL_SMB nat | EMUL_STP | EMUL_STA | EMUL_STX | EMUL_STY | EMUL_STZ | EMUL_TAX | EMUL_TAY
  | EMUL_TRB | EMUL_TSB | EMUL_TSX | EMUL_TXA | EMUL_TXS | EMUL_TYA | EMUL_WAI | EMUL_INVALID

record instrdef =
  id_opcode :: u8
  mnemonic :: string
  mode :: addressing
  isize :: u8
  emul :: "emul_fn option"
  modify_pc :: bool

section \<open>The opcode table\<close>

definition row :: "u8 \<Rightarrow> string \<Rightarrow> addressing \<Rightarrow> u8 \<Rightarrow> emul_fn \<Rightarrow> bool \<Rightarrow> instrdef" where
  "row opc mn md sz em mp =
     \<lparr>id_opcode = opc, mnemonic = mn, mode = md, isize = sz, emul = Some em, modify_pc = mp\<rparr>"

definition instrs :: "instrdef list" where
  "instrs = [
    row 0x00 ''brk'' IMPLIED 2 EMUL_BRK True,
    row 0x01 ''ora'' IZPX 2 EMUL_ORA False,
    row 0x02 ''invalid'' IMMEDIATE 2 EMUL_INVALID False,
    row 0x03 ''invalid'' IMPLIED 1 EMUL_INVALID False,
    row 0x04 ''tsb'' ZP 2 EMUL_TSB False,
    row 0x05 ''ora'' ZP 2 EMUL_ORA False,
    row 0x06 ''asl'' ZP 2 EMUL_ASL False,
    row 0x07 ''rmb0'' ZP 2 (EMUL_RMB 0) False,
    row 0x08 ''php'' IMPLIED 1 EMUL_PHP False,
    row 0x09 ''ora'' IMMEDIATE 2 EMUL_ORA False,
    row 0x0A ''asl'' ACCUMULATOR 1 EMUL_ASL False,
    row 0x0B ''invalid'' IMPLIED 1 EMUL_INVALID False,
    row 0x0C ''tsb'' ABSOLUTE 3 EMUL_TSB False,
    row 0x0D ''ora'' ABSOLUTE 3 EMUL_ORA False,
    row 0x0E ''asl'' ABSOLUTE 3 EMUL_ASL False,
    row 0x0F ''bbr0'' ZPR 3 (EMUL_BBR 0) True,
    row 0x10 ''bpl'' RELATIVE 2 EMUL_BPL True,
    row 0x11 ''ora'' IZPY 2 EMUL_ORA False,
    row 0x12 ''ora'' IZP 2 EMUL_ORA False,
    row 0x13 ''invalid'' IMPLIED 1 EMUL_INVALID False,
    row 0x14 ''trb'' ZP 2 EMUL_TRB False,
    row 0x15 ''ora'' ZPX 2 EMUL_ORA False,
    row 0x16 ''asl'' ZPX 2 EMUL_ASL False,
    row 0x17 ''rmb1'' ZP 2 (EMUL_RMB 1) False,
    row 0x18 ''clc'' IMPLIED 1 EMUL_CLC False,
    row 0x19 ''ora'' ABSOLUTEY 3 EMUL_ORA False,
    row 0x1A ''inc'' ACCUMULATOR 1 EMUL_INC False,
    row 0x1B ''invalid'' IMPLIED 1 EMUL_INVALID False,
    row 0x1C ''trb'' ABSOLUTE 3 EMUL_TRB False,
    row 0x1D ''ora'' ABSOLUTEX 3 EMUL_ORA False,
    row 0x1E ''asl'' ABSOLUTEX 3 EMUL_ASL False,
    row 0x1F ''bbr1'' ZPR 3 (EMUL_BBR 1) True,
    row 0x20 ''jsr'' ABSOLUTE 3 EMUL_JSR True,
    row 0x21 ''and'' IZPX 2 EMUL_AND False,
    row 0x22 ''invalid'' IMMEDIATE 2 EMUL_INVALID False,
    row 0x23 ''invalid'' IMPLIED 1 EMUL_INVALID False,
    row 0x24 ''bit'' ZP 2 EMUL_BIT False,
    row 0x25 ''and'' ZP 2 EMUL_AND False,
    row 0x26 ''rol'' ZP 2 EMUL_ROL False,
    row 0x27 ''rmb2'' ZP 2 (EMUL_RMB 2) False,
    row 0x28 ''plp'' IMPLIED 1 EMUL_PLP False,
    row 0x29 ''and'' IMMEDIATE 2 EMUL_AND False,
    row 0x2A ''rol'' ACCUMULATOR 1 EMUL_ROL False,
    row 0x2B ''invalid'' IMPLIED 1 EMUL_INVALID False,
    row 0x2C ''bit'' ABSOLUTE 3 EMUL_BIT False,
    row 0x2D ''and'' ABSOLUTE 3 EMUL_AND False,
    row 0x2E ''rol'' ABSOLUTE 3 EMUL_ROL False,
    row 0x2F ''bbr2'' ZPR 3 (EMUL_BBR 2) True,
    row 0x30 ''bmi'' RELATIVE 2 EMUL_BMI True,
    row 0x31 ''and'' IZPY 2 EMUL_AND False,
    row 0x32 ''and'' IZP 2 EMUL_AND False,
    row 0x33 ''invalid'' IMPLIED 1 EMUL_INVALID False,
    row 0x34 ''bit'' ZPX 2 EMUL_BIT False,
    row 0x35 ''and'' ZPX 2 EMUL_AND False,
    row 0x36 ''rol'' ZPX 2 EMUL_ROL False,
    row 0x37 ''rmb3'' ZP 2 (EMUL_RMB 3) False,
    row 0x38 ''sec'' IMPLIED 1 EMUL_SEC False,
    row 0x39 ''and'' ABSOLUTEY 3 EMUL_AND False,
    row 0x3A ''dec'' ACCUMULATOR 1 EMUL_DEC False,
    row 0x3B ''invalid'' IMPLIED 1 EMUL_INVALID False,
    row 0x3C ''bit'' ABSOLUTEX 3 EMUL_BIT False,
    row 0x3D ''and'' ABSOLUTEX 3 EMUL_AND False,
    row 0x3E ''rol'' ABSOLUTEX 3 EMUL_ROL False,
    row 0x3F ''bbr3'' ZPR 3 (EMUL_BBR 3) True,
    row 0x40 ''rti'' IMPLIED 1 EMUL_RTI True,
    row 0x41 ''eor'' IZPX 2 EMUL_EOR False,
    row 0x42 ''invalid'' IMMEDIATE 2 EMUL_INVALID False,
    row 0x43 ''invalid'' IMPLIED 1 EMUL_INVALID False,
    row 0x44 ''invalid'' ZP 2 EMUL_INVALID False,
    row 0x45 ''eor'' ZP 2 EMUL_EOR False,
    row 0x46 ''lsr'' ZP 2 EMUL_LSR False,
    row 0x47 ''rmb4'' ZP 2 (EMUL_RMB 4) False,
    row 0x48 ''pha'' IMPLIED 1 EMUL_PHA False,
    row 0x49 ''eor'' IMMEDIATE 2 EMUL_EOR False,
    row 0x4A ''lsr'' ACCUMULATOR 1 EMUL_LSR False,
    row 0x4B ''invalid'' IMPLIED 1 EMUL_INVALID False,
    row 0x4C ''jmp'' ABSOLUTE 3 EMUL_JMP True,
    row 0x4D ''eor'' ABSOLUTE 3 EMUL_EOR False,
    row 0x4E ''lsr'' ABSOLUTE 3 EMUL_LSR False,
    row 0x4F ''bbr4'' ZPR 3 (EMUL_BBR 4) True,
    row 0x50 ''bvc'' RELATIVE 2 EMUL_BVC True,
    row 0x51 ''eor'' IZPY 2 EMUL_EOR False,
    row 0x52 ''eor'' IZP 2 EMUL_EOR False,
    row 0x53 ''invalid'' IMPLIED 1 EMUL_INVALID False,
    row 0x54 ''invalid'' ZPX 2 EMUL_INVALID False,
    row 0x55 ''eor'' ZPX 2 EMUL_EOR False,
    row 0x56 ''lsr'' ZPX 2 EMUL_LSR False,
    row 0x57 ''rmb5'' ZP 2 (EMUL_RMB 5) False,
    row 0x58 ''cli'' IMPLIED 1 EMUL_CLI False,
    row 0x59 ''eor'' ABSOLUTEY 3 EMUL_EOR False,
    row 0x5A ''phy'' IMPLIED 1 EMUL_PHY False,
    row 0x5B ''invalid'' IMPLIED 1 EMUL_INVALID False,
    row 0x5C ''invalid'' ABSOLUTE 3 EMUL_INVALID False,
    row 0x5D ''eor'' ABSOLUTEX 3 EMUL_EOR False,
    row 0x5E ''lsr'' ABSOLUTEX 3 EMUL_LSR False,
    row 0x5F ''bbr5'' ZPR 3 (EMUL_BBR 5) True,
    row 0x60 ''rts'' IMPLIED 1 EMUL_RTS False,
    row 0x61 ''adc'' IZPX 2 EMUL_ADC False,
    row 0x62 ''invalid'' IMMEDIATE 2 EMUL_INVALID False,
    row 0x63 ''invalid'' IMPLIED 1 EMUL_INVALID False,
    row 0x64 ''stz'' ZP 2 EMUL_STZ False,
    row 0x65 ''adc'' ZP 2 EMUL_ADC False,
    row 0x66 ''ror'' ZP 2 EMUL_ROR False,
    row 0x67 ''rmb6'' ZP 2 (EMUL_RMB 6) False,
    row 0x68 ''pla'' IMPLIED 1 EMUL_PLA False,
    row 0x69 ''adc'' IMMEDIATE 2 EMUL_ADC False,
    row 0x6A ''ror'' ACCUMULATOR 1 EMUL_ROR False,
    row 0x6B ''invalid'' IMPLIED 1 EMUL_INVALID False,
    row 0x6C ''jmp'' IABSOLUTE 3 EMUL_JMP True,
    row 0x6D ''adc'' ABSOLUTE 3 EMUL_ADC False,
    row 0x6E ''ror'' ABSOLUTE 3 EMUL_ROR False,
    row 0x6F ''bbr6'' ZPR 3 (EMUL_BBR 6) True,
    row 0x70 ''bvs'' RELATIVE 2 EMUL_BVS True,
    row 0x71 ''adc'' IZPY 2 EMUL_ADC False,
    row 0x72 ''adc'' IZP 2 EMUL_ADC False,
    row 0x73 ''invalid'' IMPLIED 1 EMUL_INVALID False,
    row 0x74 ''stz'' ZPX 2 EMUL_STZ False,
    row 0x75 ''adc'' ZPX 2 EMUL_ADC False,
    row 0x76 ''ror'' ZPX 2 EMUL_ROR False,
    row 0x77 ''rmb7'' ZP 2 (EMUL_RMB 7) False,
    row 0x78 ''sei'' IMPLIED 1 EMUL_SEI False,
    row 0x79 ''adc'' ABSOLUTEY 3 EMUL_ADC False,
    row 0x7A ''ply'' IMPLIED 1 EMUL_PLY False,
    row 0x7B ''invalid'' IMPLIED 1 EMUL_INVALID False,
    row 0x7C ''jmp'' IABSOLUTEX 3 EMUL_JMP True,
    row 0x7D ''adc'' ABSOLUTEX 3 EMUL_ADC False,
    row 0x7E ''ror'' ABSOLUTEX 3 EMUL_ROR False,
    row 0x7F ''bbr7'' ZPR 3 (EMUL_BBR 7) True,
    row 0x80 ''bra'' RELATIVE 2 EMUL_BRA True,
    row 0x81 ''sta'' IZPX 2 EMUL_STA False,
    row 0x82 ''invalid'' IMMEDIATE 2 EMUL_INVALID False,
    row 0x83 ''invalid'' IMPLIED 1 EMUL_INVALID False,
    row 0x84 ''sty'' ZP 2 EMUL_STY False,
    row 0x85 ''sta'' ZP 2 EMUL_STA False,
    row 0x86 ''stx'' ZP 2 EMUL_STX False,
    row 0x87 ''smb0'' ZP 2 (EMUL_SMB 0) False,
    row 0x88 ''dey'' IMPLIED 1 EMUL_DEY False,
    row 0x89 ''bit'' IMMEDIATE 2 EMUL_BIT False,
    row 0x8A ''txa'' IMPLIED 1 EMUL_TXA False,
    row 0x8B ''invalid'' IMPLIED 1 EMUL_INVALID False,
    row 0x8C ''sty'' ABSOLUTE 3 EMUL_STY False,
    row 0x8D ''sta'' ABSOLUTE 3 EMUL_STA False,
    row 0x8E ''stx'' ABSOLUTE 3 EMUL_STX False,
    row 0x8F ''bbs0'' ZPR 3 (EMUL_BBS 0) True,
    row 0x90 ''bcc'' RELATIVE 2 EMUL_BCC True,
    row 0x91 ''sta'' IZPY 2 EMUL_STA False,
    row 0x92 ''sta'' IZP 2 EMUL_STA False,
    row 0x93 ''invalid'' IMPLIED 1 EMUL_INVALID False,
    row 0x94 ''sty'' ZPX 2 EMUL_STY False,
    row 0x95 ''sta'' ZPX 2 EMUL_STA False,
    row 0x96 ''stx'' ZPY 2 EMUL_STX False,
    row 0x97 ''smb1'' ZP 2 (EMUL_SMB 1) False,
    row 0x98 ''tya'' IMPLIED 1 EMUL_TYA False,
    row 0x99 ''sta'' ABSOLUTEY 3 EMUL_STA False,
    row 0x9A ''txs'' IMPLIED 1 EMUL_TXS False,
    row 0x9B ''invalid'' IMPLIED 1 EMUL_INVALID False,
    row 0x9C ''stz'' ABSOLUTE 3 EMUL_STZ False,
    row 0x9D ''sta'' ABSOLUTEX 3 EMUL_STA False,
    row 0x9E ''stz'' ABSOLUTEX 3 EMUL_STZ False,
    row 0x9F ''bbs1'' ZPR 3 (EMUL_BBS 1) True,
    row 0xA0 ''ldy'' IMMEDIATE 2 EMUL_LDY False,
    row 0xA1 ''lda'' IZPX 2 EMUL_LDA False,
    row 0xA2 ''ldx'' IMMEDIATE 2 EMUL_LDX False,
    row 0xA3 ''invalid'' IMPLIED 1 EMUL_INVALID False,
    row 0xA4 ''ldy'' ZP 2 EMUL_LDY False,
    row 0xA5 ''lda'' ZP 2 EMUL_LDA False,
    row 0xA6 ''ldx'' ZP 2 EMUL_LDX False,
    row 0xA7 ''smb2'' ZP 2 (EMUL_SMB 2) False,
    row 0xA8 ''tay'' IMPLIED 1 EMUL_TAY False,
    row 0xA9 ''lda'' IMMEDIATE 2 EMUL_LDA False,
    row 0xAA ''tax'' IMPLIED 1 EMUL_TAX False,
    row 0xAB ''invalid'' IMPLIED 1 EMUL_INVALID False,
    row 0xAC ''ldy'' ABSOLUTE 3 EMUL_LDY False,
    row 0xAD ''lda'' ABSOLUTE 3 EMUL_LDA False,
    row 0xAE ''ldx'' ABSOLUTE 3 EMUL_LDX False,
    row 0xAF ''bbs2'' ZPR 3 (EMUL_BBS 2) True,
    row 0xB0 ''bcs'' RELATIVE 2 EMUL_BCS True,
    row 0xB1 ''lda'' IZPY 2 EMUL_LDA False,
    row 0xB2 ''lda'' IZP 2 EMUL_LDA False,
    row 0xB3 ''invalid'' IMPLIED 1 EMUL_INVALID False,
    row 0xB4 ''ldy'' ZPX 2 EMUL_LDY False,
    row 0xB5 ''lda'' ZPX 2 EMUL_LDA False,
    row 0xB6 ''ldx'' ZPY 2 EMUL_LDX False,
    row 0xB7 ''smb3'' ZP 2 (EMUL_SMB 3) False,
    row 0xB8 ''clv'' IMPLIED 1 EMUL_CLV False,
    row 0xB9 ''lda'' ABSOLUTEY 3 EMUL_LDA False,
    row 0xBA ''tsx'' IMPLIED 1 EMUL_TSX False,
    row 0xBB ''invalid'' IMPLIED 1 EMUL_INVALID False,
    row 0xBC ''ldy'' ABSOLUTEX 3 EMUL_LDY False,
    row 0xBD ''lda'' ABSOLUTEX 3 EMUL_LDA False,
    row 0xBE ''ldx'' ABSOLUTEY 3 EMUL_LDX False,
    row 0xBF ''bbs3'' ZPR 3 (EMUL_BBS 3) True,
    row 0xC0 ''cpy'' IMMEDIATE 2 EMUL_CPY False,
    row 0xC1 ''cmp'' IZPX 2 EMUL_CMP False,
    row 0xC2 ''invalid'' IMMEDIATE 2 EMUL_INVALID False,
    row 0xC3 ''invalid'' IMPLIED 1 EMUL_INVALID False,
    row 0xC4 ''cpy'' ZP 2 EMUL_CPY False,
    row 0xC5 ''cmp'' ZP 2 EMUL_CMP False,
    row 0xC6 ''dec'' ZP 2 EMUL_DEC False,
    row 0xC7 ''smb4'' ZP 2 (EMUL_SMB 4) False,
    row 0xC8 ''iny'' IMPLIED 1 EMUL_INY False,
    row 0xC9 ''cmp'' IMMEDIATE 2 EMUL_CMP False,
    row 0xCA ''dex'' IMPLIED 1 EMUL_DEX False,
    row 0xCB ''wai'' IMPLIED 1 EMUL_WAI False,
    row 0xCC ''cpy'' ABSOLUTE 3 EMUL_CPY False,
    row 0xCD ''cmp'' ABSOLUTE 3 EMUL_CMP False,
    row 0xCE ''dec'' ABSOLUTE 3 EMUL_DEC False,
    row 0xCF ''bbs4'' ZPR 3 (EMUL_BBS 4) True,
    row 0xD0 ''bne'' RELATIVE 2 EMUL_BNE True,
    row 0xD1 ''cmp'' IZPY 2 EMUL_CMP False,
    row 0xD2 ''cmp'' IZP 2 EMUL_CMP False,
    row 0xD3 ''invalid'' IMPLIED 1 EMUL_INVALID False,
    row 0xD4 ''invalid'' ZPX 2 EMUL_INVALID False,
    row 0xD5 ''cmp'' ZPX 2 EMUL_CMP False,
    row 0xD6 ''dec'' ZPX 2 EMUL_DEC False,
    row 0xD7 ''smb5'' ZP 2 (EMUL_SMB 5) False,
    row 0xD8 ''cld'' IMPLIED 1 EMUL_CLD False,
    row 0xD9 ''cmp'' ABSOLUTEY 3 EMUL_CMP False,
    row 0xDA ''phx'' IMPLIED 1 EMUL_PHX False,
    row 0xDB ''stp'' IMPLIED 1 EMUL_STP False,
    row 0xDC ''invalid'' ABSOLUTE 3 EMUL_INVALID False,
    row 0xDD ''cmp'' ABSOLUTEX 3 EMUL_CMP False,
    row 0xDE ''dec'' ABSOLUTEX 3 EMUL_DEC False,
    row 0xDF ''bbs5'' ZPR 3 (EMUL_BBS 5) True,
    row 0xE0 ''cpx'' IMMEDIATE 2 EMUL_CPX False,
    row 0xE1 ''sbc'' IZPX 2 EMUL_SBC False,
    row 0xE2 ''invalid'' IMMEDIATE 2 EMUL_INVALID False,
    row 0xE3 ''invalid'' IMPLIED 1 EMUL_INVALID False,
    row 0xE4 ''cpx'' ZP 2 EMUL_CPX False,
    row 0xE5 ''sbc'' ZP 2 EMUL_SBC False,
    row 0xE6 ''inc'' ZP 2 EMUL_INC False,
    row 0xE7 ''smb6'' ZP 2 (EMUL_SMB 6) False,
    row 0xE8 ''inx'' IMPLIED 1 EMUL_INX False,
    row 0xE9 ''sbc'' IMMEDIATE 2 EMUL_SBC False,
    row 0xEA ''nop'' IMPLIED 1 EMUL_NOP False,
    row 0xEB ''invalid'' IMPLIED 1 EMUL_INVALID False,
    row 0xEC ''cpx'' ABSOLUTE 3 EMUL_CPX False,
    row 0xED ''sbc'' ABSOLUTE 3 EMUL_SBC False,
    row 0xEE ''inc'' ABSOLUTE 3 EMUL_INC False,
    row 0xEF ''bbs6'' ZPR 3 (EMUL_BBS 6) True,
    row 0xF0 ''beq'' RELATIVE 2 EMUL_BEQ True,
    row 0xF1 ''sbc'' IZPY 2 EMUL_SBC False,
    row 0xF2 ''sbc'' IZP 2 EMUL_SBC False,
    row 0xF3 ''invalid'' IMPLIED 1 EMUL_INVALID False,
    row 0xF4 ''invalid'' ZPX 2 EMUL_INVALID False,
    row 0xF5 ''sbc'' ZPX 2 EMUL_SBC False,
    row 0xF6 ''inc'' ZPX 2 EMUL_INC False,
    row 0xF7 ''smb7'' ZP 2 (EMUL_SMB 7) False,
    row 0xF8 ''sed'' IMPLIED 1 EMUL_SED False,
    row 0xF9 ''sbc'' ABSOLUTEY 3 EMUL_SBC False,
    row 0xFA ''plx'' IMPLIED 1 EMUL_PLX False,
    row 0xFB ''invalid'' IMPLIED 1 EMUL_INVALID False,
    row 0xFC ''invalid'' ABSOLUTE 3 EMUL_INVALID False,
    row 0xFD ''sbc'' ABSOLUTEX 3 EMUL_SBC False,
    row 0xFE ''inc'' ABSOLUTEX 3 EMUL_INC False,
    row 0xFF ''bbs7'' ZPR 3 (EMUL_BBS 7) True]"

definition instruction_decode :: "u8 \<Rightarrow> instrdef" where
  "instruction_decode opc = instrs ! unat opc"

definition instruction_modify_pc :: "instrdef \<Rightarrow> bool" where
  "instruction_modify_pc idf = modify_pc idf"

text \<open>
  \<open>instruction_opcode_by_mnemonic\<close>: the first row, in opcode order, with the given mnemonic
  and mode. The code also leaves the last row it looked at in \<open>*id\<close>.
\<close>

fun opcode_search :: "string \<Rightarrow> addressing \<Rightarrow> nat \<Rightarrow> instrdef list \<Rightarrow> (u8 \<times> instrdef) option" where
  "opcode_search mn md ix [] = None"
| "opcode_search mn md ix (idf # ids) =
     (if mn = mnemonic idf \<and> mode idf = md then Some (of_nat ix, idf)
      else opcode_search mn md (ix + 1) ids)"

definition instruction_opcode_by_mnemonic :: "string \<Rightarrow> addressing \<Rightarrow> (u8 \<times> instrdef) option" where
  "instruction_opcode_by_mnemonic mn md = opcode_search mn md 0 instrs"

section \<open>Facts about the table\<close>

lemma length_instrs: "length instrs = 256"
  by (simp add: instrs_def)

lemma instruction_decode_in: "instruction_decode opc \<in> set instrs"
  unfolding instruction_decode_def by (rule nth_mem) (simp add: length_instrs u8_bound)

lemma decode_all:
  assumes "list_all p instrs"
  shows "p (instruction_decode opc)"
  using assms instruction_decode_in by (auto simp: list_all_iff)

lemma isize_cases: "isize (instruction_decode opc) \<in> {1, 2, 3}"
proof (rule decode_all [of "\<lambda>r. isize r \<in> {1, 2, 3}"])
  show "list_all (\<lambda>r. isize r \<in> {1, 2, 3}) instrs"
    by (simp add: instrs_def row_def)
qed

end
