(* ===== verification/EmuState.thy ===== *)
theory EmuState
  imports Bus Isa
begin

text \<open>
  The state of an emulator instance: the types of \<open>rk65c02.h\<close>, the bookkeeping structures
  of \<open>jit.c\<close> that it points to, and the record of host-supplied code that the library calls
  back. Callback fields hold function addresses; what the functions do is given by \<open>host\<close>.
\<close>

section \<open>Enumerations and small structs of rk65c02.h\<close>

datatype emu_state = STOPPED | RUNNING | STEPPING

datatype emu_stop_reason = STP | WAI | BREAKPOINT | WATCHPOINT | STEPPED | HOST | EMUERROR

datatype mmu_access = MMU_FETCH | MMU_READ | MMU_WRITE

abbreviation MMU_PERM_R :: u8 where "MMU_PERM_R \<equiv> 0x01"
abbreviation MMU_PERM_W :: u8 where "MMU_PERM_W \<equiv> 0x02"
abbreviation MMU_PERM_X :: u8 where "MMU_PERM_X \<equiv> 0x04"

record mmu_result =
  res_ok :: bool
  res_paddr :: u32
  res_perms :: u8
  res_fault_code :: u16
  res_no_fill_tlb :: bool

record tlb_entry =
  te_valid :: bool
  te_vpage :: u8
  te_ppage_base :: u32
  te_perms :: u8
  te_epoch :: u32

record reg_state =
  rA :: u8
  rX :: u8
  rY :: u8
  rPC :: u16
  rSP :: u8
  rP :: u8

abbreviation P_CARRY :: u8 where "P_CARRY \<equiv> 0x01"
abbreviation P_ZERO :: u8 where "P_ZERO \<equiv> 0x02"
abbreviation P_IRQ_DISABLE :: u8 where "P_IRQ_DISABLE \<equiv> 0x04"
abbreviation P_DECIMAL :: u8 where "P_DECIMAL \<equiv> 0x08"
abbreviation P_BREAK :: u8 where "P_BREAK \<equiv> 0x10"
abbreviation P_UNDEFINED :: u8 where "P_UNDEFINED \<equiv> 0x20"
abbreviation P_SIGN_OVERFLOW :: u8 where "P_SIGN_OVERFLOW \<equiv> 0x40"
abbreviation P_NEGATIVE :: u8 where "P_NEGATIVE \<equiv> 0x80"

abbreviation STACK_START :: u16 where "STACK_START \<equiv> 0x0100"
abbreviation STACK_END :: u16 where "STACK_END \<equiv> 0x01FF"
abbreviation VECTOR_IRQ :: u16 where "VECTOR_IRQ \<equiv> 0xFFFE"

record trace_entry =
  tr_address :: u16
  tr_opcode :: u8
  tr_op1 :: u8
  tr_op2 :: u8
  tr_regs :: reg_state

section \<open>JIT bookkeeping structs of jit.c\<close>

abbreviation JIT_BLOCK_MAX_INSNS :: nat where "JIT_BLOCK_MAX_INSNS \<equiv> 64"
abbreviation JIT_MAX_ACTIVE_BLOCKS :: nat where "JIT_MAX_ACTIVE_BLOCKS \<equiv> 1024"
abbreviation JIT_MAX_INVALIDATIONS_PER_RUN :: u64 where "JIT_MAX_INVALIDATIONS_PER_RUN \<equiv> 128"
abbreviation JIT_PAGE_INVALIDATION_THRESHOLD :: u16 where "JIT_PAGE_INVALIDATION_THRESHOLD \<equiv> 4"
abbreviation JIT_LOOP_BUDGET :: u32 where "JIT_LOOP_BUDGET \<equiv> 256"
abbreviation JIT_WRITE_EVENT_SLOTS :: nat where "JIT_WRITE_EVENT_SLOTS \<equiv> 4"
abbreviation JIT_MAGIC :: u32 where "JIT_MAGIC \<equiv> 0x4a495431"

record jit_block_insn =
  bi_i :: instruction
  bi_id :: instrdef

text \<open>
  The native function pointer \<open>fn\<close> of a block is represented by the decoded instructions it
  was generated from; \<open>None\<close> is \<open>NULL\<close>.
\<close>

record jit_block =
  start_pc :: u16
  end_pc_exclusive :: u16
  mmu_phys_page_valid :: bool
  mmu_phys_page :: u8
  mmu_phys_byte_cov :: bool
  mmu_phys_start :: u16
  num_insns :: u8
  fn :: "jit_block_insn list option"
  lightning_state :: bool

record jit_stats =
  write_events :: u64
  blocks_invalidated :: u64
  blocks_compiled :: u64
  blocks_executed :: u64
  pages_demoted :: u64
  run_jit_disables :: u64
  insns_executed :: u64

record rk65c02_jit =
  magic :: u32
  active_blocks :: nat
  needs_flush :: bool
  pending_writes :: nat
  pending_write_overflow :: bool
  pending_write_addr :: "nat \<Rightarrow> u16"
  pending_write_phys_valid :: "nat \<Rightarrow> bool"
  pending_write_phys_addr :: "nat \<Rightarrow> u16"
  invalidation_events_this_run :: u64
  stats :: jit_stats
  compiled_page_refcnt :: "u8 \<Rightarrow> u16"
  compiled_phys_page_refcnt :: "u8 \<Rightarrow> u16"
  covered_phys_addr_refcnt :: "u16 \<Rightarrow> u16"
  compiled_phys_refs_total :: u32
  compiled_code_page_refcnt :: "u8 \<Rightarrow> u16"
  covered_addr_refcnt :: "u16 \<Rightarrow> u16"
  page_invalidation_events :: "u8 \<Rightarrow> u16"
  mutable_code_page :: "u8 \<Rightarrow> bool"
  blocks :: "u16 \<Rightarrow> jit_block option"

section \<open>The emulator\<close>

text \<open>
  The memory accessor pointers \<open>mem_read_1_fn\<close> and \<open>mem_write_1_fn\<close> only ever point to
  the direct or to the MMU version of the accessor.
\<close>

datatype mem_fn = MEM_DIRECT | MEM_MMU

text \<open>
  \<open>struct rk65c02emu\<close>, field by field. The jump buffer \<open>jit_fault_env\<close> has no field: a
  \<open>longjmp\<close> through it is the outcome \<open>Longjmp\<close>. \<open>jit\<close> and \<open>bus\<close> hold what the pointers
  reach, the two linked lists are lists in list order.
\<close>

record 'h emu =
  state :: emu_state
  bus :: "'h bus"
  regs :: reg_state
  stopreason :: emu_stop_reason
  mmu_last_fault_addr :: u16
  mmu_last_fault_access :: mmu_access
  mmu_last_fault_code :: u16
  irq :: bool
  bps_head :: "u16 list"
  runtime_disassembly :: bool
  trace :: bool
  trace_head :: "trace_entry list"
  use_jit :: bool
  jit_loop_budget :: u32
  jit_requested :: bool
  jit :: "rk65c02_jit option"
  in_jit_run :: bool
  stop_requested :: bool
  on_stop :: "fnptr option"
  on_stop_ctx :: ptr
  tick :: "fnptr option"
  tick_ctx :: ptr
  tick_interval :: u32
  tick_countdown :: u32
  idle_wait_enabled :: bool
  idle_wait :: "fnptr option"
  idle_wait_ctx :: ptr
  mmu_enabled :: bool
  mmu_identity_fastpath :: bool
  mmu_identity_active :: bool
  mmu_update_pending :: bool
  mmu_epoch :: u32
  mmu_translate :: "fnptr option"
  mmu_translate_ctx :: ptr
  mmu_fault :: "fnptr option"
  mmu_fault_ctx :: ptr
  mmu_fault_reexec :: bool
  mmu_tlb_enabled :: bool
  mmu_changed_all :: bool
  mmu_changed_vpage :: "u8 \<Rightarrow> bool"
  mmu_tlb_hits :: u64
  mmu_tlb_misses :: u64
  mmu_tlb :: "u8 \<Rightarrow> tlb_entry"
  mem_read_1_fn :: mem_fn
  mem_write_1_fn :: mem_fn

text \<open>
  Code the library calls but does not contain, and values C leaves open: \<open>h_scratch\<close> is what
  a machine register that a call does not preserve holds after it, \<open>h_emit_ok\<close> whether
  \<open>jit_emit\<close> succeeded, \<open>h_uninit\<close> what an uninitialised \<open>instruction_t\<close> holds.
\<close>

record 'h host =
  h_dev :: "'h devhost"
  h_tick :: "fnptr \<Rightarrow> ptr \<Rightarrow> 'h emu \<Rightarrow> 'h emu"
  h_on_stop :: "fnptr \<Rightarrow> ptr \<Rightarrow> emu_stop_reason \<Rightarrow> 'h emu \<Rightarrow> 'h emu"
  h_idle_wait :: "fnptr \<Rightarrow> ptr \<Rightarrow> 'h emu \<Rightarrow> 'h emu"
  h_mmu_translate :: "fnptr \<Rightarrow> ptr \<Rightarrow> u16 \<Rightarrow> mmu_access \<Rightarrow> 'h emu \<Rightarrow> mmu_result \<times> 'h emu"
  h_mmu_fault :: "fnptr \<Rightarrow> ptr \<Rightarrow> u16 \<Rightarrow> mmu_access \<Rightarrow> u16 \<Rightarrow> 'h emu \<Rightarrow> 'h emu"
  h_scratch :: "nat \<Rightarrow> 'h emu \<Rightarrow> u64"
  h_emit_ok :: "jit_block_insn list \<Rightarrow> bool"
  h_uninit :: instruction

type_synonym ('h, 'a) run = "('h emu, 'a) outcome"

end
