(* ===== verification/Mmu.thy ===== *)
theory Mmu
  imports EmuState
begin

text \<open>
  Address translation and MMU faults, from \<open>rk65c02.c\<close>: the software TLB in front of the
  host's translate callback, permission and range checks, the stop path shared by faults and
  panics, the MMU versions of the memory accessors, and TLB maintenance.
\<close>

section \<open>Stopping on errors\<close>

definition rk65c02_maybe_call_on_stop :: "'h host \<Rightarrow> 'h emu \<Rightarrow> 'h emu" where
  "rk65c02_maybe_call_on_stop H e =
     (case on_stop e of
        None \<Rightarrow> e
      | Some f \<Rightarrow> h_on_stop H f (on_stop_ctx e) (stopreason e) e)"

definition emu_stop_error :: "'h host \<Rightarrow> 'h emu \<Rightarrow> ('h, unit) run" where
  "emu_stop_error H e =
     (let was_active = (state e = RUNNING \<or> state e = STEPPING);
          e = e\<lparr>state := STOPPED, stopreason := EMUERROR, stop_requested := False\<rparr>
      in if in_jit_run e then Longjmp (e\<lparr>in_jit_run := False\<rparr>)
         else if \<not> was_active then Ret () (rk65c02_maybe_call_on_stop H e)
         else Ret () e)"

definition rk65c02_panic :: "'h host \<Rightarrow> 'h emu \<Rightarrow> ('h, unit) run" where
  "rk65c02_panic H e = emu_stop_error H e"

section \<open>Translation\<close>

abbreviation FAULT_NO_CALLBACK :: u16 where "FAULT_NO_CALLBACK \<equiv> 0xFFFD"
abbreviation FAULT_PERM :: u16 where "FAULT_PERM \<equiv> 0xFFFE"
abbreviation FAULT_RANGE :: u16 where "FAULT_RANGE \<equiv> 0xFFFF"

text \<open>
  \<open>Inl\<close> is the value left in \<open>*fault_code_out\<close> when the function returns false, \<open>Inr\<close> the
  address in \<open>*paddr_out\<close> when it returns true.
\<close>

definition tlb_hit :: "'h emu \<Rightarrow> u8 \<Rightarrow> bool" where
  "tlb_hit e vpage =
     (mmu_tlb_enabled e \<and> te_valid (mmu_tlb e vpage) \<and> te_vpage (mmu_tlb e vpage) = vpage
      \<and> te_epoch (mmu_tlb e vpage) = mmu_epoch e)"

definition rk65c02_mmu_translate_addr ::
  "'h host \<Rightarrow> u16 \<Rightarrow> mmu_access \<Rightarrow> u8 \<Rightarrow> 'h emu \<Rightarrow> (u16 + u32) \<times> 'h emu" where
  "rk65c02_mmu_translate_addr H vaddr access req_perm e =
     (let vpage = hi8 vaddr; te = mmu_tlb e vpage in
      if tlb_hit e vpage then
        (let e = e\<lparr>mmu_tlb_hits := mmu_tlb_hits e + 1\<rparr> in
         if te_perms te AND req_perm \<noteq> req_perm then (Inl FAULT_PERM, e)
         else (Inr (te_ppage_base te OR ucast (vaddr AND 0x00FF)), e))
      else
        (let e = e\<lparr>mmu_tlb_misses := mmu_tlb_misses e + 1\<rparr> in
         case mmu_translate e of
           None \<Rightarrow> (Inl FAULT_NO_CALLBACK, e)
         | Some f \<Rightarrow>
             (let (r, e) = h_mmu_translate H f (mmu_translate_ctx e) vaddr access e in
              if \<not> res_ok r then (Inl (res_fault_code r), e)
              else if res_perms r AND req_perm \<noteq> req_perm then (Inl FAULT_PERM, e)
              else if unat (res_paddr r) \<ge> RK65C02_PHYS_MAX then (Inl FAULT_RANGE, e)
              else if mmu_tlb_enabled e \<and> \<not> res_no_fill_tlb r
                      \<and> res_paddr r AND 0xFF = ucast (vaddr AND 0xFF)
              then (Inr (res_paddr r),
                    e\<lparr>mmu_tlb := (mmu_tlb e)(vpage :=
                        \<lparr>te_valid = True, te_vpage = vpage,
                         te_ppage_base = res_paddr r AND 0xFFFFFF00,
                         te_perms = res_perms r, te_epoch = mmu_epoch e\<rparr>)\<rparr>)
              else (Inr (res_paddr r), e))))"

definition access_perm :: "mmu_access \<Rightarrow> u8" where
  "access_perm a = (case a of MMU_FETCH \<Rightarrow> MMU_PERM_X | MMU_WRITE \<Rightarrow> MMU_PERM_W
                    | MMU_READ \<Rightarrow> MMU_PERM_R)"

definition rk65c02_mmu_translate_cached ::
  "'h host \<Rightarrow> u16 \<Rightarrow> mmu_access \<Rightarrow> 'h emu \<Rightarrow> u32 option \<times> 'h emu" where
  "rk65c02_mmu_translate_cached H vaddr access e =
     (if \<not> mmu_enabled e \<or> mmu_identity_active e then (Some (ucast vaddr), e)
      else case rk65c02_mmu_translate_addr H vaddr access (access_perm access) e of
             (Inl c, e) \<Rightarrow> (None, e)
           | (Inr p, e) \<Rightarrow> (Some p, e))"

section \<open>Faults\<close>

definition rk65c02_mmu_fault ::
  "'h host \<Rightarrow> u16 \<Rightarrow> mmu_access \<Rightarrow> u16 \<Rightarrow> 'h emu \<Rightarrow> ('h, unit) run" where
  "rk65c02_mmu_fault H vaddr access fault_code e =
     (let e = e\<lparr>mmu_last_fault_addr := vaddr, mmu_last_fault_access := access,
                mmu_last_fault_code := fault_code, mmu_fault_reexec := True,
                use_jit := False\<rparr>;
          e = (case mmu_fault e of
                 None \<Rightarrow> e
               | Some f \<Rightarrow> h_mmu_fault H f (mmu_fault_ctx e) vaddr access fault_code e)
      in emu_stop_error H e)"

section \<open>Accessors\<close>

definition rk65c02_mem_read_direct :: "'h host \<Rightarrow> u16 \<Rightarrow> mmu_access \<Rightarrow> 'h emu \<Rightarrow> ('h, u8) run" where
  "rk65c02_mem_read_direct H addr access e =
     (let (v, b) = bus_read_1 (h_dev H) (bus e) addr in Ret v (e\<lparr>bus := b\<rparr>))"

definition rk65c02_mem_write_direct ::
  "'h host \<Rightarrow> u16 \<Rightarrow> u8 \<Rightarrow> mmu_access \<Rightarrow> 'h emu \<Rightarrow> ('h, unit) run" where
  "rk65c02_mem_write_direct H addr val access e =
     Ret () (e\<lparr>bus := bus_write_1 (h_dev H) (bus e) addr val\<rparr>)"

text \<open>The MMU read takes read permission for any access class but a fetch.\<close>

definition rk65c02_mem_read_mmu :: "'h host \<Rightarrow> u16 \<Rightarrow> mmu_access \<Rightarrow> 'h emu \<Rightarrow> ('h, u8) run" where
  "rk65c02_mem_read_mmu H addr access e =
     (let req_perm = (if access = MMU_FETCH then MMU_PERM_X else MMU_PERM_R) in
      case rk65c02_mmu_translate_addr H addr access req_perm e of
        (Inl fault_code, e) \<Rightarrow>
          andthen (rk65c02_mmu_fault H addr access fault_code e) (\<lambda>_ e. Ret 0xFF e)
      | (Inr paddr, e) \<Rightarrow>
          (if unat paddr < RK65C02_BUS_SIZE
           then let (v, b) = bus_read_1 (h_dev H) (bus e) (ucast paddr) in Ret v (e\<lparr>bus := b\<rparr>)
           else let (v, b) = bus_read_1_phys (h_dev H) (bus e) paddr in Ret v (e\<lparr>bus := b\<rparr>)))"

definition rk65c02_mem_write_mmu ::
  "'h host \<Rightarrow> u16 \<Rightarrow> u8 \<Rightarrow> mmu_access \<Rightarrow> 'h emu \<Rightarrow> ('h, unit) run" where
  "rk65c02_mem_write_mmu H addr val access e =
     (case rk65c02_mmu_translate_addr H addr MMU_WRITE MMU_PERM_W e of
        (Inl fault_code, e) \<Rightarrow> rk65c02_mmu_fault H addr MMU_WRITE fault_code e
      | (Inr paddr, e) \<Rightarrow>
          (if unat paddr < RK65C02_BUS_SIZE
           then Ret () (e\<lparr>bus := bus_write_1 (h_dev H) (bus e) (ucast paddr) val\<rparr>)
           else Ret () (e\<lparr>bus := bus_write_1_phys (h_dev H) (bus e) paddr val\<rparr>)))"

definition rk65c02_mmu_refresh_accessors :: "'h emu \<Rightarrow> 'h emu" where
  "rk65c02_mmu_refresh_accessors e =
     (let mmu_active = (mmu_enabled e \<and> \<not> mmu_identity_active e) in
      if mmu_active then e\<lparr>mem_read_1_fn := MEM_MMU, mem_write_1_fn := MEM_MMU\<rparr>
      else e\<lparr>mem_read_1_fn := MEM_DIRECT, mem_write_1_fn := MEM_DIRECT\<rparr>)"

section \<open>TLB maintenance\<close>

definition tlb_zero :: tlb_entry where
  "tlb_zero = \<lparr>te_valid = False, te_vpage = 0, te_ppage_base = 0, te_perms = 0, te_epoch = 0\<rparr>"

definition rk65c02_mmu_tlb_flush :: "'h emu \<Rightarrow> 'h emu" where
  "rk65c02_mmu_tlb_flush e = e\<lparr>mmu_tlb := (\<lambda>_. tlb_zero)\<rparr>"

definition rk65c02_mmu_tlb_flush_vpage :: "u8 \<Rightarrow> 'h emu \<Rightarrow> 'h emu" where
  "rk65c02_mmu_tlb_flush_vpage vpage e =
     e\<lparr>mmu_tlb := (mmu_tlb e)(vpage := (mmu_tlb e vpage)\<lparr>te_valid := False\<rparr>)\<rparr>"

definition rk65c02_mmu_tlb_set :: "bool \<Rightarrow> 'h emu \<Rightarrow> 'h emu" where
  "rk65c02_mmu_tlb_set enabled e =
     (let e = e\<lparr>mmu_tlb_enabled := enabled\<rparr> in
      if \<not> enabled then rk65c02_mmu_tlb_flush e else e)"

end
