(* ===== verification/JitCache.thy ===== *)
theory JitCache
  imports Mmu
begin

text \<open>
  The block cache of \<open>jit.c\<close>: reference counts of the addresses and pages that compiled
  blocks cover, the four invalidation sweeps, the flush, and the self-modifying-code hook
  \<open>rk65c02_jit_note_guest_write\<close> that every guest store reaches. Generating and running
  native code is in theory \<open>JitRun\<close>.
\<close>

section \<open>Creation and lookup\<close>

definition jit_stats_zero :: jit_stats where
  "jit_stats_zero =
     \<lparr>write_events = 0, blocks_invalidated = 0, blocks_compiled = 0, blocks_executed = 0,
      pages_demoted = 0, run_jit_disables = 0, insns_executed = 0\<rparr>"

definition jit_backend_create :: rk65c02_jit where
  "jit_backend_create =
     \<lparr>magic = JIT_MAGIC, active_blocks = 0, needs_flush = False,
      pending_writes = 0, pending_write_overflow = False,
      pending_write_addr = (\<lambda>_. 0), pending_write_phys_valid = (\<lambda>_. False),
      pending_write_phys_addr = (\<lambda>_. 0),
      invalidation_events_this_run = 0, stats = jit_stats_zero,
      compiled_page_refcnt = (\<lambda>_. 0), compiled_phys_page_refcnt = (\<lambda>_. 0),
      covered_phys_addr_refcnt = (\<lambda>_. 0), compiled_phys_refs_total = 0,
      compiled_code_page_refcnt = (\<lambda>_. 0), covered_addr_refcnt = (\<lambda>_. 0),
      page_invalidation_events = (\<lambda>_. 0), mutable_code_page = (\<lambda>_. False),
      blocks = (\<lambda>_. None)\<rparr>"

definition jit_find_block :: "rk65c02_jit \<Rightarrow> u16 \<Rightarrow> jit_block option" where
  "jit_find_block j pc = (if magic j \<noteq> JIT_MAGIC then None else blocks j pc)"

section \<open>Coverage reference counts\<close>

text \<open>One counter step: \<open>+1\<close>, or \<open>-1\<close> clamped at 0, in 16 bits.\<close>

definition refcnt_step :: "bool \<Rightarrow> u16 \<Rightarrow> u16" where
  "refcnt_step add c = (if add then c + 1 else if c = 0 then 0 else c - 1)"

text \<open>
  The \<open>while (addr != b->end_pc_exclusive)\<close> loop over the bytes of a block, wrapping at 64K:
  it marks the pages it sees and steps the counter of every address.
\<close>

function jit_cover_loop ::
  "bool \<Rightarrow> u16 \<Rightarrow> u16 \<Rightarrow> (u8 \<Rightarrow> bool) \<Rightarrow> (u16 \<Rightarrow> u16) \<Rightarrow> (u8 \<Rightarrow> bool) \<times> (u16 \<Rightarrow> u16)" where
  "jit_cover_loop add addr stop seen cnt =
     (if addr = stop then (seen, cnt)
      else jit_cover_loop add (addr + 1) stop
             (seen(hi8 addr := True)) (cnt(addr := refcnt_step add (cnt addr))))"
  by pat_completeness auto
termination
proof (relation "measure (\<lambda>(add, addr, stop, seen, cnt). unat (stop - addr))")
  fix add seen cnt and addr stop :: u16
  assume "addr \<noteq> stop"
  then have "stop - addr \<noteq> 0" by simp
  then have "unat (stop - addr - 1) < unat (stop - addr)"
    by (rule measure_unat)
  then show "((add, addr + 1, stop, seen(hi8 addr := True), cnt(addr := refcnt_step add (cnt addr))),
      add, addr, stop, seen, cnt) \<in> measure (\<lambda>(add, addr, stop, seen, cnt). unat (stop - addr))"
    by (simp add: algebra_simps)
qed simp

declare jit_cover_loop.simps [simp del]

definition jit_block_len :: "jit_block \<Rightarrow> u16" where
  "jit_block_len b = end_pc_exclusive b - start_pc b"

definition jit_phys_covers :: "jit_block \<Rightarrow> u16 \<Rightarrow> bool" where
  "jit_phys_covers b pa =
     (unat (mmu_phys_start b) \<le> unat pa \<and>
      unat pa < unat (mmu_phys_start b) + unat (jit_block_len b))"

definition jit_block_page_refs_update :: "bool \<Rightarrow> jit_block \<Rightarrow> rk65c02_jit \<Rightarrow> rk65c02_jit" where
  "jit_block_page_refs_update add b j =
     (let (seen, cov) =
            (if start_pc b = end_pc_exclusive b
             then (\<lambda>_. True, \<lambda>a. refcnt_step add (covered_addr_refcnt j a))
             else jit_cover_loop add (start_pc b) (end_pc_exclusive b) (\<lambda>_. False)
                    (covered_addr_refcnt j));
          j = j\<lparr>covered_addr_refcnt := cov,
                compiled_page_refcnt :=
                  (\<lambda>p. if seen p then refcnt_step add (compiled_page_refcnt j p)
                       else compiled_page_refcnt j p)\<rparr>;
          j = (if mmu_phys_page_valid b then
                 (let j = (if mmu_phys_byte_cov b
                           then j\<lparr>covered_phys_addr_refcnt :=
                                  (\<lambda>pa. if jit_phys_covers b pa
                                        then refcnt_step add (covered_phys_addr_refcnt j pa)
                                        else covered_phys_addr_refcnt j pa)\<rparr>
                           else j\<lparr>compiled_phys_page_refcnt :=
                                  (compiled_phys_page_refcnt j)(mmu_phys_page b :=
                                    refcnt_step add (compiled_phys_page_refcnt j (mmu_phys_page b)))\<rparr>)
                  in j\<lparr>compiled_phys_refs_total :=
                       (if add then compiled_phys_refs_total j + 1
                        else if compiled_phys_refs_total j > 0 then compiled_phys_refs_total j - 1
                        else compiled_phys_refs_total j)\<rparr>)
               else j)
      in j\<lparr>compiled_code_page_refcnt :=
           (compiled_code_page_refcnt j)(hi8 (start_pc b) :=
             refcnt_step add (compiled_code_page_refcnt j (hi8 (start_pc b))))\<rparr>)"

section \<open>Flush and per-run reset\<close>

definition jit_flush_slot :: "u16 \<Rightarrow> rk65c02_jit \<Rightarrow> rk65c02_jit" where
  "jit_flush_slot i j =
     (case blocks j i of
        None \<Rightarrow> j
      | Some b \<Rightarrow>
          (let b = b\<lparr>lightning_state := False\<rparr>;
               j = (if fn b \<noteq> None then jit_block_page_refs_update False b j else j)
           in j\<lparr>blocks := (blocks j)(i := Some (b\<lparr>fn := None\<rparr>))\<rparr>))"

definition jit_backend_flush :: "rk65c02_jit \<Rightarrow> rk65c02_jit" where
  "jit_backend_flush j =
     (let j = fold (\<lambda>i. jit_flush_slot (of_nat i)) [0..<65536] j in
      j\<lparr>active_blocks := 0, needs_flush := False, pending_writes := 0,
        pending_write_overflow := False,
        compiled_page_refcnt := (\<lambda>_. 0), compiled_phys_page_refcnt := (\<lambda>_. 0),
        covered_phys_addr_refcnt := (\<lambda>_. 0), compiled_phys_refs_total := 0,
        compiled_code_page_refcnt := (\<lambda>_. 0), covered_addr_refcnt := (\<lambda>_. 0),
        page_invalidation_events := (\<lambda>_. 0), mutable_code_page := (\<lambda>_. False)\<rparr>)"

definition jit_run_state_reset :: "rk65c02_jit \<Rightarrow> rk65c02_jit" where
  "jit_run_state_reset j =
     j\<lparr>invalidation_events_this_run := 0, page_invalidation_events := (\<lambda>_. 0),
       mutable_code_page := (\<lambda>_. False)\<rparr>"

section \<open>Invalidation sweeps\<close>

definition jit_block_contains_addr :: "jit_block \<Rightarrow> u16 \<Rightarrow> bool" where
  "jit_block_contains_addr b addr =
     (let start = start_pc b; stop = end_pc_exclusive b in
      if start < stop then start \<le> addr \<and> addr < stop
      else if stop < start then start \<le> addr \<or> addr < stop
      else True)"

definition jit_block_overlaps_page :: "jit_block \<Rightarrow> u8 \<Rightarrow> bool" where
  "jit_block_overlaps_page b page =
     (let start = start_pc b; stop = end_pc_exclusive b;
          page_start = push_bit 8 (ucast page) :: u16;
          page_end = page_start + 0xFF in
      if start = stop then True
      else if start < stop then \<not> (stop \<le> page_start \<or> page_end < start)
      else start \<le> page_end \<or> page_start < stop)"

text \<open>The body that the four sweeps share: discard the native code of the block in slot \<open>i\<close>.\<close>

definition jit_discard_block :: "u16 \<Rightarrow> jit_block \<Rightarrow> rk65c02_jit \<Rightarrow> rk65c02_jit" where
  "jit_discard_block i b j =
     (let b = b\<lparr>lightning_state := False\<rparr>;
          j = jit_block_page_refs_update False b j;
          b = b\<lparr>fn := None\<rparr>
      in j\<lparr>blocks := (blocks j)(i := Some b),
           active_blocks := (if active_blocks j > 0 then active_blocks j - 1 else active_blocks j),
           stats := (stats j)\<lparr>blocks_invalidated := blocks_invalidated (stats j) + 1\<rparr>\<rparr>)"

definition jit_sweep_slot :: "(jit_block \<Rightarrow> bool) \<Rightarrow> u16 \<Rightarrow> rk65c02_jit \<Rightarrow> rk65c02_jit" where
  "jit_sweep_slot p i j =
     (case blocks j i of
        None \<Rightarrow> j
      | Some b \<Rightarrow> (if fn b = None then j else if \<not> p b then j else jit_discard_block i b j))"

definition jit_sweep :: "(jit_block \<Rightarrow> bool) \<Rightarrow> rk65c02_jit \<Rightarrow> rk65c02_jit" where
  "jit_sweep p j = fold (\<lambda>i. jit_sweep_slot p (of_nat i)) [0..<65536] j"

definition jit_invalidate_blocks_for_addr :: "u16 \<Rightarrow> rk65c02_jit \<Rightarrow> rk65c02_jit" where
  "jit_invalidate_blocks_for_addr addr j =
     (if magic j \<noteq> JIT_MAGIC then j
      else jit_sweep (\<lambda>b. jit_block_contains_addr b addr)
             (j\<lparr>invalidation_events_this_run := invalidation_events_this_run j + 1\<rparr>))"

definition jit_invalidate_blocks_for_page :: "u8 \<Rightarrow> rk65c02_jit \<Rightarrow> rk65c02_jit" where
  "jit_invalidate_blocks_for_page page j =
     (if magic j \<noteq> JIT_MAGIC then j else jit_sweep (\<lambda>b. jit_block_overlaps_page b page) j)"

definition jit_invalidate_blocks_for_code_page :: "u8 \<Rightarrow> rk65c02_jit \<Rightarrow> rk65c02_jit" where
  "jit_invalidate_blocks_for_code_page vpage j =
     (if magic j \<noteq> JIT_MAGIC then j
      else if compiled_code_page_refcnt j vpage = 0 then j
      else jit_sweep (\<lambda>b. hi8 (start_pc b) = vpage) j)"

definition jit_phys_match :: "u16 \<Rightarrow> jit_block \<Rightarrow> bool" where
  "jit_phys_match paddr b =
     (if \<not> mmu_phys_page_valid b then False
      else if mmu_phys_byte_cov b
      then \<not> (paddr < mmu_phys_start b \<or> mmu_phys_start b + jit_block_len b \<le> paddr)
      else hi8 paddr = mmu_phys_page b)"

definition jit_invalidate_blocks_for_phys_addr :: "u16 \<Rightarrow> rk65c02_jit \<Rightarrow> rk65c02_jit" where
  "jit_invalidate_blocks_for_phys_addr paddr j =
     (if magic j \<noteq> JIT_MAGIC then j else jit_sweep (jit_phys_match paddr) j)"

section \<open>Self-modifying-code tracking\<close>

definition jit_translate_paddr ::
  "'h host \<Rightarrow> u16 \<Rightarrow> mmu_access \<Rightarrow> 'h emu \<Rightarrow> u16 option \<times> 'h emu" where
  "jit_translate_paddr H vaddr access e =
     (case rk65c02_mmu_translate_cached H vaddr access e of
        (None, e) \<Rightarrow> (None, e)
      | (Some paddr, e) \<Rightarrow>
          (if unat paddr \<ge> RK65C02_BUS_SIZE then (None, e) else (Some (ucast paddr), e)))"

text \<open>
  The adaptive policy both invalidation paths end with: count the event for the page and
  demote the page to interpretation when the count reaches the threshold.
\<close>

definition jit_count_page_event :: "u8 \<Rightarrow> rk65c02_jit \<Rightarrow> rk65c02_jit" where
  "jit_count_page_event page j =
     (let j = j\<lparr>page_invalidation_events := (page_invalidation_events j)(page :=
                  page_invalidation_events j page + 1)\<rparr> in
      if \<not> mutable_code_page j page \<and>
         JIT_PAGE_INVALIDATION_THRESHOLD \<le> page_invalidation_events j page
      then jit_invalidate_blocks_for_page page
             (j\<lparr>mutable_code_page := (mutable_code_page j)(page := True),
                stats := (stats j)\<lparr>pages_demoted := pages_demoted (stats j) + 1\<rparr>\<rparr>)
      else j)"

definition jit_invalidate_write :: "u16 \<Rightarrow> u16 option \<Rightarrow> rk65c02_jit \<Rightarrow> rk65c02_jit" where
  "jit_invalidate_write addr phys j =
     (let j = jit_invalidate_blocks_for_addr addr j;
          j = (case phys of None \<Rightarrow> j | Some paddr \<Rightarrow> jit_invalidate_blocks_for_phys_addr paddr j)
      in jit_count_page_event (hi8 addr) j)"

definition jit_record_pending :: "u16 \<Rightarrow> u16 option \<Rightarrow> rk65c02_jit \<Rightarrow> rk65c02_jit" where
  "jit_record_pending addr phys j =
     (if pending_writes j < JIT_WRITE_EVENT_SLOTS then
        (let n = pending_writes j in
         j\<lparr>pending_write_addr := (pending_write_addr j)(n := addr),
           pending_write_phys_valid := (pending_write_phys_valid j)(n := phys \<noteq> None),
           pending_write_phys_addr := (pending_write_phys_addr j)(n :=
             (case phys of None \<Rightarrow> 0 | Some paddr \<Rightarrow> paddr)),
           pending_writes := n + 1\<rparr>)
      else j\<lparr>pending_write_overflow := True\<rparr>)"

definition rk65c02_jit_note_guest_write :: "'h host \<Rightarrow> u16 \<Rightarrow> 'h emu \<Rightarrow> 'h emu" where
  "rk65c02_jit_note_guest_write H addr e =
     (case jit e of
        None \<Rightarrow> e
      | Some j \<Rightarrow>
          if magic j \<noteq> JIT_MAGIC \<or> active_blocks j = 0 then e
          else
            (let covered_virt = (compiled_page_refcnt j (hi8 addr) \<noteq> 0
                                 \<and> covered_addr_refcnt j addr \<noteq> 0);
                 (tr, e) = (if compiled_phys_refs_total j \<noteq> 0
                            then jit_translate_paddr H addr MMU_WRITE e else (None, e));
                 j = (case jit e of None \<Rightarrow> j | Some j' \<Rightarrow> j');
                 phys = (case tr of
                           None \<Rightarrow> None
                         | Some paddr \<Rightarrow>
                             (if covered_phys_addr_refcnt j paddr \<noteq> 0
                                 \<or> compiled_phys_page_refcnt j (hi8 paddr) \<noteq> 0
                              then Some paddr else None))
             in if \<not> covered_virt \<and> phys = None then e
                else
                  (let j = j\<lparr>stats := (stats j)\<lparr>write_events := write_events (stats j) + 1\<rparr>\<rparr> in
                   if in_jit_run e
                   then e\<lparr>use_jit := False, jit := Some (jit_record_pending addr phys j)\<rparr>
                   else e\<lparr>jit := Some (jit_invalidate_write addr phys j)\<rparr>)))"

section \<open>Host-driven invalidation\<close>

definition jit_invalidate_deferred :: "'h emu \<Rightarrow> rk65c02_jit \<Rightarrow> bool \<times> 'h emu" where
  "jit_invalidate_deferred e j =
     (if \<not> in_jit_run e then (False, e)
      else (True, e\<lparr>jit := Some (j\<lparr>needs_flush := True\<rparr>), use_jit := False\<rparr>))"

definition rk65c02_jit_flush :: "'h emu \<Rightarrow> 'h emu" where
  "rk65c02_jit_flush e =
     (case jit e of
        None \<Rightarrow> e
      | Some j \<Rightarrow>
          (let (deferred, e) = jit_invalidate_deferred e j in
           if deferred then e else e\<lparr>jit := Some (jit_backend_flush j)\<rparr>))"

definition rk65c02_jit_invalidate_all :: "'h emu \<Rightarrow> 'h emu" where
  "rk65c02_jit_invalidate_all e =
     (case jit e of
        None \<Rightarrow> e
      | Some j \<Rightarrow>
          (let (deferred, e) = jit_invalidate_deferred e j in
           if deferred then e else e\<lparr>jit := Some (jit_backend_flush j)\<rparr>))"

definition rk65c02_jit_invalidate_vpage :: "u8 \<Rightarrow> 'h emu \<Rightarrow> 'h emu" where
  "rk65c02_jit_invalidate_vpage vpage e =
     (case jit e of
        None \<Rightarrow> e
      | Some j \<Rightarrow>
          if magic j \<noteq> JIT_MAGIC then e
          else (let (deferred, e) = jit_invalidate_deferred e j in
                if deferred then e
                else e\<lparr>jit := Some (jit_invalidate_blocks_for_page vpage j)\<rparr>))"

definition rk65c02_jit_invalidate_code_vpage :: "u8 \<Rightarrow> 'h emu \<Rightarrow> 'h emu" where
  "rk65c02_jit_invalidate_code_vpage vpage e =
     (case jit e of
        None \<Rightarrow> e
      | Some j \<Rightarrow>
          if magic j \<noteq> JIT_MAGIC then e
          else (let (deferred, e) = jit_invalidate_deferred e j in
                if deferred then e
                else e\<lparr>jit := Some (jit_invalidate_blocks_for_code_page vpage j)\<rparr>))"

section \<open>Enabling and statistics\<close>

definition rk65c02_jit_enable :: "bool \<Rightarrow> 'h emu \<Rightarrow> 'h emu" where
  "rk65c02_jit_enable enable e =
     (if enable then
        (let e = (if jit e = None then e\<lparr>jit := Some jit_backend_create\<rparr> else e)
         in e\<lparr>jit_requested := True, use_jit := True\<rparr>)
      else e\<lparr>jit_requested := False, use_jit := False\<rparr>)"

definition rk65c02_jit_stats_get :: "'h emu \<Rightarrow> bool \<times> jit_stats" where
  "rk65c02_jit_stats_get e =
     (case jit e of
        None \<Rightarrow> (False, jit_stats_zero)
      | Some j \<Rightarrow> if magic j \<noteq> JIT_MAGIC then (False, jit_stats_zero) else (True, stats j))"

definition rk65c02_jit_stats_reset :: "'h emu \<Rightarrow> 'h emu" where
  "rk65c02_jit_stats_reset e =
     (case jit e of
        None \<Rightarrow> e
      | Some j \<Rightarrow> if magic j \<noteq> JIT_MAGIC then e else e\<lparr>jit := Some (j\<lparr>stats := jit_stats_zero\<rparr>)\<rparr>)"

end
