(* ===== verification/Memory.thy ===== *)
theory Memory
  imports JitCache
begin

text \<open>
  The guest's view of memory and the host's MMU interface, from \<open>rk65c02.c\<close>: the three
  memory entry points behind the accessor pointers, MMU configuration, the batched
  notification of mapping changes, and creation of an emulator instance.
\<close>

section \<open>Guest memory accesses\<close>

definition rk65c02_mem_fetch_1 :: "'h host \<Rightarrow> u16 \<Rightarrow> 'h emu \<Rightarrow> ('h, u8) run" where
  "rk65c02_mem_fetch_1 H addr e =
     (case mem_read_1_fn e of
        MEM_DIRECT \<Rightarrow> rk65c02_mem_read_direct H addr MMU_FETCH e
      | MEM_MMU \<Rightarrow> rk65c02_mem_read_mmu H addr MMU_FETCH e)"

definition rk65c02_mem_read_1 :: "'h host \<Rightarrow> u16 \<Rightarrow> 'h emu \<Rightarrow> ('h, u8) run" where
  "rk65c02_mem_read_1 H addr e =
     (case mem_read_1_fn e of
        MEM_DIRECT \<Rightarrow> rk65c02_mem_read_direct H addr MMU_READ e
      | MEM_MMU \<Rightarrow> rk65c02_mem_read_mmu H addr MMU_READ e)"

definition rk65c02_mem_write_1 :: "'h host \<Rightarrow> u16 \<Rightarrow> u8 \<Rightarrow> 'h emu \<Rightarrow> ('h, unit) run" where
  "rk65c02_mem_write_1 H addr val e =
     andthen
       (case mem_write_1_fn e of
          MEM_DIRECT \<Rightarrow> rk65c02_mem_write_direct H addr val MMU_WRITE e
        | MEM_MMU \<Rightarrow> rk65c02_mem_write_mmu H addr val MMU_WRITE e)
       (\<lambda>_ e. if jit e \<noteq> None then Ret () (rk65c02_jit_note_guest_write H addr e) else Ret () e)"

section \<open>MMU configuration\<close>

definition rk65c02_mmu_set ::
  "fnptr option \<Rightarrow> ptr \<Rightarrow> fnptr option \<Rightarrow> ptr \<Rightarrow> bool \<Rightarrow> bool \<Rightarrow> 'h emu \<Rightarrow> bool \<times> 'h emu" where
  "rk65c02_mmu_set translate translate_ctx on_fault fault_ctx enabled identity_fastpath e =
     (if enabled \<and> translate = None then (False, e)
      else
        (let e = e\<lparr>mmu_translate := translate, mmu_translate_ctx := translate_ctx,
                   mmu_fault := on_fault, mmu_fault_ctx := fault_ctx,
                   mmu_enabled := enabled, mmu_identity_fastpath := identity_fastpath,
                   mmu_identity_active := (if enabled then identity_fastpath else False),
                   mmu_update_pending := False, mmu_changed_all := False,
                   mmu_changed_vpage := (\<lambda>_. False), mmu_epoch := mmu_epoch e + 1\<rparr>;
             e = rk65c02_mmu_refresh_accessors e;
             e = rk65c02_mmu_tlb_flush e;
             e = (if jit e \<noteq> None then rk65c02_jit_flush e else e)
         in (True, e)))"

definition rk65c02_mmu_clear :: "'h emu \<Rightarrow> 'h emu" where
  "rk65c02_mmu_clear e =
     (let e = e\<lparr>mmu_enabled := False, mmu_identity_fastpath := False,
                mmu_identity_active := False, mmu_update_pending := False,
                mmu_translate := None, mmu_translate_ctx := 0,
                mmu_fault := None, mmu_fault_ctx := 0,
                mmu_epoch := mmu_epoch e + 1, mmu_changed_all := False,
                mmu_changed_vpage := (\<lambda>_. False)\<rparr>;
          e = rk65c02_mmu_refresh_accessors e
      in rk65c02_mmu_tlb_flush e)"

section \<open>Mapping updates\<close>

definition rk65c02_mmu_begin_update :: "'h emu \<Rightarrow> 'h emu" where
  "rk65c02_mmu_begin_update e =
     (if \<not> mmu_enabled e then e
      else e\<lparr>mmu_update_pending := True, mmu_changed_all := False,
             mmu_changed_vpage := (\<lambda>_. False)\<rparr>)"

definition rk65c02_mmu_mark_changed_vpage :: "u8 \<Rightarrow> 'h emu \<Rightarrow> 'h emu" where
  "rk65c02_mmu_mark_changed_vpage vpage e =
     (if \<not> mmu_enabled e then e
      else rk65c02_mmu_refresh_accessors
             (e\<lparr>mmu_update_pending := True,
                mmu_changed_vpage := (mmu_changed_vpage e)(vpage := True),
                mmu_identity_active := False\<rparr>))"

definition rk65c02_mmu_mark_changed_vrange :: "u16 \<Rightarrow> u16 \<Rightarrow> 'h emu \<Rightarrow> 'h emu" where
  "rk65c02_mmu_mark_changed_vrange start stop e =
     (if \<not> mmu_enabled e then e
      else
        (let e = e\<lparr>mmu_update_pending := True\<rparr>;
             e = (if start \<le> stop
                  then e\<lparr>mmu_changed_vpage :=
                         fold (\<lambda>p f. f(of_nat p := True)) [unat (hi8 start)..<unat (hi8 stop) + 1]
                           (mmu_changed_vpage e)\<rparr>
                  else e\<lparr>mmu_changed_all := True\<rparr>);
             e = e\<lparr>mmu_identity_active := False\<rparr>
         in rk65c02_mmu_refresh_accessors e))"

definition mmu_end_update_page :: "nat \<Rightarrow> 'h emu \<Rightarrow> 'h emu" where
  "mmu_end_update_page p e =
     (if \<not> mmu_changed_vpage e (of_nat p) then e
      else
        (let e = rk65c02_mmu_tlb_flush_vpage (of_nat p) e in
         if jit e \<noteq> None then rk65c02_jit_invalidate_code_vpage (of_nat p) e else e))"

definition rk65c02_mmu_end_update :: "'h emu \<Rightarrow> 'h emu" where
  "rk65c02_mmu_end_update e =
     (if \<not> mmu_enabled e then e
      else if \<not> mmu_update_pending e then e
      else
        (let e = e\<lparr>mmu_update_pending := False\<rparr>;
             e = (if mmu_changed_all e then
                    (let e = rk65c02_mmu_tlb_flush (e\<lparr>mmu_epoch := mmu_epoch e + 1\<rparr>)
                     in if jit e \<noteq> None then rk65c02_jit_invalidate_all e else e)
                  else fold mmu_end_update_page [0..<256] e);
             e = e\<lparr>mmu_changed_all := False, mmu_changed_vpage := (\<lambda>_. False)\<rparr>
         in rk65c02_mmu_refresh_accessors e))"

section \<open>Initialisation\<close>

text \<open>
  \<open>rk65c02_init\<close> fills a local variable that starts indeterminate; \<open>u\<close> is that value.
  Registers other than P, and the loop budget, are left as they were.
\<close>

definition rk65c02_init :: "'h emu \<Rightarrow> 'h bus \<Rightarrow> 'h emu" where
  "rk65c02_init u b =
     u\<lparr>bus := b, state := STOPPED, stopreason := HOST,
       regs := (regs u)\<lparr>rP := (P_UNDEFINED OR P_IRQ_DISABLE) AND NOT P_DECIMAL\<rparr>,
       irq := False, bps_head := [], trace := False, trace_head := [],
       runtime_disassembly := False, use_jit := False, jit_requested := False, jit := None,
       in_jit_run := False, stop_requested := False, on_stop := None, on_stop_ctx := 0,
       tick := None, tick_ctx := 0, tick_interval := 0, tick_countdown := 0,
       idle_wait_enabled := False, idle_wait := None, idle_wait_ctx := 0,
       mmu_enabled := False, mmu_identity_fastpath := False, mmu_identity_active := False,
       mmu_update_pending := False, mmu_epoch := 0, mmu_translate := None,
       mmu_translate_ctx := 0, mmu_fault := None, mmu_fault_ctx := 0,
       mmu_last_fault_addr := 0, mmu_last_fault_access := MMU_READ, mmu_last_fault_code := 0,
       mmu_fault_reexec := False, mmu_tlb_enabled := True, mmu_changed_all := False,
       mmu_changed_vpage := (\<lambda>_. False), mmu_tlb_hits := 0, mmu_tlb_misses := 0,
       mmu_tlb := (\<lambda>_. tlb_zero), mem_read_1_fn := MEM_DIRECT, mem_write_1_fn := MEM_DIRECT\<rparr>"

text \<open>
  \<open>rk65c02_load_rom\<close> asserts that the file loads. Without a bus it makes the default one;
  \<open>b\<close> is \<open>Inl\<close> of the free heap in that case.
\<close>

definition rk65c02_load_rom ::
  "'h host \<Rightarrow> u8 list option \<Rightarrow> u16 \<Rightarrow> ((devid \<Rightarrow> device) \<times> devid \<times> 'h) + 'h bus \<Rightarrow> 'h emu \<Rightarrow>
   ('h emu, unit) outcome" where
  "rk65c02_load_rom H file load_addr b u =
     (let b = (case b of Inl (hp, nxt, hm) \<Rightarrow> bus_init_with_default_devs hp nxt hm | Inr b \<Rightarrow> b);
          (ok, b) = bus_load_file (h_dev H) b load_addr file
      in if \<not> ok then Abort else Ret () (rk65c02_init u b))"

end
