(* ===== verification/Instruction.thy ===== *)
theory Instruction
  imports Memory
begin

text \<open>
  Instruction fetch, operand access, stack and program counter: \<open>instruction.c\<close>. The
  outcome of each function carries the emulator state; a fault inside a native block leaves
  through \<open>Longjmp\<close>.
\<close>

section \<open>Fetch\<close>

definition mode_operands :: "addressing \<Rightarrow> nat" where
  "mode_operands md =
     (case md of
        IMMEDIATE \<Rightarrow> 1 | ZP \<Rightarrow> 1 | ZPX \<Rightarrow> 1 | ZPY \<Rightarrow> 1 | IZP \<Rightarrow> 1 | IZPX \<Rightarrow> 1 | IZPY \<Rightarrow> 1
      | RELATIVE \<Rightarrow> 1
      | ABSOLUTE \<Rightarrow> 2 | ABSOLUTEX \<Rightarrow> 2 | ABSOLUTEY \<Rightarrow> 2 | IABSOLUTE \<Rightarrow> 2 | IABSOLUTEX \<Rightarrow> 2
      | ZPR \<Rightarrow> 2
      | IMPLIED \<Rightarrow> 0 | ACCUMULATOR \<Rightarrow> 0)"

text \<open>A row's size is its operand bytes plus one; BRK skips a byte it does not read.\<close>

lemma isize_mode:
  "unat (isize (instruction_decode opc)) =
     (if emul (instruction_decode opc) = Some EMUL_BRK then 2
      else 1 + mode_operands (mode (instruction_decode opc)))"
proof (rule decode_all [of "\<lambda>r. unat (isize r) =
      (if emul r = Some EMUL_BRK then 2 else 1 + mode_operands (mode r))"])
  show "list_all (\<lambda>r. unat (isize r) =
      (if emul r = Some EMUL_BRK then 2 else 1 + mode_operands (mode r))) instrs"
    by (simp add: instrs_def row_def mode_operands_def)
qed

definition instruction_fetch ::
  "'h devhost \<Rightarrow> instruction \<Rightarrow> 'h bus \<Rightarrow> u16 \<Rightarrow> instruction \<times> 'h bus" where
  "instruction_fetch H junk b addr =
     (let (v, b) = bus_read_1 H b addr;
          i = junk\<lparr>opcode := v\<rparr>;
          n = mode_operands (mode (instruction_decode v))
      in if n = 1 then
           (let (o1, b) = bus_read_1 H b (addr + 1) in (i\<lparr>op1 := o1\<rparr>, b))
         else if n = 2 then
           (let (o1, b) = bus_read_1 H b (addr + 1);
                (o2, b) = bus_read_1 H b (addr + 2)
            in (i\<lparr>op1 := o1, op2 := o2\<rparr>, b))
         else (i, b))"

definition instruction_fetch_emu :: "'h host \<Rightarrow> u16 \<Rightarrow> 'h emu \<Rightarrow> ('h, instruction) run" where
  "instruction_fetch_emu H addr e =
     andthen (rk65c02_mem_fetch_1 H addr e) (\<lambda>v e.
       let i = (h_uninit H)\<lparr>opcode := v\<rparr>;
           n = mode_operands (mode (instruction_decode v))
       in if n = 1 then
            andthen (rk65c02_mem_fetch_1 H (addr + 1) e) (\<lambda>o1 e. Ret (i\<lparr>op1 := o1\<rparr>) e)
          else if n = 2 then
            andthen (rk65c02_mem_fetch_1 H (addr + 1) e) (\<lambda>o1 e.
            andthen (rk65c02_mem_fetch_1 H (addr + 2) e) (\<lambda>o2 e. Ret (i\<lparr>op1 := o1, op2 := o2\<rparr>) e))
          else Ret i e)"

section \<open>Status flags\<close>

definition set_P :: "u8 \<Rightarrow> 'h emu \<Rightarrow> 'h emu" where
  "set_P p e = e\<lparr>regs := (regs e)\<lparr>rP := p\<rparr>\<rparr>"

definition flag_set :: "u8 \<Rightarrow> 'h emu \<Rightarrow> 'h emu" where
  "flag_set m e = set_P (rP (regs e) OR m) e"

definition flag_clear :: "u8 \<Rightarrow> 'h emu \<Rightarrow> 'h emu" where
  "flag_clear m e = set_P (rP (regs e) AND NOT m) e"

definition instruction_status_adjust_zero :: "u8 \<Rightarrow> 'h emu \<Rightarrow> 'h emu" where
  "instruction_status_adjust_zero regval e =
     (if regval = 0 then flag_set P_ZERO e else flag_clear P_ZERO e)"

definition instruction_status_adjust_negative :: "u8 \<Rightarrow> 'h emu \<Rightarrow> 'h emu" where
  "instruction_status_adjust_negative regval e =
     (if regval AND P_NEGATIVE \<noteq> 0 then flag_set P_NEGATIVE e else flag_clear P_NEGATIVE e)"

section \<open>Operand addresses\<close>

definition read_pointer :: "'h host \<Rightarrow> u8 \<Rightarrow> 'h emu \<Rightarrow> ('h, u16) run" where
  "read_pointer H zp e =
     andthen (rk65c02_mem_read_1 H (ucast zp) e) (\<lambda>lo e.
     andthen (rk65c02_mem_read_1 H (ucast (zp + 1)) e) (\<lambda>hi e. Ret (join8 lo hi) e))"

definition instruction_data_address ::
  "'h host \<Rightarrow> instrdef \<Rightarrow> instruction \<Rightarrow> 'h emu \<Rightarrow> ('h, u16) run" where
  "instruction_data_address H idf i e =
     (case mode idf of
        ZP \<Rightarrow> Ret (ucast (op1 i)) e
      | ZPR \<Rightarrow> Ret (ucast (op1 i)) e
      | ZPX \<Rightarrow> Ret (ucast (op1 i + rX (regs e))) e
      | ZPY \<Rightarrow> Ret (ucast (op1 i + rY (regs e))) e
      | IZP \<Rightarrow> read_pointer H (op1 i) e
      | IZPX \<Rightarrow>
          andthen (rk65c02_mem_read_1 H (ucast (op1 i + rX (regs e))) e) (\<lambda>lo e.
          andthen (rk65c02_mem_read_1 H (ucast (op1 i + rX (regs e) + 1)) e) (\<lambda>hi e.
            Ret (join8 lo hi) e))
      | IZPY \<Rightarrow> andthen (read_pointer H (op1 i) e) (\<lambda>a e. Ret (a + ucast (rY (regs e))) e)
      | ABSOLUTE \<Rightarrow> Ret (ucast (op1 i) + push_bit 8 (ucast (op2 i))) e
      | ABSOLUTEX \<Rightarrow> Ret (ucast (op1 i) + push_bit 8 (ucast (op2 i)) + ucast (rX (regs e))) e
      | ABSOLUTEY \<Rightarrow> Ret (ucast (op1 i) + push_bit 8 (ucast (op2 i)) + ucast (rY (regs e))) e
      | _ \<Rightarrow> andthen (rk65c02_panic H e) (\<lambda>_ e. Ret 0 e))"

definition instruction_data_read_1 ::
  "'h host \<Rightarrow> instrdef \<Rightarrow> instruction \<Rightarrow> 'h emu \<Rightarrow> ('h, u8) run" where
  "instruction_data_read_1 H idf i e =
     (if mode idf = ACCUMULATOR then Ret (rA (regs e)) e
      else if mode idf = IMMEDIATE then Ret (op1 i) e
      else andthen (instruction_data_address H idf i e) (rk65c02_mem_read_1 H))"

definition instruction_data_write_1 ::
  "'h host \<Rightarrow> instrdef \<Rightarrow> instruction \<Rightarrow> u8 \<Rightarrow> 'h emu \<Rightarrow> ('h, unit) run" where
  "instruction_data_write_1 H idf i val e =
     (if mode idf = ACCUMULATOR then Ret () (e\<lparr>regs := (regs e)\<lparr>rA := val\<rparr>\<rparr>)
      else if mode idf = IMMEDIATE then rk65c02_panic H e
      else andthen (instruction_data_address H idf i e) (\<lambda>a e. rk65c02_mem_write_1 H a val e))"

section \<open>Stack\<close>

definition stack_push :: "'h host \<Rightarrow> u8 \<Rightarrow> 'h emu \<Rightarrow> ('h, unit) run" where
  "stack_push H val e =
     andthen (rk65c02_mem_write_1 H (STACK_START + ucast (rSP (regs e))) val e) (\<lambda>_ e.
       Ret () (e\<lparr>regs := (regs e)\<lparr>rSP := rSP (regs e) - 1\<rparr>\<rparr>))"

definition stack_pop :: "'h host \<Rightarrow> 'h emu \<Rightarrow> ('h, u8) run" where
  "stack_pop H e =
     (let e = e\<lparr>regs := (regs e)\<lparr>rSP := rSP (regs e) + 1\<rparr>\<rparr>
      in rk65c02_mem_read_1 H (STACK_START + ucast (rSP (regs e))) e)"

section \<open>Program counter\<close>

definition program_counter_increment :: "instrdef \<Rightarrow> 'h emu \<Rightarrow> 'h emu" where
  "program_counter_increment idf e =
     e\<lparr>regs := (regs e)\<lparr>rPC := rPC (regs e) + ucast (isize idf)\<rparr>\<rparr>"

text \<open>The branch offset is the operand byte read as \<open>int8_t\<close>.\<close>

definition program_counter_branch :: "u8 \<Rightarrow> 'h emu \<Rightarrow> 'h emu" where
  "program_counter_branch boffset e =
     e\<lparr>regs := (regs e)\<lparr>rPC := rPC (regs e) + scast boffset + 2\<rparr>\<rparr>"

end
