(* ===== verification/Debug.thy ===== *)
theory Debug
  imports Instruction
begin

text \<open>
  Breakpoints and the execution trace: \<open>debug.c\<close>. The linked lists are lists in list order;
  \<open>GC_MALLOC\<close> does not return \<open>NULL\<close> because the library installs an out-of-memory handler
  that aborts.
\<close>

definition debug_trace_set :: "bool \<Rightarrow> 'h emu \<Rightarrow> 'h emu" where
  "debug_trace_set on e = e\<lparr>trace := on\<rparr>"

definition debug_trace_savestate :: "u16 \<Rightarrow> instruction \<Rightarrow> 'h emu \<Rightarrow> 'h emu" where
  "debug_trace_savestate address i e =
     e\<lparr>trace_head := trace_head e @
         [\<lparr>tr_address = address, tr_opcode = opcode i, tr_op1 = op1 i, tr_op2 = op2 i,
           tr_regs = regs e\<rparr>]\<rparr>"

definition debug_breakpoint_remove :: "u16 \<Rightarrow> 'h emu \<Rightarrow> bool \<times> 'h emu" where
  "debug_breakpoint_remove address e =
     (if address \<in> set (bps_head e) then (True, e\<lparr>bps_head := remove1 address (bps_head e)\<rparr>)
      else (False, e))"

definition debug_breakpoint_add :: "u16 \<Rightarrow> 'h emu \<Rightarrow> bool \<times> 'h emu" where
  "debug_breakpoint_add address e = (True, e\<lparr>bps_head := bps_head e @ [address]\<rparr>)"

definition debug_PC_is_breakpoint :: "'h emu \<Rightarrow> bool" where
  "debug_PC_is_breakpoint e = list_ex (\<lambda>a. a = rPC (regs e)) (bps_head e)"

lemma breakpoint_remove_set:
  "distinct (bps_head e) \<Longrightarrow>
     set (bps_head (snd (debug_breakpoint_remove a e))) = set (bps_head e) - {a}"
  by (auto simp: debug_breakpoint_remove_def)

end
