(* ===== verification/Emulation.thy ===== *)
theory Emulation
  imports Debug
begin

text \<open>
  The instruction handlers of \<open>emulation.c\<close>, one definition per \<open>emul_*\<close> function, with
  the interrupt sequence \<open>rk65c02_irq\<close> that \<open>emul_brk\<close> shares. A handler gets the table
  row and the fetched instruction, as in the code.
\<close>

section \<open>Register writes\<close>

definition set_A :: "u8 \<Rightarrow> 'h emu \<Rightarrow> 'h emu" where
  "set_A v e = e\<lparr>regs := (regs e)\<lparr>rA := v\<rparr>\<rparr>"

definition set_X :: "u8 \<Rightarrow> 'h emu \<Rightarrow> 'h emu" where
  "set_X v e = e\<lparr>regs := (regs e)\<lparr>rX := v\<rparr>\<rparr>"

definition set_Y :: "u8 \<Rightarrow> 'h emu \<Rightarrow> 'h emu" where
  "set_Y v e = e\<lparr>regs := (regs e)\<lparr>rY := v\<rparr>\<rparr>"

definition set_SP :: "u8 \<Rightarrow> 'h emu \<Rightarrow> 'h emu" where
  "set_SP v e = e\<lparr>regs := (regs e)\<lparr>rSP := v\<rparr>\<rparr>"

definition set_PC :: "u16 \<Rightarrow> 'h emu \<Rightarrow> 'h emu" where
  "set_PC v e = e\<lparr>regs := (regs e)\<lparr>rPC := v\<rparr>\<rparr>"

abbreviation flag :: "u8 \<Rightarrow> 'h emu \<Rightarrow> bool" where
  "flag m e \<equiv> rP (regs e) AND m \<noteq> 0"

text \<open>Setting a flag from a condition, the \<open>if\<close>/\<open>else\<close> pair the handlers repeat.\<close>

definition flag_put :: "u8 \<Rightarrow> bool \<Rightarrow> 'h emu \<Rightarrow> 'h emu" where
  "flag_put m c e = (if c then flag_set m e else flag_clear m e)"

text \<open>The zero and negative update that ends most handlers.\<close>

definition status_zn :: "u8 \<Rightarrow> 'h emu \<Rightarrow> 'h emu" where
  "status_zn v e = instruction_status_adjust_negative v (instruction_status_adjust_zero v e)"

section \<open>BCD conversion\<close>

definition from_bcd :: "u8 \<Rightarrow> u8" where
  "from_bcd val = 10 * drop_bit 4 val + (0x0F AND val)"

function to_bcd_loop :: "u8 \<Rightarrow> nat \<Rightarrow> u8 \<Rightarrow> u8" where
  "to_bcd_loop val shift bcd =
     (if val > 0 then
        (let digit = ucast (val mod 10) :: u32
         in to_bcd_loop (val div 10) (shift + 4) (bcd + ucast (push_bit shift digit)))
      else bcd)"
  by pat_completeness auto
termination
proof (relation "measure (\<lambda>(val, shift, bcd). unat val)")
  fix val :: u8 and shift :: nat and bcd :: u8 and digit :: u32
  assume "0 < val"
  then have "unat (val div 10) < unat val" by (simp add: unat_div word_less_nat_alt)
  then show "((val div 10, shift + 4, bcd + ucast (push_bit shift digit)), val, shift, bcd)
      \<in> measure (\<lambda>(val, shift, bcd). unat val)" by simp
qed simp

declare to_bcd_loop.simps [simp del]

definition to_bcd :: "u8 \<Rightarrow> u8" where
  "to_bcd val = to_bcd_loop val 0 0"

section \<open>Interrupt entry\<close>

definition rk65c02_irq :: "'h host \<Rightarrow> 'h emu \<Rightarrow> ('h, unit) run" where
  "rk65c02_irq H e =
     andthen (stack_push H (hi8 (rPC (regs e))) e) (\<lambda>_ e.
     andthen (stack_push H (lo8 (rPC (regs e))) e) (\<lambda>_ e.
     andthen (stack_push H (rP (regs e)) e) (\<lambda>_ e.
       let e = flag_set P_IRQ_DISABLE e;
           e = flag_clear P_DECIMAL e;
           e = flag_clear P_BREAK e
       in andthen (rk65c02_mem_read_1 H VECTOR_IRQ e) (\<lambda>lo e.
          let e = set_PC (ucast lo) e
          in andthen (rk65c02_mem_read_1 H (VECTOR_IRQ + 1) e) (\<lambda>hi e.
             Ret () ((set_PC (rPC (regs e) OR push_bit 8 (ucast hi)) e)\<lparr>irq := False\<rparr>))))))"

section \<open>Handlers\<close>

definition emul_adc :: "'h host \<Rightarrow> instrdef \<Rightarrow> instruction \<Rightarrow> 'h emu \<Rightarrow> ('h, unit) run" where
  "emul_adc H idf i e =
     andthen (instruction_data_read_1 H idf i e) (\<lambda>arg e.
       let res = (if flag P_DECIMAL e
                  then ucast (from_bcd (rA (regs e))) + ucast (from_bcd arg)
                  else ucast (rA (regs e)) + ucast arg) :: u16;
           res = (if flag P_CARRY e then res + 1 else res);
           e = flag_put P_SIGN_OVERFLOW
                 ((ucast (rA (regs e)) XOR res) AND (ucast arg XOR res) AND 0x80 \<noteq> 0) e;
           e = (if flag P_DECIMAL e then flag_put P_CARRY (res > 99) e
                else flag_put P_CARRY (res > 0xFF) e);
           e = (if flag P_DECIMAL e then set_A (to_bcd (ucast res)) e
                else set_A (ucast res) e)
       in Ret () (status_zn (rA (regs e)) e))"

definition emul_and :: "'h host \<Rightarrow> instrdef \<Rightarrow> instruction \<Rightarrow> 'h emu \<Rightarrow> ('h, unit) run" where
  "emul_and H idf i e =
     andthen (instruction_data_read_1 H idf i e) (\<lambda>v e.
       let e = set_A (rA (regs e) AND v) e in Ret () (status_zn (rA (regs e)) e))"

definition emul_asl :: "'h host \<Rightarrow> instrdef \<Rightarrow> instruction \<Rightarrow> 'h emu \<Rightarrow> ('h, unit) run" where
  "emul_asl H idf i e =
     andthen (instruction_data_read_1 H idf i e) (\<lambda>v e.
       let e = flag_put P_CARRY (v AND 0x80 \<noteq> 0) e;
           v = push_bit 1 v;
           e = status_zn v e
       in instruction_data_write_1 H idf i v e)"

definition emul_bbr :: "nat \<Rightarrow> 'h host \<Rightarrow> instrdef \<Rightarrow> instruction \<Rightarrow> 'h emu \<Rightarrow> ('h, unit) run" where
  "emul_bbr bt H idf i e =
     andthen (instruction_data_read_1 H idf i e) (\<lambda>v e.
       if v AND push_bit bt 1 = 0
       then Ret () (set_PC (rPC (regs e) + scast (op2 i) + 3) e)
       else Ret () (program_counter_increment idf e))"

definition emul_bbs :: "nat \<Rightarrow> 'h host \<Rightarrow> instrdef \<Rightarrow> instruction \<Rightarrow> 'h emu \<Rightarrow> ('h, unit) run" where
  "emul_bbs bt H idf i e =
     andthen (instruction_data_read_1 H idf i e) (\<lambda>v e.
       if v AND push_bit bt 1 \<noteq> 0
       then Ret () (set_PC (rPC (regs e) + scast (op2 i) + 3) e)
       else Ret () (program_counter_increment idf e))"

definition emul_bit :: "'h host \<Rightarrow> instrdef \<Rightarrow> instruction \<Rightarrow> 'h emu \<Rightarrow> ('h, unit) run" where
  "emul_bit H idf i e =
     andthen (instruction_data_read_1 H idf i e) (\<lambda>v e.
       let e = (if rA (regs e) AND v \<noteq> 0 then flag_clear P_ZERO e else flag_set P_ZERO e) in
       if mode idf \<noteq> IMMEDIATE then
         andthen (instruction_data_read_1 H idf i e) (\<lambda>mem e.
           let e = flag_put P_SIGN_OVERFLOW (mem AND push_bit 6 1 \<noteq> 0) e;
               e = flag_put P_NEGATIVE (mem AND push_bit 7 1 \<noteq> 0) e
           in Ret () e)
       else Ret () e)"

definition emul_bcc :: "'h host \<Rightarrow> instrdef \<Rightarrow> instruction \<Rightarrow> 'h emu \<Rightarrow> ('h, unit) run" where
  "emul_bcc H idf i e =
     (if \<not> flag P_CARRY e then Ret () (program_counter_branch (op1 i) e)
      else Ret () (program_counter_increment idf e))"

definition emul_bcs :: "'h host \<Rightarrow> instrdef \<Rightarrow> instruction \<Rightarrow> 'h emu \<Rightarrow> ('h, unit) run" where
  "emul_bcs H idf i e =
     (if flag P_CARRY e then Ret () (program_counter_branch (op1 i) e)
      else Ret () (program_counter_increment idf e))"

definition emul_beq :: "'h host \<Rightarrow> instrdef \<Rightarrow> instruction \<Rightarrow> 'h emu \<Rightarrow> ('h, unit) run" where
  "emul_beq H idf i e =
     (if flag P_ZERO e then Ret () (program_counter_branch (op1 i) e)
      else Ret () (program_counter_increment idf e))"

definition emul_bmi :: "'h host \<Rightarrow> instrdef \<Rightarrow> instruction \<Rightarrow> 'h emu \<Rightarrow> ('h, unit) run" where
  "emul_bmi H idf i e =
     (if flag P_NEGATIVE e then Ret () (program_counter_branch (op1 i) e)
      else Ret () (program_counter_increment idf e))"

definition emul_bne :: "'h host \<Rightarrow> instrdef \<Rightarrow> instruction \<Rightarrow> 'h emu \<Rightarrow> ('h, unit) run" where
  "emul_bne H idf i e =
     (if \<not> flag P_ZERO e then Ret () (program_counter_branch (op1 i) e)
      else Ret () (program_counter_increment idf e))"

definition emul_bpl :: "'h host \<Rightarrow> instrdef \<Rightarrow> instruction \<Rightarrow> 'h emu \<Rightarrow> ('h, unit) run" where
  "emul_bpl H idf i e =
     (if \<not> flag P_NEGATIVE e then Ret () (program_counter_branch (op1 i) e)
      else Ret () (program_counter_increment idf e))"

definition emul_bra :: "'h host \<Rightarrow> instrdef \<Rightarrow> instruction \<Rightarrow> 'h emu \<Rightarrow> ('h, unit) run" where
  "emul_bra H idf i e = Ret () (program_counter_branch (op1 i) e)"

definition emul_brk :: "'h host \<Rightarrow> instrdef \<Rightarrow> instruction \<Rightarrow> 'h emu \<Rightarrow> ('h, unit) run" where
  "emul_brk H idf i e =
     (let e = set_PC (rPC (regs e) + 2) e;
          e = flag_set P_BREAK e
      in rk65c02_irq H e)"

definition emul_bvc :: "'h host \<Rightarrow> instrdef \<Rightarrow> instruction \<Rightarrow> 'h emu \<Rightarrow> ('h, unit) run" where
  "emul_bvc H idf i e =
     (if \<not> flag P_SIGN_OVERFLOW e then Ret () (program_counter_branch (op1 i) e)
      else Ret () (program_counter_increment idf e))"

definition emul_bvs :: "'h host \<Rightarrow> instrdef \<Rightarrow> instruction \<Rightarrow> 'h emu \<Rightarrow> ('h, unit) run" where
  "emul_bvs H idf i e =
     (if flag P_SIGN_OVERFLOW e then Ret () (program_counter_branch (op1 i) e)
      else Ret () (program_counter_increment idf e))"

definition emul_clc :: "'h host \<Rightarrow> instrdef \<Rightarrow> instruction \<Rightarrow> 'h emu \<Rightarrow> ('h, unit) run" where
  "emul_clc H idf i e = Ret () (flag_clear P_CARRY e)"

definition emul_cld :: "'h host \<Rightarrow> instrdef \<Rightarrow> instruction \<Rightarrow> 'h emu \<Rightarrow> ('h, unit) run" where
  "emul_cld H idf i e = Ret () (flag_clear P_DECIMAL e)"

definition emul_cli :: "'h host \<Rightarrow> instrdef \<Rightarrow> instruction \<Rightarrow> 'h emu \<Rightarrow> ('h, unit) run" where
  "emul_cli H idf i e = Ret () (flag_clear P_IRQ_DISABLE e)"

definition emul_clv :: "'h host \<Rightarrow> instrdef \<Rightarrow> instruction \<Rightarrow> 'h emu \<Rightarrow> ('h, unit) run" where
  "emul_clv H idf i e = Ret () (flag_clear P_SIGN_OVERFLOW e)"

definition emul_cmp :: "'h host \<Rightarrow> instrdef \<Rightarrow> instruction \<Rightarrow> 'h emu \<Rightarrow> ('h, unit) run" where
  "emul_cmp H idf i e =
     andthen (instruction_data_read_1 H idf i e) (\<lambda>v e.
       let sr = rA (regs e) - v;
           e = status_zn sr e
       in Ret () (if rA (regs e) < v then flag_clear P_CARRY e else flag_set P_CARRY e))"

definition emul_cpx :: "'h host \<Rightarrow> instrdef \<Rightarrow> instruction \<Rightarrow> 'h emu \<Rightarrow> ('h, unit) run" where
  "emul_cpx H idf i e =
     andthen (instruction_data_read_1 H idf i e) (\<lambda>v e.
       let sr = rX (regs e) - v;
           e = status_zn sr e
       in Ret () (if rX (regs e) < v then flag_clear P_CARRY e else flag_set P_CARRY e))"

definition emul_cpy :: "'h host \<Rightarrow> instrdef \<Rightarrow> instruction \<Rightarrow> 'h emu \<Rightarrow> ('h, unit) run" where
  "emul_cpy H idf i e =
     andthen (instruction_data_read_1 H idf i e) (\<lambda>v e.
       let sr = rY (regs e) - v;
           e = status_zn sr e
       in Ret () (if rY (regs e) < v then flag_clear P_CARRY e else flag_set P_CARRY e))"

definition emul_dec :: "'h host \<Rightarrow> instrdef \<Rightarrow> instruction \<Rightarrow> 'h emu \<Rightarrow> ('h, unit) run" where
  "emul_dec H idf i e =
     andthen (instruction_data_read_1 H idf i e) (\<lambda>v e.
       let v = v - 1 in
       andthen (instruction_data_write_1 H idf i v e) (\<lambda>_ e. Ret () (status_zn v e)))"

definition emul_dex :: "'h host \<Rightarrow> instrdef \<Rightarrow> instruction \<Rightarrow> 'h emu \<Rightarrow> ('h, unit) run" where
  "emul_dex H idf i e =
     (let e = set_X (rX (regs e) - 1) e in Ret () (status_zn (rX (regs e)) e))"

definition emul_dey :: "'h host \<Rightarrow> instrdef \<Rightarrow> instruction \<Rightarrow> 'h emu \<Rightarrow> ('h, unit) run" where
  "emul_dey H idf i e =
     (let e = set_Y (rY (regs e) - 1) e in Ret () (status_zn (rY (regs e)) e))"

definition emul_eor :: "'h host \<Rightarrow> instrdef \<Rightarrow> instruction \<Rightarrow> 'h emu \<Rightarrow> ('h, unit) run" where
  "emul_eor H idf i e =
     andthen (instruction_data_read_1 H idf i e) (\<lambda>v e.
       let e = set_A (rA (regs e) XOR v) e in Ret () (status_zn (rA (regs e)) e))"

definition emul_inc :: "'h host \<Rightarrow> instrdef \<Rightarrow> instruction \<Rightarrow> 'h emu \<Rightarrow> ('h, unit) run" where
  "emul_inc H idf i e =
     andthen (instruction_data_read_1 H idf i e) (\<lambda>v e.
       let v = v + 1 in
       andthen (instruction_data_write_1 H idf i v e) (\<lambda>_ e. Ret () (status_zn v e)))"

definition emul_inx :: "'h host \<Rightarrow> instrdef \<Rightarrow> instruction \<Rightarrow> 'h emu \<Rightarrow> ('h, unit) run" where
  "emul_inx H idf i e =
     (let e = set_X (rX (regs e) + 1) e in Ret () (status_zn (rX (regs e)) e))"

definition emul_iny :: "'h host \<Rightarrow> instrdef \<Rightarrow> instruction \<Rightarrow> 'h emu \<Rightarrow> ('h, unit) run" where
  "emul_iny H idf i e =
     (let e = set_Y (rY (regs e) + 1) e in Ret () (status_zn (rY (regs e)) e))"

definition emul_jmp :: "'h host \<Rightarrow> instrdef \<Rightarrow> instruction \<Rightarrow> 'h emu \<Rightarrow> ('h, unit) run" where
  "emul_jmp H idf i e =
     (let jump = (\<lambda>iaddr e.
            andthen (rk65c02_mem_read_1 H iaddr e) (\<lambda>lo e.
            andthen (rk65c02_mem_read_1 H (iaddr + 1) e) (\<lambda>hi e.
              Ret () (set_PC (ucast lo OR push_bit 8 (ucast hi)) e))))
      in case mode idf of
           ABSOLUTE \<Rightarrow> Ret () (set_PC (ucast (op1 i) + push_bit 8 (ucast (op2 i))) e)
         | IABSOLUTE \<Rightarrow> jump (ucast (op1 i) + push_bit 8 (ucast (op2 i))) e
         | IABSOLUTEX \<Rightarrow>
             jump (ucast (op1 i) + push_bit 8 (ucast (op2 i)) + ucast (rX (regs e))) e
         | _ \<Rightarrow> Abort)"

definition emul_jsr :: "'h host \<Rightarrow> instrdef \<Rightarrow> instruction \<Rightarrow> 'h emu \<Rightarrow> ('h, unit) run" where
  "emul_jsr H idf i e =
     (let jumpaddr = ucast (op1 i) + push_bit 8 (ucast (op2 i));
          retaddr = rPC (regs e) + 2
      in andthen (stack_push H (hi8 retaddr) e) (\<lambda>_ e.
         andthen (stack_push H (lo8 retaddr) e) (\<lambda>_ e.
           Ret () (set_PC jumpaddr e))))"

definition emul_lda :: "'h host \<Rightarrow> instrdef \<Rightarrow> instruction \<Rightarrow> 'h emu \<Rightarrow> ('h, unit) run" where
  "emul_lda H idf i e =
     andthen (instruction_data_read_1 H idf i e) (\<lambda>v e.
       let e = set_A v e in Ret () (status_zn (rA (regs e)) e))"

definition emul_ldx :: "'h host \<Rightarrow> instrdef \<Rightarrow> instruction \<Rightarrow> 'h emu \<Rightarrow> ('h, unit) run" where
  "emul_ldx H idf i e =
     andthen (instruction_data_read_1 H idf i e) (\<lambda>v e.
       let e = set_X v e in Ret () (status_zn (rX (regs e)) e))"

definition emul_ldy :: "'h host \<Rightarrow> instrdef \<Rightarrow> instruction \<Rightarrow> 'h emu \<Rightarrow> ('h, unit) run" where
  "emul_ldy H idf i e =
     andthen (instruction_data_read_1 H idf i e) (\<lambda>v e.
       let e = set_Y v e in Ret () (status_zn (rY (regs e)) e))"

definition emul_lsr :: "'h host \<Rightarrow> instrdef \<Rightarrow> instruction \<Rightarrow> 'h emu \<Rightarrow> ('h, unit) run" where
  "emul_lsr H idf i e =
     andthen (instruction_data_read_1 H idf i e) (\<lambda>v e.
       let e = flag_put P_CARRY (v AND 0x1 \<noteq> 0) e;
           v = drop_bit 1 v;
           e = status_zn v e
       in instruction_data_write_1 H idf i v e)"

definition emul_nop :: "'h host \<Rightarrow> instrdef \<Rightarrow> instruction \<Rightarrow> 'h emu \<Rightarrow> ('h, unit) run" where
  "emul_nop H idf i e = Ret () e"

definition emul_ora :: "'h host \<Rightarrow> instrdef \<Rightarrow> instruction \<Rightarrow> 'h emu \<Rightarrow> ('h, unit) run" where
  "emul_ora H idf i e =
     andthen (instruction_data_read_1 H idf i e) (\<lambda>v e.
       let e = set_A (rA (regs e) OR v) e in Ret () (status_zn (rA (regs e)) e))"

definition emul_pha :: "'h host \<Rightarrow> instrdef \<Rightarrow> instruction \<Rightarrow> 'h emu \<Rightarrow> ('h, unit) run" where
  "emul_pha H idf i e = stack_push H (rA (regs e)) e"

definition emul_php :: "'h host \<Rightarrow> instrdef \<Rightarrow> instruction \<Rightarrow> 'h emu \<Rightarrow> ('h, unit) run" where
  "emul_php H idf i e = stack_push H (rP (regs e) OR P_BREAK OR P_UNDEFINED) e"

definition emul_phx :: "'h host \<Rightarrow> instrdef \<Rightarrow> instruction \<Rightarrow> 'h emu \<Rightarrow> ('h, unit) run" where
  "emul_phx H idf i e = stack_push H (rX (regs e)) e"

definition emul_phy :: "'h host \<Rightarrow> instrdef \<Rightarrow> instruction \<Rightarrow> 'h emu \<Rightarrow> ('h, unit) run" where
  "emul_phy H idf i e = stack_push H (rY (regs e)) e"

definition emul_pla :: "'h host \<Rightarrow> instrdef \<Rightarrow> instruction \<Rightarrow> 'h emu \<Rightarrow> ('h, unit) run" where
  "emul_pla H idf i e =
     andthen (stack_pop H e) (\<lambda>v e.
       let e = set_A v e in Ret () (status_zn (rA (regs e)) e))"

definition emul_plp :: "'h host \<Rightarrow> instrdef \<Rightarrow> instruction \<Rightarrow> 'h emu \<Rightarrow> ('h, unit) run" where
  "emul_plp H idf i e =
     andthen (stack_pop H e) (\<lambda>v e. Ret () (set_P ((v OR P_UNDEFINED) AND NOT P_BREAK) e))"

definition emul_plx :: "'h host \<Rightarrow> instrdef \<Rightarrow> instruction \<Rightarrow> 'h emu \<Rightarrow> ('h, unit) run" where
  "emul_plx H idf i e =
     andthen (stack_pop H e) (\<lambda>v e.
       let e = set_X v e in Ret () (status_zn (rX (regs e)) e))"

definition emul_ply :: "'h host \<Rightarrow> instrdef \<Rightarrow> instruction \<Rightarrow> 'h emu \<Rightarrow> ('h, unit) run" where
  "emul_ply H idf i e =
     andthen (stack_pop H e) (\<lambda>v e.
       let e = set_Y v e in Ret () (status_zn (rY (regs e)) e))"

definition emul_rti :: "'h host \<Rightarrow> instrdef \<Rightarrow> instruction \<Rightarrow> 'h emu \<Rightarrow> ('h, unit) run" where
  "emul_rti H idf i e =
     andthen (stack_pop H e) (\<lambda>v e.
       let e = set_P ((v OR P_UNDEFINED) AND NOT P_BREAK) e in
       andthen (stack_pop H e) (\<lambda>lo e.
       andthen (stack_pop H e) (\<lambda>hi e.
         Ret () (set_PC (ucast lo OR push_bit 8 (ucast hi)) e))))"

definition emul_rts :: "'h host \<Rightarrow> instrdef \<Rightarrow> instruction \<Rightarrow> 'h emu \<Rightarrow> ('h, unit) run" where
  "emul_rts H idf i e =
     andthen (stack_pop H e) (\<lambda>lo e.
     andthen (stack_pop H e) (\<lambda>hi e.
       Ret () (set_PC (ucast lo OR push_bit 8 (ucast hi)) e)))"

definition emul_rmb :: "nat \<Rightarrow> 'h host \<Rightarrow> instrdef \<Rightarrow> instruction \<Rightarrow> 'h emu \<Rightarrow> ('h, unit) run" where
  "emul_rmb bt H idf i e =
     andthen (instruction_data_read_1 H idf i e) (\<lambda>v e.
       instruction_data_write_1 H idf i (v AND NOT (push_bit bt 1)) e)"

definition emul_rol :: "'h host \<Rightarrow> instrdef \<Rightarrow> instruction \<Rightarrow> 'h emu \<Rightarrow> ('h, unit) run" where
  "emul_rol H idf i e =
     andthen (instruction_data_read_1 H idf i e) (\<lambda>v e.
       let ncarry = (v AND 0x80 \<noteq> 0);
           v = push_bit 1 v;
           v = (if flag P_CARRY e then v OR 0x1 else v AND NOT 0x1);
           e = flag_put P_CARRY ncarry e;
           e = status_zn v e
       in instruction_data_write_1 H idf i v e)"

definition emul_ror :: "'h host \<Rightarrow> instrdef \<Rightarrow> instruction \<Rightarrow> 'h emu \<Rightarrow> ('h, unit) run" where
  "emul_ror H idf i e =
     andthen (instruction_data_read_1 H idf i e) (\<lambda>v e.
       let ncarry = (v AND 0x1 \<noteq> 0);
           v = drop_bit 1 v;
           v = (if flag P_CARRY e then v OR 0x80 else v AND NOT 0x80);
           e = flag_put P_CARRY ncarry e;
           e = status_zn v e
       in instruction_data_write_1 H idf i v e)"

text \<open>
  The decimal branch of SBC reduces the signed difference modulo 100 with C's truncating
  remainder and then makes it non-negative.
\<close>

definition sbc_bcd_val :: "u16 \<Rightarrow> u8" where
  "sbc_bcd_val res =
     (let bcd_val = c_rem (sint res + 100) 100;
          bcd_val = (if bcd_val < 0 then bcd_val + 100 else bcd_val)
      in to_bcd (word_of_int bcd_val))"

definition emul_sbc :: "'h host \<Rightarrow> instrdef \<Rightarrow> instruction \<Rightarrow> 'h emu \<Rightarrow> ('h, unit) run" where
  "emul_sbc H idf i e =
     andthen (instruction_data_read_1 H idf i e) (\<lambda>arg e.
       let res = (if flag P_DECIMAL e
                  then ucast (from_bcd (rA (regs e))) - ucast (from_bcd arg)
                  else ucast (rA (regs e)) - ucast arg) :: u16;
           res = (if \<not> flag P_CARRY e then res - 1 else res);
           e = flag_put P_SIGN_OVERFLOW
                 ((ucast (rA (regs e)) XOR res) AND ((0xFF - ucast arg) XOR res) AND 0x80 \<noteq> 0) e;
           e = (if flag P_DECIMAL e
                then flag_put P_CARRY (\<not> (res > 99 \<or> res AND 0xFF00 \<noteq> 0)) e
                else flag_put P_CARRY (\<not> (res AND 0xFF00 \<noteq> 0)) e);
           e = (if flag P_DECIMAL e then set_A (sbc_bcd_val res) e
                else set_A (ucast res) e)
       in Ret () (status_zn (rA (regs e)) e))"

text \<open>The helpers that native code calls for decimal mode.\<close>

definition rk65c02_do_adc_bcd :: "u8 \<Rightarrow> 'h emu \<Rightarrow> 'h emu" where
  "rk65c02_do_adc_bcd operand e =
     (let res = ucast (from_bcd (rA (regs e))) + ucast (from_bcd operand) :: u16;
          res = (if flag P_CARRY e then res + 1 else res);
          e = flag_put P_SIGN_OVERFLOW
                ((ucast (rA (regs e)) XOR res) AND (ucast operand XOR res) AND 0x80 \<noteq> 0) e;
          e = flag_put P_CARRY (res > 99) e;
          e = set_A (to_bcd (ucast res)) e
      in status_zn (rA (regs e)) e)"

definition rk65c02_do_sbc_bcd :: "u8 \<Rightarrow> 'h emu \<Rightarrow> 'h emu" where
  "rk65c02_do_sbc_bcd operand e =
     (let res = ucast (from_bcd (rA (regs e))) - ucast (from_bcd operand) :: u16;
          res = (if \<not> flag P_CARRY e then res - 1 else res);
          e = flag_put P_SIGN_OVERFLOW
                ((ucast (rA (regs e)) XOR res) AND ((0xFF - ucast operand) XOR res) AND 0x80 \<noteq> 0) e;
          e = flag_put P_CARRY (\<not> (res > 99 \<or> res AND 0xFF00 \<noteq> 0)) e;
          e = set_A (sbc_bcd_val res) e
      in status_zn (rA (regs e)) e)"

definition emul_sed :: "'h host \<Rightarrow> instrdef \<Rightarrow> instruction \<Rightarrow> 'h emu \<Rightarrow> ('h, unit) run" where
  "emul_sed H idf i e = Ret () (flag_set P_DECIMAL e)"

definition emul_sec :: "'h host \<Rightarrow> instrdef \<Rightarrow> instruction \<Rightarrow> 'h emu \<Rightarrow> ('h, unit) run" where
  "emul_sec H idf i e = Ret () (flag_set P_CARRY e)"

definition emul_sei :: "'h host \<Rightarrow> instrdef \<Rightarrow> instruction \<Rightarrow> 'h emu \<Rightarrow> ('h, unit) run" where
  "emul_sei H idf i e = Ret () (flag_set P_IRQ_DISABLE e)"

definition emul_smb :: "nat \<Rightarrow> 'h host \<Rightarrow> instrdef \<Rightarrow> instruction \<Rightarrow> 'h emu \<Rightarrow> ('h, unit) run" where
  "emul_smb bt H idf i e =
     andthen (instruction_data_read_1 H idf i e) (\<lambda>v e.
       instruction_data_write_1 H idf i (v OR push_bit bt 1) e)"

definition emul_stp :: "'h host \<Rightarrow> instrdef \<Rightarrow> instruction \<Rightarrow> 'h emu \<Rightarrow> ('h, unit) run" where
  "emul_stp H idf i e = Ret () (e\<lparr>state := STOPPED, stopreason := STP\<rparr>)"

definition emul_sta :: "'h host \<Rightarrow> instrdef \<Rightarrow> instruction \<Rightarrow> 'h emu \<Rightarrow> ('h, unit) run" where
  "emul_sta H idf i e = instruction_data_write_1 H idf i (rA (regs e)) e"

definition emul_stx :: "'h host \<Rightarrow> instrdef \<Rightarrow> instruction \<Rightarrow> 'h emu \<Rightarrow> ('h, unit) run" where
  "emul_stx H idf i e = instruction_data_write_1 H idf i (rX (regs e)) e"

definition emul_sty :: "'h host \<Rightarrow> instrdef \<Rightarrow> instruction \<Rightarrow> 'h emu \<Rightarrow> ('h, unit) run" where
  "emul_sty H idf i e = instruction_data_write_1 H idf i (rY (regs e)) e"

definition emul_stz :: "'h host \<Rightarrow> instrdef \<Rightarrow> instruction \<Rightarrow> 'h emu \<Rightarrow> ('h, unit) run" where
  "emul_stz H idf i e = instruction_data_write_1 H idf i 0 e"

definition emul_tax :: "'h host \<Rightarrow> instrdef \<Rightarrow> instruction \<Rightarrow> 'h emu \<Rightarrow> ('h, unit) run" where
  "emul_tax H idf i e =
     (let e = set_X (rA (regs e)) e in Ret () (status_zn (rX (regs e)) e))"

definition emul_tay :: "'h host \<Rightarrow> instrdef \<Rightarrow> instruction \<Rightarrow> 'h emu \<Rightarrow> ('h, unit) run" where
  "emul_tay H idf i e =
     (let e = set_Y (rA (regs e)) e in Ret () (status_zn (rY (regs e)) e))"

definition emul_trb :: "'h host \<Rightarrow> instrdef \<Rightarrow> instruction \<Rightarrow> 'h emu \<Rightarrow> ('h, unit) run" where
  "emul_trb H idf i e =
     andthen (instruction_data_read_1 H idf i e) (\<lambda>v e.
       let e = (if rA (regs e) AND v \<noteq> 0 then flag_clear P_ZERO e else flag_set P_ZERO e)
       in instruction_data_write_1 H idf i (v AND (rA (regs e) XOR 0xFF)) e)"

definition emul_tsb :: "'h host \<Rightarrow> instrdef \<Rightarrow> instruction \<Rightarrow> 'h emu \<Rightarrow> ('h, unit) run" where
  "emul_tsb H idf i e =
     andthen (instruction_data_read_1 H idf i e) (\<lambda>v e.
       let e = (if rA (regs e) AND v \<noteq> 0 then flag_clear P_ZERO e else flag_set P_ZERO e)
       in instruction_data_write_1 H idf i (v OR rA (regs e)) e)"

definition emul_tsx :: "'h host \<Rightarrow> instrdef \<Rightarrow> instruction \<Rightarrow> 'h emu \<Rightarrow> ('h, unit) run" where
  "emul_tsx H idf i e =
     (let e = set_X (rSP (regs e)) e in Ret () (status_zn (rX (regs e)) e))"

definition emul_txa :: "'h host \<Rightarrow> instrdef \<Rightarrow> instruction \<Rightarrow> 'h emu \<Rightarrow> ('h, unit) run" where
  "emul_txa H idf i e =
     (let e = set_A (rX (regs e)) e in Ret () (status_zn (rA (regs e)) e))"

definition emul_txs :: "'h host \<Rightarrow> instrdef \<Rightarrow> instruction \<Rightarrow> 'h emu \<Rightarrow> ('h, unit) run" where
  "emul_txs H idf i e = Ret () (set_SP (rX (regs e)) e)"

definition emul_tya :: "'h host \<Rightarrow> instrdef \<Rightarrow> instruction \<Rightarrow> 'h emu \<Rightarrow> ('h, unit) run" where
  "emul_tya H idf i e =
     (let e = set_A (rY (regs e)) e in Ret () (status_zn (rA (regs e)) e))"

definition emul_wai :: "'h host \<Rightarrow> instrdef \<Rightarrow> instruction \<Rightarrow> 'h emu \<Rightarrow> ('h, unit) run" where
  "emul_wai H idf i e = Ret () (e\<lparr>state := STOPPED, stopreason := WAI\<rparr>)"

definition emul_invalid :: "'h host \<Rightarrow> instrdef \<Rightarrow> instruction \<Rightarrow> 'h emu \<Rightarrow> ('h, unit) run" where
  "emul_invalid H idf i e = Ret () e"

section \<open>Dispatch\<close>

text \<open>The call \<open>id.emul(e, &id, &i)\<close> through the function pointer of a table row.\<close>

primrec emul_call :: "emul_fn \<Rightarrow> 'h host \<Rightarrow> instrdef \<Rightarrow> instruction \<Rightarrow> 'h emu \<Rightarrow> ('h, unit) run" where
  "emul_call EMUL_ADC = emul_adc"
| "emul_call EMUL_AND = emul_and"
| "emul_call EMUL_ASL = emul_asl"
| "emul_call (EMUL_BBR bt) = emul_bbr bt"
| "emul_call (EMUL_BBS bt) = emul_bbs bt"
| "emul_call EMUL_BIT = emul_bit"
| "emul_call EMUL_BCC = emul_bcc"
| "emul_call EMUL_BCS = emul_bcs"
| "emul_call EMUL_BEQ = emul_beq"
| "emul_call EMUL_BMI = emul_bmi"
| "emul_call EMUL_BNE = emul_bne"
| "emul_call EMUL_BPL = emul_bpl"
| "emul_call EMUL_BRA = emul_bra"
| "emul_call EMUL_BRK = emul_brk"
| "emul_call EMUL_BVC = emul_bvc"
| "emul_call EMUL_BVS = emul_bvs"
| "emul_call EMUL_CLC = emul_clc"
| "emul_call EMUL_CLD = emul_cld"
| "emul_call EMUL_CLI = emul_cli"
| "emul_call EMUL_CLV = emul_clv"
| "emul_call EMUL_CMP = emul_cmp"
| "emul_call EMUL_CPX = emul_cpx"
| "emul_call EMUL_CPY = emul_cpy"
| "emul_call EMUL_DEC = emul_dec"
| "emul_call EMUL_DEX = emul_dex"
| "emul_call EMUL_DEY = emul_dey"
| "emul_call EMUL_EOR = emul_eor"
| "emul_call EMUL_INC = emul_inc"
| "emul_call EMUL_INX = emul_inx"
| "emul_call EMUL_INY = emul_iny"
| "emul_call EMUL_JMP = emul_jmp"
| "emul_call EMUL_JSR = emul_jsr"
| "emul_call EMUL_LDA = emul_lda"
| "emul_call EMUL_LDX = emul_ldx"
| "emul_call EMUL_LDY = emul_ldy"
| "emul_call EMUL_LSR = emul_lsr"
| "emul_call EMUL_NOP = emul_nop"
| "emul_call EMUL_ORA = emul_ora"
| "emul_call EMUL_PHA = emul_pha"
| "emul_call EMUL_PHP = emul_php"
| "emul_call EMUL_PHX = emul_phx"
| "emul_call EMUL_PHY = emul_phy"
| "emul_call EMUL_PLA = emul_pla"
| "emul_call EMUL_PLP = emul_plp"
| "emul_call EMUL_PLX = emul_plx"
| "emul_call EMUL_PLY = emul_ply"
| "emul_call EMUL_RTI = emul_rti"
| "emul_call EMUL_RTS = emul_rts"
| "emul_call (EMUL_RMB bt) = emul_rmb bt"
| "emul_call EMUL_ROL = emul_rol"
| "emul_call EMUL_ROR = emul_ror"
| "emul_call EMUL_SBC = emul_sbc"
| "emul_call EMUL_SED = emul_sed"
| "emul_call EMUL_SEC = emul_sec"
| "emul_call EMUL_SEI = emul_sei"
| "emul_call (EMUL_SMB bt) = emul_smb bt"
| "emul_call EMUL_STP = emul_stp"
| "emul_call EMUL_STA = emul_sta"
| "emul_call EMUL_STX = emul_stx"
| "emul_call EMUL_STY = emul_sty"
| "emul_call EMUL_STZ = emul_stz"
| "emul_call EMUL_TAX = emul_tax"
| "emul_call EMUL_TAY = emul_tay"
| "emul_call EMUL_TRB = emul_trb"
| "emul_call EMUL_TSB = emul_tsb"
| "emul_call EMUL_TSX = emul_tsx"
| "emul_call EMUL_TXA = emul_txa"
| "emul_call EMUL_TXS = emul_txs"
| "emul_call EMUL_TYA = emul_tya"
| "emul_call EMUL_WAI = emul_wai"
| "emul_call EMUL_INVALID = emul_invalid"

end
