(* ===== verification/Disasm.thy ===== *)
theory Disasm
  imports Instruction
begin

text \<open>
  Text output: instruction and register strings, disassembly and the names of stop reasons
  (\<open>instruction.c\<close>, \<open>rk65c02.c\<close>). The \<open>printf\<close> conversions the code uses are written
  out; a string built by \<open>snprintf\<close> into a buffer of \<open>n\<close> bytes keeps \<open>n - 1\<close> characters.
\<close>

section \<open>printf conversions\<close>

definition hexdigit :: "nat \<Rightarrow> char" where
  "hexdigit n = ''0123456789abcdef'' ! n"

definition hexdigit_upper :: "nat \<Rightarrow> char" where
  "hexdigit_upper n = ''0123456789ABCDEF'' ! n"

fun hex_digits :: "(nat \<Rightarrow> char) \<Rightarrow> nat \<Rightarrow> string" where
  "hex_digits f n = (if n < 16 then [f n] else hex_digits f (n div 16) @ [f (n mod 16)])"

declare hex_digits.simps [simp del]

text \<open>\<open>%X\<close>; \<open>%02x\<close> and \<open>%#02x\<close> on a byte (the prefix is omitted for zero).\<close>

definition fmt_X :: "nat \<Rightarrow> string" where
  "fmt_X n = hex_digits hexdigit_upper n"

definition fmt_02x :: "u8 \<Rightarrow> string" where
  "fmt_02x v = [hexdigit (unat v div 16), hexdigit (unat v mod 16)]"

definition fmt_alt_02x :: "u8 \<Rightarrow> string" where
  "fmt_alt_02x v = (if v = 0 then ''00'' else ''0x'' @ hex_digits hexdigit (unat v))"

definition snprintf :: "nat \<Rightarrow> string \<Rightarrow> string" where
  "snprintf n s = take (n - 1) s"

section \<open>Instructions\<close>

abbreviation INSTR_STR_LEN :: nat where "INSTR_STR_LEN \<equiv> 24"

definition instruction_text :: "instrdef \<Rightarrow> instruction \<Rightarrow> string" where
  "instruction_text idf i =
     (let m = mnemonic idf; a = fmt_alt_02x (op1 i); w = fmt_alt_02x (op2 i) @ fmt_02x (op1 i) in
      case mode idf of
        IMPLIED \<Rightarrow> m
      | ACCUMULATOR \<Rightarrow> m @ '' A''
      | IMMEDIATE \<Rightarrow> m @ '' #'' @ a
      | ZP \<Rightarrow> m @ '' '' @ a
      | ZPX \<Rightarrow> m @ '' '' @ a @ '',X''
      | ZPY \<Rightarrow> m @ '' '' @ a @ '',Y''
      | IZP \<Rightarrow> m @ '' ('' @ a @ '')''
      | IZPX \<Rightarrow> m @ '' ('' @ a @ '',X)''
      | IZPY \<Rightarrow> m @ '' ('' @ a @ ''),Y''
      | ZPR \<Rightarrow> m @ '' '' @ a @ '','' @ fmt_alt_02x (op2 i)
      | ABSOLUTE \<Rightarrow> m @ '' '' @ w
      | ABSOLUTEX \<Rightarrow> m @ '' '' @ w @ '',X''
      | ABSOLUTEY \<Rightarrow> m @ '' '' @ w @ '',Y''
      | IABSOLUTE \<Rightarrow> m @ '' ('' @ w @ '')''
      | IABSOLUTEX \<Rightarrow> m @ '' ('' @ w @ '',X)''
      | RELATIVE \<Rightarrow> m @ '' '' @ a)"

definition instruction_string_get :: "instruction \<Rightarrow> string" where
  "instruction_string_get i =
     snprintf INSTR_STR_LEN (instruction_text (instruction_decode (opcode i)) i)"

definition disassemble ::
  "'h devhost \<Rightarrow> instruction \<Rightarrow> 'h bus \<Rightarrow> u16 \<Rightarrow> string \<times> 'h bus" where
  "disassemble H junk b addr =
     (let (i, b) = instruction_fetch H junk b addr;
          idf = instruction_decode (opcode i);
          bytes =
            (if isize idf = 1 then fmt_X (unat (id_opcode idf))
             else if isize idf = 2 then fmt_X (unat (id_opcode idf)) @ '' '' @ fmt_X (unat (op1 i))
             else if isize idf = 3 then
               fmt_X (unat (id_opcode idf)) @ '' '' @ fmt_X (unat (op1 i)) @ '' ''
               @ fmt_X (unat (op2 i))
             else '''')
      in (fmt_X (unat addr) @ '':'' @ [CHR 0x09] @ instruction_string_get i
          @ [CHR 0x09, CHR 0x09] @ ''// '' @ bytes @ [CHR 0x0A], b))"

section \<open>Registers and stop reasons\<close>

abbreviation REGS_STR_LEN :: nat where "REGS_STR_LEN \<equiv> 50"

definition flag_char :: "u8 \<Rightarrow> u8 \<Rightarrow> char \<Rightarrow> char" where
  "flag_char p m c = (if p AND m \<noteq> 0 then c else CHR ''-'')"

definition regs_text :: "reg_state \<Rightarrow> string" where
  "regs_text r =
     ''A: '' @ fmt_X (unat (rA r)) @ '' X: '' @ fmt_X (unat (rX r)) @ '' Y: '' @ fmt_X (unat (rY r))
     @ '' PC: '' @ fmt_X (unat (rPC r)) @ '' SP: '' @ fmt_X (unat (rSP r)) @ '' P: ''
     @ [flag_char (rP r) P_NEGATIVE (CHR ''N''), flag_char (rP r) P_SIGN_OVERFLOW (CHR ''V''),
        flag_char (rP r) P_UNDEFINED (CHR ''1''), flag_char (rP r) P_BREAK (CHR ''B''),
        flag_char (rP r) P_DECIMAL (CHR ''D''), flag_char (rP r) P_IRQ_DISABLE (CHR ''I''),
        flag_char (rP r) P_ZERO (CHR ''Z''), flag_char (rP r) P_CARRY (CHR ''C'')]"

definition rk65c02_regs_string_get :: "reg_state \<Rightarrow> string" where
  "rk65c02_regs_string_get r = snprintf REGS_STR_LEN (regs_text r)"

definition rk65c02_stop_reason_string :: "emu_stop_reason \<Rightarrow> string" where
  "rk65c02_stop_reason_string reason =
     (case reason of
        STP \<Rightarrow> ''STP'' | WAI \<Rightarrow> ''WAI'' | BREAKPOINT \<Rightarrow> ''BREAKPOINT''
      | WATCHPOINT \<Rightarrow> ''WATCHPOINT'' | STEPPED \<Rightarrow> ''STEPPED'' | HOST \<Rightarrow> ''HOST''
      | EMUERROR \<Rightarrow> ''EMUERROR'')"

section \<open>No string is cut\<close>

lemma hex_digits_length: "n < 16 ^ k \<Longrightarrow> 0 < k \<Longrightarrow> length (hex_digits f n) \<le> k"
proof (induction f n arbitrary: k rule: hex_digits.induct)
  case (1 f n)
  show ?case
  proof (cases "n < 16")
    case True
    with "1.prems" show ?thesis by (simp add: hex_digits.simps)
  next
    case False
    with "1.prems" obtain k' where k: "k = Suc k'" and "0 < k'"
      by (cases k; cases "k - 1") auto
    with "1.prems" have "n div 16 < 16 ^ k'" by (simp add: div_less_iff_less_mult mult.commute)
    with "1.IH" [OF False this \<open>0 < k'\<close>] False k show ?thesis
      by (simp add: hex_digits.simps [of f n])
  qed
qed

lemma fmt_X_u8_length: "length (fmt_X (unat (v :: u8))) \<le> 2"
  unfolding fmt_X_def by (rule hex_digits_length) (use u8_bound [of v] in simp_all)

lemma fmt_X_u16_length: "length (fmt_X (unat (v :: u16))) \<le> 4"
  unfolding fmt_X_def by (rule hex_digits_length) (use u16_bound [of v] in simp_all)

lemma fmt_02x_length: "length (fmt_02x v) = 2"
  by (simp add: fmt_02x_def)

lemma fmt_alt_02x_length: "length (fmt_alt_02x v) \<le> 4"
proof -
  have "length (hex_digits hexdigit (unat v)) \<le> 2"
    by (rule hex_digits_length) (use u8_bound [of v] in simp_all)
  then show ?thesis by (simp add: fmt_alt_02x_def)
qed

lemmas fmt_lengths = fmt_02x_length fmt_alt_02x_length fmt_X_u8_length fmt_X_u16_length

lemma mnemonic_length: "length (mnemonic (instruction_decode opc)) \<le> 7"
  by (rule decode_all) (simp add: instrs_def row_def)

lemma instruction_text_length:
  assumes "length (mnemonic idf) \<le> 7"
  shows "length (instruction_text idf i) \<le> 19"
  using assms fmt_alt_02x_length [of "op1 i"] fmt_alt_02x_length [of "op2 i"]
  by (cases "mode idf") (simp_all add: instruction_text_def Let_def fmt_02x_length)

lemma regs_text_length: "length (regs_text r) \<le> 45"
  using fmt_X_u8_length [of "rA r"] fmt_X_u8_length [of "rX r"] fmt_X_u8_length [of "rY r"]
    fmt_X_u8_length [of "rSP r"] fmt_X_u16_length [of "rPC r"]
  by (simp add: regs_text_def)

end
