(* ===== verification/Exec.thy ===== *)
theory Exec
  imports Emulation Disasm
begin

text \<open>
  Execution of one instruction: \<open>rk65c02_exec\<close> of \<open>rk65c02.c\<close> and
  \<open>instruction_exec_one\<close> of \<open>instruction.c\<close>.
\<close>

definition emul_dispatch :: "'h host \<Rightarrow> instrdef \<Rightarrow> instruction \<Rightarrow> 'h emu \<Rightarrow> ('h, unit) run" where
  "emul_dispatch H idf i e =
     (case emul idf of None \<Rightarrow> Abort | Some f \<Rightarrow> emul_call f H idf i e)"

text \<open>The program counter update after a handler: none when a fault asks for re-execution.\<close>

definition exec_advance :: "instrdef \<Rightarrow> 'h emu \<Rightarrow> 'h emu" where
  "exec_advance idf e =
     (if state e = STOPPED \<and> mmu_fault_reexec e then e\<lparr>mmu_fault_reexec := False\<rparr>
      else if \<not> instruction_modify_pc idf then program_counter_increment idf e
      else e)"

definition rk65c02_exec :: "'h host \<Rightarrow> 'h emu \<Rightarrow> ('h, unit) run" where
  "rk65c02_exec H e =
     (let tpc = rPC (regs e) in
      andthen (if irq e \<and> \<not> flag P_IRQ_DISABLE e then rk65c02_irq H e else Ret () e) (\<lambda>_ e.
      if debug_PC_is_breakpoint e
      then Ret () (e\<lparr>state := STOPPED, stopreason := BREAKPOINT\<rparr>)
      else
        (let e = (if runtime_disassembly e
                  then e\<lparr>bus := snd (disassemble (h_dev H) (h_uninit H) (bus e) (rPC (regs e)))\<rparr>
                  else e)
         in andthen (instruction_fetch_emu H (rPC (regs e)) e) (\<lambda>i e.
            let idf = instruction_decode (opcode i) in
            andthen (emul_dispatch H idf i e) (\<lambda>_ e.
            let e = exec_advance idf e in
            Ret () (if trace e then debug_trace_savestate tpc i e else e))))))"

definition instruction_exec_one :: "'h host \<Rightarrow> 'h emu \<Rightarrow> ('h, unit) run" where
  "instruction_exec_one H e =
     andthen (instruction_fetch_emu H (rPC (regs e)) e) (\<lambda>i e.
       let idf = instruction_decode (opcode i) in
       case emul idf of
         None \<Rightarrow> Ret () e
       | Some f \<Rightarrow> andthen (emul_call f H idf i e) (\<lambda>_ e. Ret () (exec_advance idf e)))"

lemma emul_present: "emul (instruction_decode opc) \<noteq> None"
  by (rule decode_all) (simp add: instrs_def row_def)

end
