(* ===== verification/HostControl.thy ===== *)
theory HostControl
  imports Exec
begin

text \<open>
  Host control from \<open>rk65c02.c\<close>: stop requests, the tick and idle-wait callbacks, the IRQ
  line, callback registration, and the interpreter loop that \<open>rk65c02_start\<close> and the JIT
  run loop share.
\<close>

section \<open>Polling\<close>

definition rk65c02_apply_host_stop_request :: "'h emu \<Rightarrow> 'h emu" where
  "rk65c02_apply_host_stop_request e =
     (if \<not> stop_requested e then e
      else e\<lparr>state := STOPPED, stopreason := HOST, stop_requested := False\<rparr>)"

definition rk65c02_maybe_tick :: "'h host \<Rightarrow> 'h emu \<Rightarrow> 'h emu" where
  "rk65c02_maybe_tick H e =
     (case tick e of
        None \<Rightarrow> e
      | Some f \<Rightarrow>
          if state e \<noteq> RUNNING \<and> state e \<noteq> STEPPING then e
          else if tick_interval e = 0 then h_tick H f (tick_ctx e) e
          else
            (let e = (if tick_countdown e > 0 then e\<lparr>tick_countdown := tick_countdown e - 1\<rparr> else e)
             in if tick_countdown e = 0
                then (let e = h_tick H f (tick_ctx e) e in e\<lparr>tick_countdown := tick_interval e\<rparr>)
                else e))"

definition rk65c02_can_use_jit :: "'h emu \<Rightarrow> bool" where
  "rk65c02_can_use_jit e =
     (use_jit e \<and> jit e \<noteq> None \<and> \<not> trace e \<and> \<not> runtime_disassembly e \<and> bps_head e = [])"

definition rk65c02_poll_host_controls :: "'h host \<Rightarrow> 'h emu \<Rightarrow> 'h emu" where
  "rk65c02_poll_host_controls H e =
     rk65c02_apply_host_stop_request (rk65c02_maybe_tick H (rk65c02_apply_host_stop_request e))"

definition rk65c02_maybe_wait_on_idle :: "'h host \<Rightarrow> 'h emu \<Rightarrow> bool \<times> 'h emu" where
  "rk65c02_maybe_wait_on_idle H e =
     (if \<not> idle_wait_enabled e then (False, e)
      else
        (case idle_wait e of
           None \<Rightarrow> (False, e)
         | Some f \<Rightarrow>
             if state e \<noteq> STOPPED \<or> stopreason e \<noteq> WAI then (False, e)
             else (True, rk65c02_apply_host_stop_request (h_idle_wait H f (idle_wait_ctx e) e))))"

section \<open>IRQ line and stop requests\<close>

definition rk65c02_assert_irq :: "'h emu \<Rightarrow> 'h emu" where
  "rk65c02_assert_irq e =
     (let e = e\<lparr>irq := True\<rparr> in
      if state e = STOPPED \<and> stopreason e = WAI then e\<lparr>state := RUNNING\<rparr> else e)"

definition rk65c02_deassert_irq :: "'h emu \<Rightarrow> 'h emu" where
  "rk65c02_deassert_irq e = e\<lparr>irq := False\<rparr>"

definition rk65c02_request_stop :: "'h emu \<Rightarrow> 'h emu" where
  "rk65c02_request_stop e = e\<lparr>stop_requested := True\<rparr>"

section \<open>Callback registration\<close>

definition rk65c02_on_stop_set :: "fnptr option \<Rightarrow> ptr \<Rightarrow> 'h emu \<Rightarrow> 'h emu" where
  "rk65c02_on_stop_set cb ctx e = e\<lparr>on_stop := cb, on_stop_ctx := ctx\<rparr>"

definition rk65c02_on_stop_clear :: "'h emu \<Rightarrow> 'h emu" where
  "rk65c02_on_stop_clear e = e\<lparr>on_stop := None, on_stop_ctx := 0\<rparr>"

definition rk65c02_tick_set :: "fnptr option \<Rightarrow> u32 \<Rightarrow> ptr \<Rightarrow> 'h emu \<Rightarrow> 'h emu" where
  "rk65c02_tick_set cb interval ctx e =
     e\<lparr>tick := cb, tick_ctx := ctx, tick_interval := interval, tick_countdown := interval\<rparr>"

definition rk65c02_tick_clear :: "'h emu \<Rightarrow> 'h emu" where
  "rk65c02_tick_clear e = e\<lparr>tick := None, tick_ctx := 0, tick_interval := 0, tick_countdown := 0\<rparr>"

definition rk65c02_idle_wait_set :: "fnptr option \<Rightarrow> ptr \<Rightarrow> 'h emu \<Rightarrow> 'h emu" where
  "rk65c02_idle_wait_set cb ctx e =
     e\<lparr>idle_wait := cb, idle_wait_ctx := ctx, idle_wait_enabled := (cb \<noteq> None)\<rparr>"

definition rk65c02_idle_wait_clear :: "'h emu \<Rightarrow> 'h emu" where
  "rk65c02_idle_wait_clear e =
     e\<lparr>idle_wait_enabled := False, idle_wait := None, idle_wait_ctx := 0\<rparr>"

section \<open>The interpreter loop\<close>

text \<open>
  The loop may run forever (a guest program need not stop); \<open>None\<close> is a run that does not
  return.
\<close>

partial_function (option) interp_loop :: "'h host \<Rightarrow> 'h emu \<Rightarrow> ('h, unit) run option" where
  "interp_loop H e =
     (if state e \<noteq> RUNNING then Some (Ret () e)
      else
        (let e = rk65c02_poll_host_controls H e in
         if state e \<noteq> RUNNING then
           (let (waited, e) = rk65c02_maybe_wait_on_idle H e in
            if waited then interp_loop H e else Some (Ret () e))
         else
           (case rk65c02_exec H e of
              Abort \<Rightarrow> Some Abort
            | Longjmp e \<Rightarrow> Some (Longjmp e)
            | Ret _ e \<Rightarrow>
                (let e = rk65c02_poll_host_controls H e in
                 if state e \<noteq> RUNNING then
                   (let (waited, e) = rk65c02_maybe_wait_on_idle H e in
                    if waited \<and> state e = RUNNING then interp_loop H e else Some (Ret () e))
                 else interp_loop H e))))"

section \<open>Stepping\<close>

text \<open>\<open>rk65c02_step\<close>: the loop counter bounds it, so it is a total function.\<close>

fun step_loop :: "'h host \<Rightarrow> nat \<Rightarrow> 'h emu \<Rightarrow> ('h, unit) run" where
  "step_loop H 0 e = Ret () e"
| "step_loop H (Suc n) e =
     (if state e \<noteq> STEPPING then Ret () e
      else
        (let e = rk65c02_poll_host_controls H e in
         if state e \<noteq> STEPPING then Ret () e
         else andthen (rk65c02_exec H e) (\<lambda>_ e. step_loop H n (rk65c02_poll_host_controls H e))))"

definition rk65c02_step :: "'h host \<Rightarrow> u16 \<Rightarrow> 'h emu \<Rightarrow> ('h, unit) run" where
  "rk65c02_step H steps e =
     (let e = e\<lparr>stop_requested := False, tick_countdown := tick_interval e\<rparr>;
          e = rk65c02_mmu_refresh_accessors e;
          e = e\<lparr>state := STEPPING\<rparr>
      in andthen (step_loop H (unat steps) e) (\<lambda>_ e.
         let e = rk65c02_poll_host_controls H e;
             e = (if state e = STEPPING then e\<lparr>state := STOPPED, stopreason := STEPPED\<rparr> else e)
         in Ret () (if state e = STOPPED then rk65c02_maybe_call_on_stop H e else e)))"

section \<open>Reasoning about the loop\<close>

lemma wait_refused: "\<not> fst (rk65c02_maybe_wait_on_idle H e) \<Longrightarrow> snd (rk65c02_maybe_wait_on_idle H e) = e"
  by (auto simp: rk65c02_maybe_wait_on_idle_def split: option.splits if_splits)

text \<open>An invariant of polling, waiting and single steps is an invariant of the loop.\<close>

lemma interp_loop_post:
  fixes H :: "'a host"
  assumes poll: "\<And>e. I e \<Longrightarrow> I (rk65c02_poll_host_controls H e)"
    and wait: "\<And>e. I e \<Longrightarrow> I (snd (rk65c02_maybe_wait_on_idle H e))"
    and exec: "\<And>e. I e \<Longrightarrow> state e = RUNNING \<Longrightarrow> post (\<lambda>_. I) L (rk65c02_exec H e)"
    and run: "interp_loop H e = Some r" and e: "I e"
  shows "post (\<lambda>_ e'. I e' \<and> state e' \<noteq> RUNNING) L r"
proof -
  let ?ok = "post (\<lambda>_ e'. I e' \<and> state e' \<noteq> RUNNING) L"
  let ?P = "\<lambda>H' e r. H' = H \<longrightarrow> I e \<longrightarrow> ?ok r"
  have "?P H e r"
  proof (rule interp_loop.raw_induct [OF _ run, of ?P], intro impI)
    fix loop :: "'a host \<Rightarrow> 'a emu \<Rightarrow> ('a, unit) run option" and H' e r
    assume IH: "\<And>H e r. loop H e = Some r \<Longrightarrow> ?P H e r" and H: "H' = H" and e: "I e"
    assume body: "(if state e \<noteq> RUNNING then Some (Ret () e)
      else let e = rk65c02_poll_host_controls H' e
           in if state e \<noteq> RUNNING
              then let (waited, e) = rk65c02_maybe_wait_on_idle H' e
                   in if waited then loop H' e else Some (Ret () e)
              else case rk65c02_exec H' e of
                   Abort \<Rightarrow> Some Abort | Longjmp e \<Rightarrow> Some (Longjmp e)
                 | Ret _ e \<Rightarrow> let e = rk65c02_poll_host_controls H' e
                     in if state e \<noteq> RUNNING
                        then let (waited, e) = rk65c02_maybe_wait_on_idle H' e
                             in if waited \<and> state e = RUNNING then loop H' e else Some (Ret () e)
                        else loop H' e) = Some r"
    show "?ok r"
    proof (cases "state e = RUNNING \<and> state (rk65c02_poll_host_controls H e) = RUNNING")
      case False
      with body IH e poll [of e] wait [of "rk65c02_poll_host_controls H e"] show ?thesis
        using wait_refused [of H "rk65c02_poll_host_controls H e"]
        by (auto simp: H Let_def case_prod_beta split: if_splits)
    next
      case True
      let ?x = "rk65c02_exec H (rk65c02_poll_host_controls H e)"
      have x: "post (\<lambda>_. I) L ?x" using exec [OF poll [OF e]] True by simp
      show ?thesis
      proof (cases ?x)
        case (Ret u e2)
        with x have "I e2" by simp
        with body IH True Ret poll [of e2] wait [of "rk65c02_poll_host_controls H e2"] show ?thesis
          using wait_refused [of H "rk65c02_poll_host_controls H e2"]
          by (auto simp: H Let_def case_prod_beta split: if_splits)
      next
        case (Longjmp e2)
        with x body True show ?thesis by (auto simp: H Let_def Longjmp)
      next
        case Abort
        with x show ?thesis by simp
      qed
    qed
  qed
  with e show ?thesis by simp
qed

end
