(* ===== verification/JitEmit.thy ===== *)
theory JitEmit
  imports HostControl
begin

text \<open>
  The native code of a block: the GNU Lightning instructions that \<open>jit_emit_insn\<close> of
  \<open>jit.c\<close> and its helpers emit, and what those instructions do. Lightning turns each into
  machine code; its documented meaning is written out here for a 64-bit host. Registers hold
  64-bit words or one of the two pointers the code uses.
\<close>

section \<open>Lightning instructions\<close>

datatype jit_reg = JIT_R0 | JIT_R1 | JIT_R2 | JIT_V0 | JIT_V1 | JIT_V2

datatype jit_val = Word u64 | Emu_ptr | Stats_ptr

text \<open>The offsets into \<open>struct rk65c02emu\<close> that native code uses.\<close>

datatype emu_field =
    OFFSET_E_STATE | OFFSET_E_USE_JIT | OFFSET_E_IRQ | OFFSET_E_STOP_REQUESTED
  | OFFSET_E_LOOP_BUDGET | OFFSET_E_PC | OFFSET_E_P | OFFSET_E_A | OFFSET_E_X | OFFSET_E_Y
  | OFFSET_E_SP

text \<open>The C functions that native code calls.\<close>

datatype jit_fun =
    FN_jit_mem_read_1 | FN_jit_bus_write_1 | FN_rk65c02_do_adc_bcd | FN_rk65c02_do_sbc_bcd
  | FN_jit_exec_fallback

datatype jit_arg = Pushargr jit_reg | Pushargi u64

text \<open>
  Where a branch goes: a \<open>jit_node_t *\<close> variable that a later \<open>jit_patch\<close> binds (numbered
  within one instruction), the label of an instruction of the block, or the return at the end
  of the block where all bail-outs are patched to.
\<close>

datatype jit_target = Node nat | Label nat | Block_end

text \<open>
  \<open>jit_prepare\<close>, the argument pushes and \<open>jit_finishi\<close> of a call are one instruction.
  \<open>Movi_stats\<close> is the \<open>jit_movi\<close> that loads the address of the instruction counter.
\<close>

datatype jit_op =
    Ldxi_uc jit_reg jit_reg emu_field | Ldxi_us jit_reg jit_reg emu_field
  | Ldxi_i jit_reg jit_reg emu_field
  | Stxi_c emu_field jit_reg jit_reg | Stxi_s emu_field jit_reg jit_reg
  | Stxi_i emu_field jit_reg jit_reg
  | Ldr jit_reg jit_reg | Str jit_reg jit_reg
  | Movi jit_reg u64 | Movi_stats jit_reg | Movr jit_reg jit_reg
  | Addi jit_reg jit_reg u64 | Subi jit_reg jit_reg u64 | Andi jit_reg jit_reg u64
  | Ori jit_reg jit_reg u64 | Xori jit_reg jit_reg u64
  | Lshi jit_reg jit_reg nat | Rshi_u jit_reg jit_reg nat | Eqi jit_reg jit_reg u64
  | Addr jit_reg jit_reg jit_reg | Subr jit_reg jit_reg jit_reg | Andr jit_reg jit_reg jit_reg
  | Orr jit_reg jit_reg jit_reg | Xorr jit_reg jit_reg jit_reg
  | Finishi jit_fun "jit_arg list" | Retval jit_reg
  | Beqi jit_reg u64 jit_target | Bnei jit_reg u64 jit_target | Blei jit_reg u64 jit_target
  | Bltr_u jit_reg jit_reg jit_target | Bmci jit_reg u64 jit_target
  | Bmsi jit_reg u64 jit_target | Jmpi jit_target | Patch nat

section \<open>Emission helpers\<close>

definition jit_emit_advance_pc :: "u8 \<Rightarrow> jit_op list" where
  "jit_emit_advance_pc sz =
     [Ldxi_us JIT_R1 JIT_R0 OFFSET_E_PC,
      Addi JIT_R1 JIT_R1 (ucast sz),
      Stxi_s OFFSET_E_PC JIT_R0 JIT_R1]"

definition jit_emit_update_zn :: "jit_op list" where
  "jit_emit_update_zn =
     [Ldxi_uc JIT_R2 JIT_R0 OFFSET_E_P,
      Andi JIT_R2 JIT_R2 (NOT (ucast (P_ZERO OR P_NEGATIVE))),
      Bnei JIT_R1 0 (Node 10),
      Ori JIT_R2 JIT_R2 (ucast P_ZERO),
      Patch 10,
      Bmci JIT_R1 0x80 (Node 11),
      Ori JIT_R2 JIT_R2 (ucast P_NEGATIVE),
      Patch 11,
      Stxi_c OFFSET_E_P JIT_R0 JIT_R2]"

definition jit_emit_bus_read :: "jit_op list" where
  "jit_emit_bus_read =
     [Finishi FN_jit_mem_read_1 [Pushargr JIT_R0, Pushargr JIT_R1],
      Retval JIT_R1,
      Andi JIT_R1 JIT_R1 0xFF,
      Movr JIT_R0 JIT_V0]"

definition jit_emit_bus_write :: "jit_op list" where
  "jit_emit_bus_write =
     [Finishi FN_jit_bus_write_1 [Pushargr JIT_R0, Pushargr JIT_R1, Pushargr JIT_R2],
      Movr JIT_R0 JIT_V0]"

text \<open>The branch is the node that \<open>jit_emit_insn\<close> returns as a bail-out.\<close>

definition jit_emit_bail_if_jit_disabled :: "jit_op list" where
  "jit_emit_bail_if_jit_disabled =
     [Ldxi_uc JIT_R1 JIT_R0 OFFSET_E_USE_JIT,
      Beqi JIT_R1 0 Block_end]"

definition jit_emit_backedge_guard :: "nat \<Rightarrow> jit_op list" where
  "jit_emit_backedge_guard span_insns =
     [Ldxi_i JIT_R1 JIT_R0 OFFSET_E_LOOP_BUDGET,
      Subi JIT_R1 JIT_R1 1,
      Stxi_i OFFSET_E_LOOP_BUDGET JIT_R0 JIT_R1,
      Blei JIT_R1 0 Block_end,
      Ldxi_uc JIT_R1 JIT_R0 OFFSET_E_STOP_REQUESTED,
      Bnei JIT_R1 0 Block_end,
      Ldxi_uc JIT_R1 JIT_R0 OFFSET_E_IRQ,
      Bnei JIT_R1 0 Block_end,
      Movi_stats JIT_R2,
      Ldr JIT_R1 JIT_R2,
      Addi JIT_R1 JIT_R1 (of_nat span_insns),
      Str JIT_R2 JIT_R1]"

definition jit_emit_effaddr :: "jit_block_insn \<Rightarrow> jit_op list option" where
  "jit_emit_effaddr bi =
     (let op1 = op1 (bi_i bi); op2 = op2 (bi_i bi);
          word = ucast op1 OR push_bit 8 (ucast op2) :: u64;
          pointer =
            Movi JIT_R1 (ucast op1) # jit_emit_bus_read @
            [Movr JIT_V1 JIT_R1,
             Movi JIT_R1 (ucast (op1 + 1))] @ jit_emit_bus_read @
            [Lshi JIT_R1 JIT_R1 8,
             Orr JIT_R1 JIT_R1 JIT_V1]
      in case mode (bi_id bi) of
           IMMEDIATE \<Rightarrow> Some [Movi JIT_R1 (ucast op1)]
         | ZP \<Rightarrow> Some [Movi JIT_R1 (ucast op1)]
         | ZPX \<Rightarrow> Some [Ldxi_uc JIT_R1 JIT_R0 OFFSET_E_X, Addi JIT_R1 JIT_R1 (ucast op1),
                        Andi JIT_R1 JIT_R1 0xFF]
         | ZPY \<Rightarrow> Some [Ldxi_uc JIT_R1 JIT_R0 OFFSET_E_Y, Addi JIT_R1 JIT_R1 (ucast op1),
                        Andi JIT_R1 JIT_R1 0xFF]
         | ABSOLUTE \<Rightarrow> Some [Movi JIT_R1 word]
         | ABSOLUTEX \<Rightarrow> Some [Ldxi_uc JIT_R1 JIT_R0 OFFSET_E_X, Addi JIT_R1 JIT_R1 word]
         | ABSOLUTEY \<Rightarrow> Some [Ldxi_uc JIT_R1 JIT_R0 OFFSET_E_Y, Addi JIT_R1 JIT_R1 word]
         | IZP \<Rightarrow> Some pointer
         | IZPX \<Rightarrow>
             Some ([Ldxi_uc JIT_R2 JIT_R0 OFFSET_E_X, Addi JIT_R2 JIT_R2 (ucast op1),
                    Andi JIT_R2 JIT_R2 0xFF, Movr JIT_R1 JIT_R2] @ jit_emit_bus_read @
                   [Movr JIT_V1 JIT_R1, Ldxi_uc JIT_R2 JIT_R0 OFFSET_E_X,
                    Addi JIT_R2 JIT_R2 (ucast op1 + 1), Andi JIT_R1 JIT_R2 0xFF] @
                   jit_emit_bus_read @
                   [Lshi JIT_R1 JIT_R1 8, Orr JIT_R1 JIT_R1 JIT_V1])
         | IZPY \<Rightarrow>
             Some (pointer @ [Ldxi_uc JIT_R2 JIT_R0 OFFSET_E_Y, Addr JIT_R1 JIT_R1 JIT_R2])
         | ACCUMULATOR \<Rightarrow> Some []
         | _ \<Rightarrow> None)"

definition jit_emit_load_operand :: "jit_block_insn \<Rightarrow> jit_op list option" where
  "jit_emit_load_operand bi =
     (case jit_emit_effaddr bi of
        None \<Rightarrow> None
      | Some code \<Rightarrow>
          Some (if mode (bi_id bi) \<noteq> IMMEDIATE then code @ jit_emit_bus_read else code))"

section \<open>One instruction\<close>

text \<open>
  \<open>jit_emit_insn\<close> is one \<open>switch\<close> over the opcode. Each group of cases is a definition
  that gives the code of the group's opcodes, and \<open>None\<close> for other opcodes and where the
  code leaves the \<open>switch\<close> through \<open>break\<close>.
\<close>

definition jit_emit_nop :: "jit_block_insn \<Rightarrow> jit_op list option" where
  "jit_emit_nop bi =
     (if opcode (bi_i bi) = 0xEA then Some (jit_emit_advance_pc (isize (bi_id bi))) else None)"

definition jit_emit_flags :: "jit_block_insn \<Rightarrow> jit_op list option" where
  "jit_emit_flags bi =
     (let opc = opcode (bi_i bi); sz = isize (bi_id bi);
          clear = (\<lambda>m. Some ([Ldxi_uc JIT_R1 JIT_R0 OFFSET_E_P, Andi JIT_R1 JIT_R1 (NOT (ucast m)),
                              Stxi_c OFFSET_E_P JIT_R0 JIT_R1] @ jit_emit_advance_pc sz));
          put = (\<lambda>m. Some ([Ldxi_uc JIT_R1 JIT_R0 OFFSET_E_P, Ori JIT_R1 JIT_R1 (ucast m),
                            Stxi_c OFFSET_E_P JIT_R0 JIT_R1] @ jit_emit_advance_pc sz))
      in if opc = 0x18 then clear P_CARRY
         else if opc = 0x38 then put P_CARRY
         else if opc = 0x58 then clear P_IRQ_DISABLE
         else if opc = 0x78 then put P_IRQ_DISABLE
         else if opc = 0xB8 then clear P_SIGN_OVERFLOW
         else if opc = 0xD8 then clear P_DECIMAL
         else if opc = 0xF8 then put P_DECIMAL
         else None)"

definition jit_emit_transfer :: "jit_block_insn \<Rightarrow> jit_op list option" where
  "jit_emit_transfer bi =
     (let opc = opcode (bi_i bi); sz = isize (bi_id bi);
          move = (\<lambda>src dst. Some ([Ldxi_uc JIT_R1 JIT_R0 src, Stxi_c dst JIT_R0 JIT_R1] @
                                   jit_emit_update_zn @ jit_emit_advance_pc sz))
      in if opc = 0xAA then move OFFSET_E_A OFFSET_E_X
         else if opc = 0xA8 then move OFFSET_E_A OFFSET_E_Y
         else if opc = 0x8A then move OFFSET_E_X OFFSET_E_A
         else if opc = 0x98 then move OFFSET_E_Y OFFSET_E_A
         else if opc = 0xBA then move OFFSET_E_SP OFFSET_E_X
         else if opc = 0x9A
         then Some ([Ldxi_uc JIT_R1 JIT_R0 OFFSET_E_X, Stxi_c OFFSET_E_SP JIT_R0 JIT_R1] @
                    jit_emit_advance_pc sz)
         else None)"

definition jit_emit_incdec :: "jit_block_insn \<Rightarrow> jit_op list option" where
  "jit_emit_incdec bi =
     (let opc = opcode (bi_i bi); sz = isize (bi_id bi);
          inc = (\<lambda>r. Some ([Ldxi_uc JIT_R1 JIT_R0 r, Addi JIT_R1 JIT_R1 1, Andi JIT_R1 JIT_R1 0xFF,
                            Stxi_c r JIT_R0 JIT_R1] @ jit_emit_update_zn @ jit_emit_advance_pc sz));
          dec = (\<lambda>r. Some ([Ldxi_uc JIT_R1 JIT_R0 r, Subi JIT_R1 JIT_R1 1, Andi JIT_R1 JIT_R1 0xFF,
                            Stxi_c r JIT_R0 JIT_R1] @ jit_emit_update_zn @ jit_emit_advance_pc sz))
      in if opc = 0xE8 then inc OFFSET_E_X
         else if opc = 0xCA then dec OFFSET_E_X
         else if opc = 0xC8 then inc OFFSET_E_Y
         else if opc = 0x88 then dec OFFSET_E_Y
         else if opc = 0x1A then inc OFFSET_E_A
         else if opc = 0x3A then dec OFFSET_E_A
         else None)"

definition jit_emit_load :: "jit_block_insn \<Rightarrow> jit_op list option" where
  "jit_emit_load bi =
     (let opc = opcode (bi_i bi); sz = isize (bi_id bi);
          load = (\<lambda>r. map_option (\<lambda>c. c @ [Stxi_c r JIT_R0 JIT_R1] @ jit_emit_update_zn @
                                       jit_emit_advance_pc sz) (jit_emit_load_operand bi))
      in if opc \<in> set [0xA9, 0xA5, 0xB5, 0xAD, 0xBD, 0xB9, 0xA1, 0xB1, 0xB2] then load OFFSET_E_A
         else if opc \<in> set [0xA2, 0xA6, 0xB6, 0xAE, 0xBE] then load OFFSET_E_X
         else if opc \<in> set [0xA0, 0xA4, 0xB4, 0xAC, 0xBC] then load OFFSET_E_Y
         else None)"

definition jit_emit_store :: "jit_block_insn \<Rightarrow> jit_op list option" where
  "jit_emit_store bi =
     (let opc = opcode (bi_i bi); sz = isize (bi_id bi);
          store = (\<lambda>val. map_option (\<lambda>c. c @ [val] @ jit_emit_bus_write @ jit_emit_advance_pc sz @
                                         jit_emit_bail_if_jit_disabled) (jit_emit_effaddr bi))
      in if opc \<in> set [0x85, 0x95, 0x8D, 0x9D, 0x99, 0x81, 0x91, 0x92]
         then store (Ldxi_uc JIT_R2 JIT_R0 OFFSET_E_A)
         else if opc \<in> set [0x86, 0x96, 0x8E] then store (Ldxi_uc JIT_R2 JIT_R0 OFFSET_E_X)
         else if opc \<in> set [0x84, 0x94, 0x8C] then store (Ldxi_uc JIT_R2 JIT_R0 OFFSET_E_Y)
         else if opc \<in> set [0x64, 0x74, 0x9C, 0x9E] then store (Movi JIT_R2 0)
         else None)"

definition jit_emit_logic :: "jit_block_insn \<Rightarrow> jit_op list option" where
  "jit_emit_logic bi =
     (let opc = opcode (bi_i bi); sz = isize (bi_id bi);
          alu = (\<lambda>f. map_option (\<lambda>c. c @ [Ldxi_uc JIT_R2 JIT_R0 OFFSET_E_A, f JIT_R1 JIT_R2 JIT_R1,
                                       Stxi_c OFFSET_E_A JIT_R0 JIT_R1] @ jit_emit_update_zn @
                                       jit_emit_advance_pc sz) (jit_emit_load_operand bi))
      in if opc \<in> set [0x29, 0x25, 0x35, 0x2D, 0x3D, 0x39, 0x21, 0x31, 0x32] then alu Andr
         else if opc \<in> set [0x09, 0x05, 0x15, 0x0D, 0x1D, 0x19, 0x01, 0x11, 0x12] then alu Orr
         else if opc \<in> set [0x49, 0x45, 0x55, 0x4D, 0x5D, 0x59, 0x41, 0x51, 0x52] then alu Xorr
         else None)"

text \<open>
  The two arithmetic cases have the same code but for the helper called in decimal mode and
  the complement of the operand that SBC starts its binary path with.
\<close>

definition jit_emit_sum :: "jit_fun \<Rightarrow> jit_op list \<Rightarrow> u8 \<Rightarrow> jit_op list" where
  "jit_emit_sum helper operand sz =
     [Ldxi_uc JIT_R2 JIT_R0 OFFSET_E_P,
      Andi JIT_R2 JIT_R2 (ucast P_DECIMAL),
      Beqi JIT_R2 0 (Node 0),
      Finishi helper [Pushargr JIT_R0, Pushargr JIT_R1],
      Movr JIT_R0 JIT_V0] @ jit_emit_advance_pc sz @
     [Jmpi (Node 1),
      Patch 0] @ operand @
     [Movr JIT_V1 JIT_R1,
      Ldxi_uc JIT_R2 JIT_R0 OFFSET_E_A,
      Movr JIT_V2 JIT_R2,
      Addr JIT_R1 JIT_R2 JIT_R1,
      Ldxi_uc JIT_R2 JIT_R0 OFFSET_E_P,
      Andi JIT_R2 JIT_R2 (ucast P_CARRY),
      Beqi JIT_R2 0 (Node 2),
      Addi JIT_R1 JIT_R1 1,
      Patch 2,
      Movr JIT_R2 JIT_R1,
      Andi JIT_R2 JIT_R2 0x100,
      Andi JIT_R1 JIT_R1 0xFF,
      Xorr JIT_V2 JIT_V2 JIT_R1,
      Xorr JIT_V1 JIT_V1 JIT_R1,
      Andr JIT_V2 JIT_V2 JIT_V1,
      Andi JIT_V2 JIT_V2 0x80,
      Ldxi_uc JIT_V1 JIT_R0 OFFSET_E_P,
      Andi JIT_V1 JIT_V1 (NOT (ucast (P_CARRY OR P_SIGN_OVERFLOW))),
      Beqi JIT_R2 0 (Node 3),
      Ori JIT_V1 JIT_V1 (ucast P_CARRY),
      Patch 3,
      Beqi JIT_V2 0 (Node 4),
      Ori JIT_V1 JIT_V1 (ucast P_SIGN_OVERFLOW),
      Patch 4,
      Stxi_c OFFSET_E_P JIT_R0 JIT_V1,
      Stxi_c OFFSET_E_A JIT_R0 JIT_R1] @ jit_emit_update_zn @ jit_emit_advance_pc sz @
     [Patch 1]"

definition jit_emit_adc :: "jit_block_insn \<Rightarrow> jit_op list option" where
  "jit_emit_adc bi =
     (if opcode (bi_i bi) \<in> set [0x69, 0x65, 0x75, 0x6D, 0x7D, 0x79, 0x61, 0x71, 0x72]
      then map_option (\<lambda>c. c @ jit_emit_sum FN_rk65c02_do_adc_bcd [] (isize (bi_id bi)))
             (jit_emit_load_operand bi)
      else None)"

definition jit_emit_sbc :: "jit_block_insn \<Rightarrow> jit_op list option" where
  "jit_emit_sbc bi =
     (if opcode (bi_i bi) \<in> set [0xE9, 0xE5, 0xF5, 0xED, 0xFD, 0xF9, 0xE1, 0xF1, 0xF2]
      then map_option (\<lambda>c. c @ jit_emit_sum FN_rk65c02_do_sbc_bcd [Xori JIT_R1 JIT_R1 0xFF]
                              (isize (bi_id bi)))
             (jit_emit_load_operand bi)
      else None)"

definition jit_emit_compare :: "jit_block_insn \<Rightarrow> jit_op list option" where
  "jit_emit_compare bi =
     (let opc = opcode (bi_i bi); sz = isize (bi_id bi);
          compare = (\<lambda>r. map_option (\<lambda>c. c @
            [Ldxi_uc JIT_R2 JIT_R0 r,
             Ldxi_uc JIT_V1 JIT_R0 OFFSET_E_P,
             Andi JIT_V1 JIT_V1 (NOT (ucast (P_CARRY OR P_ZERO OR P_NEGATIVE))),
             Bltr_u JIT_R2 JIT_R1 (Node 0),
             Ori JIT_V1 JIT_V1 (ucast P_CARRY),
             Patch 0,
             Subr JIT_R1 JIT_R2 JIT_R1,
             Andi JIT_R1 JIT_R1 0xFF,
             Bnei JIT_R1 0 (Node 1),
             Ori JIT_V1 JIT_V1 (ucast P_ZERO),
             Patch 1,
             Bmci JIT_R1 0x80 (Node 2),
             Ori JIT_V1 JIT_V1 (ucast P_NEGATIVE),
             Patch 2,
             Stxi_c OFFSET_E_P JIT_R0 JIT_V1] @ jit_emit_advance_pc sz) (jit_emit_load_operand bi))
      in if opc \<in> set [0xC9, 0xC5, 0xD5, 0xCD, 0xDD, 0xD9, 0xC1, 0xD1, 0xD2] then compare OFFSET_E_A
         else if opc \<in> set [0xE0, 0xE4, 0xEC] then compare OFFSET_E_X
         else if opc \<in> set [0xC0, 0xC4, 0xCC] then compare OFFSET_E_Y
         else None)"

definition jit_emit_incdec_mem :: "jit_block_insn \<Rightarrow> jit_op list option" where
  "jit_emit_incdec_mem bi =
     (let opc = opcode (bi_i bi); sz = isize (bi_id bi);
          rmw = (\<lambda>f. map_option (\<lambda>c. c @
            [Movr JIT_V1 JIT_R1] @ jit_emit_bus_read @
            [f JIT_R1 JIT_R1 1,
             Andi JIT_R1 JIT_R1 0xFF,
             Movr JIT_V2 JIT_R1,
             Movr JIT_R2 JIT_R1,
             Movr JIT_R1 JIT_V1] @ jit_emit_bus_write @
            [Movr JIT_R1 JIT_V2] @ jit_emit_update_zn @ jit_emit_advance_pc sz @
            jit_emit_bail_if_jit_disabled) (jit_emit_effaddr bi))
      in if opc \<in> set [0xE6, 0xF6, 0xEE, 0xFE] then rmw Addi
         else if opc \<in> set [0xC6, 0xD6, 0xCE, 0xDE] then rmw Subi
         else None)"

text \<open>Shifts of the accumulator: the bit that goes to the carry, then the shift itself.\<close>

definition jit_emit_shift_acc :: "jit_block_insn \<Rightarrow> jit_op list option" where
  "jit_emit_shift_acc bi =
     (let opc = opcode (bi_i bi); sz = isize (bi_id bi);
          load = [Ldxi_uc JIT_R1 JIT_R0 OFFSET_E_A, Ldxi_uc JIT_R2 JIT_R0 OFFSET_E_P];
          carry = (\<lambda>m. [Andi JIT_R2 JIT_R2 (NOT (ucast P_CARRY)),
                        Bmci JIT_R1 m (Node 0),
                        Ori JIT_R2 JIT_R2 (ucast P_CARRY),
                        Patch 0,
                        Stxi_c OFFSET_E_P JIT_R0 JIT_R2]);
          finish = [Stxi_c OFFSET_E_A JIT_R0 JIT_R1] @ jit_emit_update_zn @ jit_emit_advance_pc sz
      in if opc = 0x0A
         then Some (load @ carry 0x80 @
                    [Lshi JIT_R1 JIT_R1 1, Andi JIT_R1 JIT_R1 0xFF] @ finish)
         else if opc = 0x4A then Some (load @ carry 0x01 @ [Rshi_u JIT_R1 JIT_R1 1] @ finish)
         else if opc = 0x2A
         then Some (load @ [Andi JIT_V1 JIT_R2 (ucast P_CARRY)] @ carry 0x80 @
                    [Lshi JIT_R1 JIT_R1 1, Orr JIT_R1 JIT_R1 JIT_V1, Andi JIT_R1 JIT_R1 0xFF] @
                    finish)
         else if opc = 0x6A
         then Some (load @ [Andi JIT_V1 JIT_R2 (ucast P_CARRY), Lshi JIT_V1 JIT_V1 7] @
                    carry 0x01 @ [Rshi_u JIT_R1 JIT_R1 1, Orr JIT_R1 JIT_R1 JIT_V1] @ finish)
         else None)"

definition jit_emit_shift_mem :: "jit_block_insn \<Rightarrow> jit_op list option" where
  "jit_emit_shift_mem bi =
     (let opc = opcode (bi_i bi); sz = isize (bi_id bi);
          load = [Movr JIT_V1 JIT_R1] @ jit_emit_bus_read @ [Ldxi_uc JIT_R2 JIT_R0 OFFSET_E_P];
          carry = (\<lambda>m. [Andi JIT_R2 JIT_R2 (NOT (ucast P_CARRY)),
                        Bmci JIT_R1 m (Node 0),
                        Ori JIT_R2 JIT_R2 (ucast P_CARRY),
                        Patch 0,
                        Stxi_c OFFSET_E_P JIT_R0 JIT_R2]);
          finish = [Movr JIT_V2 JIT_R1] @ jit_emit_update_zn @
                   [Movr JIT_R1 JIT_V1, Movr JIT_R2 JIT_V2] @ jit_emit_bus_write @
                   jit_emit_advance_pc sz @ jit_emit_bail_if_jit_disabled;
          rmw = (\<lambda>c. map_option (\<lambda>ea. ea @ c) (jit_emit_effaddr bi))
      in if opc \<in> set [0x06, 0x16, 0x0E, 0x1E]
         then rmw (load @ carry 0x80 @ [Lshi JIT_R1 JIT_R1 1, Andi JIT_R1 JIT_R1 0xFF] @ finish)
         else if opc \<in> set [0x46, 0x56, 0x4E, 0x5E]
         then rmw (load @ carry 0x01 @ [Rshi_u JIT_R1 JIT_R1 1] @ finish)
         else if opc \<in> set [0x26, 0x36, 0x2E, 0x3E]
         then rmw (load @ [Andi JIT_V2 JIT_R2 (ucast P_CARRY)] @ carry 0x80 @
                   [Lshi JIT_R1 JIT_R1 1, Orr JIT_R1 JIT_R1 JIT_V2, Andi JIT_R1 JIT_R1 0xFF] @
                   finish)
         else if opc \<in> set [0x66, 0x76, 0x6E, 0x7E]
         then rmw (load @ [Andi JIT_V2 JIT_R2 (ucast P_CARRY), Lshi JIT_V2 JIT_V2 7] @ carry 0x01 @
                   [Rshi_u JIT_R1 JIT_R1 1, Orr JIT_R1 JIT_R1 JIT_V2] @ finish)
         else None)"

definition jit_emit_bit :: "jit_block_insn \<Rightarrow> jit_op list option" where
  "jit_emit_bit bi =
     (let opc = opcode (bi_i bi); sz = isize (bi_id bi) in
      if opc \<in> set [0x89, 0x24, 0x34, 0x2C, 0x3C]
      then map_option (\<lambda>c. c @
        [Ldxi_uc JIT_R2 JIT_R0 OFFSET_E_A,
         Ldxi_uc JIT_V1 JIT_R0 OFFSET_E_P,
         Andi JIT_V1 JIT_V1 (if opc = 0x89 then ucast (NOT P_ZERO)
                             else ucast (NOT (P_ZERO OR P_NEGATIVE OR P_SIGN_OVERFLOW))),
         Andr JIT_R2 JIT_R2 JIT_R1,
         Bnei JIT_R2 0 (Node 0),
         Ori JIT_V1 JIT_V1 (ucast P_ZERO),
         Patch 0] @
        (if opc \<noteq> 0x89 then
           [Bmci JIT_R1 0x80 (Node 1),
            Ori JIT_V1 JIT_V1 (ucast P_NEGATIVE),
            Patch 1,
            Bmci JIT_R1 0x40 (Node 2),
            Ori JIT_V1 JIT_V1 (ucast P_SIGN_OVERFLOW),
            Patch 2]
         else []) @
        [Stxi_c OFFSET_E_P JIT_R0 JIT_V1] @ jit_emit_advance_pc sz) (jit_emit_load_operand bi)
      else None)"

text \<open>The bit number of the RMB, SMB, BBR and BBS opcodes.\<close>

definition opcode_bit :: "u8 \<Rightarrow> nat" where
  "opcode_bit opc = unat (drop_bit 4 opc AND 0x07)"

definition jit_emit_bitmem :: "jit_block_insn \<Rightarrow> jit_op list option" where
  "jit_emit_bitmem bi =
     (let opc = opcode (bi_i bi); sz = isize (bi_id bi);
          rmw = (\<lambda>f mask. map_option (\<lambda>c. c @
            [Movr JIT_V1 JIT_R1] @ jit_emit_bus_read @
            [f JIT_R2 JIT_R1 (ucast (mask :: u8)),
             Movr JIT_R1 JIT_V1] @ jit_emit_bus_write @ jit_emit_advance_pc sz @
            jit_emit_bail_if_jit_disabled) (jit_emit_effaddr bi))
      in if opc \<in> set [0x07, 0x17, 0x27, 0x37, 0x47, 0x57, 0x67, 0x77]
         then rmw Andi (NOT (push_bit (opcode_bit opc) 1))
         else if opc \<in> set [0x87, 0x97, 0xA7, 0xB7, 0xC7, 0xD7, 0xE7, 0xF7]
         then rmw Ori (push_bit (opcode_bit opc) 1)
         else None)"

definition jit_emit_testbits :: "jit_block_insn \<Rightarrow> jit_op list option" where
  "jit_emit_testbits bi =
     (let opc = opcode (bi_i bi); sz = isize (bi_id bi); is_trb = (opc = 0x14 \<or> opc = 0x1C) in
      if opc \<in> set [0x14, 0x1C, 0x04, 0x0C]
      then map_option (\<lambda>c. c @
        [Movr JIT_V1 JIT_R1] @ jit_emit_bus_read @
        [Movr JIT_V2 JIT_R1,
         Ldxi_uc JIT_R2 JIT_R0 OFFSET_E_P,
         Andi JIT_R2 JIT_R2 (ucast (NOT P_ZERO)),
         Ldxi_uc JIT_R1 JIT_R0 OFFSET_E_A,
         Andr JIT_R1 JIT_R1 JIT_V2,
         Bnei JIT_R1 0 (Node 0),
         Ori JIT_R2 JIT_R2 (ucast P_ZERO),
         Patch 0,
         Stxi_c OFFSET_E_P JIT_R0 JIT_R2,
         Ldxi_uc JIT_R2 JIT_R0 OFFSET_E_A] @
        (if is_trb then [Xori JIT_R2 JIT_R2 0xFF, Andr JIT_R2 JIT_V2 JIT_R2]
         else [Orr JIT_R2 JIT_V2 JIT_R2]) @
        [Movr JIT_R1 JIT_V1] @ jit_emit_bus_write @ jit_emit_advance_pc sz @
        jit_emit_bail_if_jit_disabled) (jit_emit_effaddr bi)
      else None)"

definition jit_emit_bitbranch :: "jit_block_insn \<Rightarrow> jit_op list option" where
  "jit_emit_bitbranch bi =
     (let opc = opcode (bi_i bi); sz = isize (bi_id bi);
          mask = push_bit (opcode_bit opc) 1 :: u8;
          rel = op2 (bi_i bi)
      in if opc \<in> set [0x0F, 0x1F, 0x2F, 0x3F, 0x4F, 0x5F, 0x6F, 0x7F,
                     0x8F, 0x9F, 0xAF, 0xBF, 0xCF, 0xDF, 0xEF, 0xFF]
         then Some (
           [Movi JIT_R1 (ucast (op1 (bi_i bi)))] @ jit_emit_bus_read @
           [if opc AND 0x80 \<noteq> 0 then Bmsi JIT_R1 (ucast mask) (Node 0)
            else Bmci JIT_R1 (ucast mask) (Node 0)] @
           jit_emit_advance_pc sz @
           [Jmpi (Node 1),
            Patch 0,
            Ldxi_us JIT_R1 JIT_R0 OFFSET_E_PC,
            Addi JIT_R1 JIT_R1 (ucast sz + scast rel),
            Andi JIT_R1 JIT_R1 0xFFFF,
            Stxi_s OFFSET_E_PC JIT_R0 JIT_R1,
            Patch 1])
         else None)"

definition jit_emit_push :: "jit_block_insn \<Rightarrow> jit_op list option" where
  "jit_emit_push bi =
     (let opc = opcode (bi_i bi); sz = isize (bi_id bi);
          reg_off = (if opc = 0x48 then OFFSET_E_A else if opc = 0xDA then OFFSET_E_X
                     else if opc = 0x5A then OFFSET_E_Y else OFFSET_E_P)
      in if opc \<in> set [0x48, 0xDA, 0x5A, 0x08]
         then Some (
           [Ldxi_uc JIT_R2 JIT_R0 OFFSET_E_SP,
            Addi JIT_R1 JIT_R2 0x100,
            Ldxi_uc JIT_R2 JIT_R0 reg_off] @
           (if opc = 0x08 then [Ori JIT_R2 JIT_R2 (ucast (P_BREAK OR P_UNDEFINED))] else []) @
           jit_emit_bus_write @
           [Ldxi_uc JIT_R1 JIT_R0 OFFSET_E_SP,
            Subi JIT_R1 JIT_R1 1,
            Andi JIT_R1 JIT_R1 0xFF,
            Stxi_c OFFSET_E_SP JIT_R0 JIT_R1] @ jit_emit_advance_pc sz @
           jit_emit_bail_if_jit_disabled)
         else None)"

text \<open>The increment of SP and the read that the three pull cases and RTS share.\<close>

definition jit_emit_pop :: "jit_op list" where
  "jit_emit_pop =
     [Ldxi_uc JIT_R1 JIT_R0 OFFSET_E_SP,
      Addi JIT_R1 JIT_R1 1,
      Andi JIT_R1 JIT_R1 0xFF,
      Stxi_c OFFSET_E_SP JIT_R0 JIT_R1,
      Addi JIT_R1 JIT_R1 0x100] @ jit_emit_bus_read"

definition jit_emit_pull :: "jit_block_insn \<Rightarrow> jit_op list option" where
  "jit_emit_pull bi =
     (let opc = opcode (bi_i bi); sz = isize (bi_id bi);
          reg_off = (if opc = 0x68 then OFFSET_E_A else if opc = 0xFA then OFFSET_E_X
                     else OFFSET_E_Y)
      in if opc \<in> set [0x68, 0xFA, 0x7A]
         then Some (jit_emit_pop @ [Stxi_c reg_off JIT_R0 JIT_R1] @ jit_emit_update_zn @
                    jit_emit_advance_pc sz)
         else if opc = 0x28
         then Some (jit_emit_pop @
                    [Ori JIT_R1 JIT_R1 (ucast P_UNDEFINED),
                     Andi JIT_R1 JIT_R1 (NOT (ucast P_BREAK)),
                     Stxi_c OFFSET_E_P JIT_R0 JIT_R1] @ jit_emit_advance_pc sz)
         else None)"

definition jit_emit_bra :: "jit_block_insn \<Rightarrow> jit_op list option" where
  "jit_emit_bra bi =
     (if opcode (bi_i bi) = 0x80
      then Some [Ldxi_us JIT_R1 JIT_R0 OFFSET_E_PC,
                 Addi JIT_R1 JIT_R1 (ucast (isize (bi_id bi)) + scast (op1 (bi_i bi))),
                 Andi JIT_R1 JIT_R1 0xFFFF,
                 Stxi_s OFFSET_E_PC JIT_R0 JIT_R1]
      else None)"

text \<open>
  The loop that looks for the branch target among the instruction addresses of the block;
  \<open>None\<close> is -1.
\<close>

fun target_index :: "u16 \<Rightarrow> nat \<Rightarrow> u16 list \<Rightarrow> nat option" where
  "target_index target t [] = None"
| "target_index target t (a # as) =
     (if a = target then Some t else target_index target (t + 1) as)"

definition jit_emit_branch :: "u16 list \<Rightarrow> nat \<Rightarrow> jit_block_insn \<Rightarrow> jit_op list option" where
  "jit_emit_branch insn_addr k bi =
     (let opc = opcode (bi_i bi); sz = isize (bi_id bi);
          target = insn_addr ! k + ucast sz + scast (op1 (bi_i bi));
          code = (\<lambda>taken.
            [Ldxi_uc JIT_R1 JIT_R0 OFFSET_E_P,
             taken (Node 0)] @ jit_emit_advance_pc sz @
            [Jmpi (Node 1),
             Patch 0,
             Movi JIT_R1 (ucast target),
             Stxi_s OFFSET_E_PC JIT_R0 JIT_R1] @
            (case target_index target 0 insn_addr of
               None \<Rightarrow> [Jmpi Block_end]
             | Some tidx \<Rightarrow>
                 (if tidx \<le> k then jit_emit_backedge_guard (k - tidx + 1) else []) @
                 [Jmpi (Label tidx)]) @
            [Patch 1])
      in if opc = 0x90 then Some (code (Bmci JIT_R1 (ucast P_CARRY)))
         else if opc = 0xB0 then Some (code (Bmsi JIT_R1 (ucast P_CARRY)))
         else if opc = 0xF0 then Some (code (Bmsi JIT_R1 (ucast P_ZERO)))
         else if opc = 0xD0 then Some (code (Bmci JIT_R1 (ucast P_ZERO)))
         else if opc = 0x30 then Some (code (Bmsi JIT_R1 (ucast P_NEGATIVE)))
         else if opc = 0x10 then Some (code (Bmci JIT_R1 (ucast P_NEGATIVE)))
         else if opc = 0x70 then Some (code (Bmsi JIT_R1 (ucast P_SIGN_OVERFLOW)))
         else if opc = 0x50 then Some (code (Bmci JIT_R1 (ucast P_SIGN_OVERFLOW)))
         else None)"

definition jit_emit_jump :: "jit_block_insn \<Rightarrow> jit_op list option" where
  "jit_emit_jump bi =
     (let opc = opcode (bi_i bi);
          addr = ucast (op1 (bi_i bi)) OR push_bit 8 (ucast (op2 (bi_i bi))) :: u16
      in if opc = 0x4C
         then Some [Movi JIT_R1 (ucast addr), Stxi_s OFFSET_E_PC JIT_R0 JIT_R1]
         else if opc = 0x6C
         then Some (
           [Movi JIT_R1 (ucast addr)] @ jit_emit_bus_read @
           [Movr JIT_V1 JIT_R1,
            Movi JIT_R1 (ucast (addr + 1))] @ jit_emit_bus_read @
           [Lshi JIT_R1 JIT_R1 8,
            Orr JIT_R1 JIT_R1 JIT_V1,
            Stxi_s OFFSET_E_PC JIT_R0 JIT_R1])
         else None)"

definition jit_emit_subroutine :: "jit_block_insn \<Rightarrow> jit_op list option" where
  "jit_emit_subroutine bi =
     (let opc = opcode (bi_i bi);
          jumpaddr = ucast (op1 (bi_i bi)) OR push_bit 8 (ucast (op2 (bi_i bi))) :: u16
      in if opc = 0x20
         then Some (
           [Ldxi_us JIT_R1 JIT_R0 OFFSET_E_PC,
            Addi JIT_R1 JIT_R1 2,
            Andi JIT_R1 JIT_R1 0xFFFF,
            Movr JIT_V2 JIT_R1,
            Ldxi_uc JIT_R2 JIT_R0 OFFSET_E_SP,
            Addi JIT_R1 JIT_R2 0x100,
            Rshi_u JIT_R2 JIT_V2 8] @ jit_emit_bus_write @
           [Ldxi_uc JIT_R1 JIT_R0 OFFSET_E_SP,
            Subi JIT_R1 JIT_R1 1,
            Andi JIT_R1 JIT_R1 0xFF,
            Stxi_c OFFSET_E_SP JIT_R0 JIT_R1,
            Addi JIT_R1 JIT_R1 0x100,
            Andi JIT_V2 JIT_V2 0xFF,
            Movr JIT_R2 JIT_V2] @ jit_emit_bus_write @
           [Ldxi_uc JIT_R1 JIT_R0 OFFSET_E_SP,
            Subi JIT_R1 JIT_R1 1,
            Andi JIT_R1 JIT_R1 0xFF,
            Stxi_c OFFSET_E_SP JIT_R0 JIT_R1,
            Movi JIT_R1 (ucast jumpaddr),
            Stxi_s OFFSET_E_PC JIT_R0 JIT_R1] @ jit_emit_bail_if_jit_disabled)
         else if opc = 0x60
         then Some (
           jit_emit_pop @ [Movr JIT_V1 JIT_R1] @ jit_emit_pop @
           [Lshi JIT_R1 JIT_R1 8,
            Orr JIT_R1 JIT_R1 JIT_V1,
            Addi JIT_R1 JIT_R1 1,
            Andi JIT_R1 JIT_R1 0xFFFF,
            Stxi_s OFFSET_E_PC JIT_R0 JIT_R1])
         else None)"

text \<open>The fallback after the \<open>switch\<close>: one instruction in the interpreter.\<close>

definition jit_emit_fallback :: "jit_block_insn \<Rightarrow> jit_op list" where
  "jit_emit_fallback bi =
     [Movr JIT_R0 JIT_V0,
      Finishi FN_jit_exec_fallback [Pushargr JIT_R0, Pushargi (ucast (opcode (bi_i bi)))],
      Movr JIT_R0 JIT_V0] @
     (if modify_pc (bi_id bi) then [Jmpi Block_end]
      else [Ldxi_i JIT_R1 JIT_R0 OFFSET_E_STATE,
            Eqi JIT_R1 JIT_R1 1,
            Ldxi_uc JIT_R2 JIT_R0 OFFSET_E_USE_JIT,
            Andr JIT_R1 JIT_R1 JIT_R2,
            Beqi JIT_R1 0 Block_end])"

definition jit_emit_groups :: "u16 list \<Rightarrow> nat \<Rightarrow> jit_block_insn \<Rightarrow> jit_op list option list" where
  "jit_emit_groups insn_addr k bi =
     [jit_emit_nop bi, jit_emit_flags bi, jit_emit_transfer bi, jit_emit_incdec bi,
      jit_emit_load bi, jit_emit_store bi, jit_emit_logic bi, jit_emit_adc bi,
      jit_emit_compare bi, jit_emit_sbc bi, jit_emit_incdec_mem bi, jit_emit_shift_acc bi,
      jit_emit_shift_mem bi, jit_emit_bit bi, jit_emit_bitmem bi, jit_emit_testbits bi,
      jit_emit_bitbranch bi, jit_emit_push bi, jit_emit_pull bi, jit_emit_bra bi,
      jit_emit_branch insn_addr k bi, jit_emit_jump bi, jit_emit_subroutine bi]"

definition jit_emit_insn :: "u16 list \<Rightarrow> nat \<Rightarrow> jit_block_insn \<Rightarrow> jit_op list" where
  "jit_emit_insn insn_addr k bi =
     (case find (\<lambda>c. c \<noteq> None) (jit_emit_groups insn_addr k bi) of
        Some (Some code) \<Rightarrow> code
      | _ \<Rightarrow> jit_emit_fallback bi)"

section \<open>A block\<close>

fun insn_addrs :: "u16 \<Rightarrow> jit_block_insn list \<Rightarrow> u16 list" where
  "insn_addrs a [] = []"
| "insn_addrs a (bi # insns) = a # insn_addrs (a + ucast (isize (bi_id bi))) insns"

text \<open>The code of each instruction of a block, in order; \<open>Label k\<close> is the start of the kth.\<close>

definition jit_emit_block :: "u16 \<Rightarrow> jit_block_insn list \<Rightarrow> jit_op list list" where
  "jit_emit_block pc insns =
     map (\<lambda>k. jit_emit_insn (insn_addrs pc insns) k (insns ! k)) [0..<length insns]"

end
