(* ===== verification/JitNative.thy ===== *)
theory JitNative
  imports JitEmit
begin

text \<open>
  What native code does: a machine with Lightning's registers and the emulator in memory, the
  effect of each instruction on it, and the run of a block's code from its entry to its return.
\<close>

section \<open>The machine\<close>

record 'h mach =
  mr :: "jit_reg \<Rightarrow> jit_val"
  mret :: u64
  memu :: "'h emu"

definition jit_mem_read_1 :: "'h host \<Rightarrow> u16 \<Rightarrow> 'h emu \<Rightarrow> ('h, u8) run" where
  "jit_mem_read_1 H addr e = rk65c02_mem_read_1 H addr e"

definition jit_bus_write_1 :: "'h host \<Rightarrow> u16 \<Rightarrow> u8 \<Rightarrow> 'h emu \<Rightarrow> ('h, unit) run" where
  "jit_bus_write_1 H addr val e = rk65c02_mem_write_1 H addr val e"

definition jit_exec_fallback :: "'h host \<Rightarrow> u8 \<Rightarrow> 'h emu \<Rightarrow> ('h, unit) run" where
  "jit_exec_fallback H opc e = rk65c02_exec H e"

text \<open>
  Loads and stores of the emulator's fields by width. A field read or written at another width
  than its own has no meaning here (\<open>None\<close>). The 32-bit load is the sign-extending one.
\<close>

fun load_uc :: "emu_field \<Rightarrow> 'h emu \<Rightarrow> u64 option" where
  "load_uc OFFSET_E_P e = Some (ucast (rP (regs e)))"
| "load_uc OFFSET_E_A e = Some (ucast (rA (regs e)))"
| "load_uc OFFSET_E_X e = Some (ucast (rX (regs e)))"
| "load_uc OFFSET_E_Y e = Some (ucast (rY (regs e)))"
| "load_uc OFFSET_E_SP e = Some (ucast (rSP (regs e)))"
| "load_uc OFFSET_E_USE_JIT e = Some (of_bool (use_jit e))"
| "load_uc OFFSET_E_IRQ e = Some (of_bool (irq e))"
| "load_uc OFFSET_E_STOP_REQUESTED e = Some (of_bool (stop_requested e))"
| "load_uc _ e = None"

fun load_us :: "emu_field \<Rightarrow> 'h emu \<Rightarrow> u64 option" where
  "load_us OFFSET_E_PC e = Some (ucast (rPC (regs e)))"
| "load_us _ e = None"

text \<open>The values of \<open>emu_state_t\<close>, in order from zero.\<close>

definition state_num :: "emu_state \<Rightarrow> u64" where
  "state_num s = (case s of STOPPED \<Rightarrow> 0 | RUNNING \<Rightarrow> 1 | STEPPING \<Rightarrow> 2)"

fun load_i :: "emu_field \<Rightarrow> 'h emu \<Rightarrow> u64 option" where
  "load_i OFFSET_E_STATE e = Some (state_num (state e))"
| "load_i OFFSET_E_LOOP_BUDGET e = Some (scast (jit_loop_budget e))"
| "load_i _ e = None"

fun store_c :: "emu_field \<Rightarrow> u64 \<Rightarrow> 'h emu \<Rightarrow> 'h emu option" where
  "store_c OFFSET_E_P w e = Some (set_P (ucast w) e)"
| "store_c OFFSET_E_A w e = Some (set_A (ucast w) e)"
| "store_c OFFSET_E_X w e = Some (set_X (ucast w) e)"
| "store_c OFFSET_E_Y w e = Some (set_Y (ucast w) e)"
| "store_c OFFSET_E_SP w e = Some (set_SP (ucast w) e)"
| "store_c _ w e = None"

fun store_s :: "emu_field \<Rightarrow> u64 \<Rightarrow> 'h emu \<Rightarrow> 'h emu option" where
  "store_s OFFSET_E_PC w e = Some (set_PC (ucast w) e)"
| "store_s _ w e = None"

fun store_i :: "emu_field \<Rightarrow> u64 \<Rightarrow> 'h emu \<Rightarrow> 'h emu option" where
  "store_i OFFSET_E_LOOP_BUDGET w e = Some (e\<lparr>jit_loop_budget := ucast w\<rparr>)"
| "store_i _ w e = None"

text \<open>The instruction counter behind the statistics pointer.\<close>

definition load_stat :: "'h emu \<Rightarrow> u64 option" where
  "load_stat e = map_option (\<lambda>j. insns_executed (stats j)) (jit e)"

definition store_stat :: "u64 \<Rightarrow> 'h emu \<Rightarrow> 'h emu" where
  "store_stat w e = e\<lparr>jit := map_option (\<lambda>j. j\<lparr>stats := (stats j)\<lparr>insns_executed := w\<rparr>\<rparr>) (jit e)\<rparr>"

section \<open>Instructions\<close>

text \<open>
  An instruction that uses a pointer as a number or a number as a pointer has no meaning here;
  it ends the run like a failed assertion.
\<close>

type_synonym ('h, 'a) mrun = "('h mach, 'a) outcome"

fun use_word :: "jit_val \<Rightarrow> (u64 \<Rightarrow> ('s, 'a) outcome) \<Rightarrow> ('s, 'a) outcome" where
  "use_word (Word w) f = f w"
| "use_word _ f = Abort"

fun use_emu :: "jit_val \<Rightarrow> ('s, 'a) outcome \<Rightarrow> ('s, 'a) outcome" where
  "use_emu Emu_ptr m = m"
| "use_emu _ m = Abort"

fun use_stats :: "jit_val \<Rightarrow> ('s, 'a) outcome \<Rightarrow> ('s, 'a) outcome" where
  "use_stats Stats_ptr m = m"
| "use_stats _ m = Abort"

fun use_some :: "'v option \<Rightarrow> ('v \<Rightarrow> ('s, 'a) outcome) \<Rightarrow> ('s, 'a) outcome" where
  "use_some (Some v) f = f v"
| "use_some None f = Abort"

definition put_reg :: "jit_reg \<Rightarrow> jit_val \<Rightarrow> 'h mach \<Rightarrow> 'h mach" where
  "put_reg r v m = m\<lparr>mr := (mr m)(r := v)\<rparr>"

definition put_emu :: "'h emu \<Rightarrow> 'h mach \<Rightarrow> 'h mach" where
  "put_emu e m = m\<lparr>memu := e\<rparr>"

text \<open>
  Calls. Lightning's \<open>JIT_R\<close> registers are not preserved by a call, its \<open>JIT_V\<close> registers
  are. Arguments are cut to the parameter's type by the callee; of the returned word only the
  bits of the return type are defined.
\<close>

definition clobber :: "'h host \<Rightarrow> 'h mach \<Rightarrow> 'h mach" where
  "clobber H m =
     m\<lparr>mr := (mr m)(JIT_R0 := Word (h_scratch H 0 (memu m)), JIT_R1 := Word (h_scratch H 1 (memu m)),
                    JIT_R2 := Word (h_scratch H 2 (memu m)))\<rparr>"

definition ret_u8 :: "'h host \<Rightarrow> u8 \<Rightarrow> 'h emu \<Rightarrow> u64" where
  "ret_u8 H v e = (h_scratch H 3 e AND NOT 0xFF) OR ucast v"

definition on_emu :: "'h mach \<Rightarrow> ('h, 'a) run \<Rightarrow> ('h, 'a) mrun" where
  "on_emu m r =
     (case r of Ret v e \<Rightarrow> Ret v (put_emu e m) | Longjmp e \<Rightarrow> Longjmp (put_emu e m) | Abort \<Rightarrow> Abort)"

fun arg_val :: "'h mach \<Rightarrow> jit_arg \<Rightarrow> jit_val" where
  "arg_val m (Pushargr r) = mr m r"
| "arg_val m (Pushargi w) = Word w"

fun jit_call :: "'h host \<Rightarrow> jit_fun \<Rightarrow> jit_val list \<Rightarrow> 'h mach \<Rightarrow> ('h, unit) mrun" where
  "jit_call H FN_jit_mem_read_1 [a, b] m =
     use_emu a (use_word b (\<lambda>w.
       andthen (on_emu m (jit_mem_read_1 H (ucast w) (memu m))) (\<lambda>v m.
         Ret () (clobber H (m\<lparr>mret := ret_u8 H v (memu m)\<rparr>)))))"
| "jit_call H FN_jit_bus_write_1 [a, b, c] m =
     use_emu a (use_word b (\<lambda>w. use_word c (\<lambda>v.
       andthen (on_emu m (jit_bus_write_1 H (ucast w) (ucast v) (memu m))) (\<lambda>_ m.
         Ret () (clobber H (m\<lparr>mret := h_scratch H 3 (memu m)\<rparr>))))))"
| "jit_call H FN_rk65c02_do_adc_bcd [a, b] m =
     use_emu a (use_word b (\<lambda>w.
       let m = put_emu (rk65c02_do_adc_bcd (ucast w) (memu m)) m
       in Ret () (clobber H (m\<lparr>mret := h_scratch H 3 (memu m)\<rparr>))))"
| "jit_call H FN_rk65c02_do_sbc_bcd [a, b] m =
     use_emu a (use_word b (\<lambda>w.
       let m = put_emu (rk65c02_do_sbc_bcd (ucast w) (memu m)) m
       in Ret () (clobber H (m\<lparr>mret := h_scratch H 3 (memu m)\<rparr>))))"
| "jit_call H FN_jit_exec_fallback [a, b] m =
     use_emu a (use_word b (\<lambda>w.
       andthen (on_emu m (jit_exec_fallback H (ucast w) (memu m))) (\<lambda>_ m.
         Ret () (clobber H (m\<lparr>mret := h_scratch H 3 (memu m)\<rparr>)))))"
| "jit_call H _ _ m = Abort"

text \<open>The effect of one instruction, and the target when it branches.\<close>

abbreviation alu_imm ::
  "(u64 \<Rightarrow> u64) \<Rightarrow> jit_reg \<Rightarrow> jit_reg \<Rightarrow> 'h mach \<Rightarrow> ('h, jit_target option) mrun" where
  "alu_imm f d s m \<equiv> use_word (mr m s) (\<lambda>w. Ret None (put_reg d (Word (f w)) m))"

abbreviation alu_reg ::
  "(u64 \<Rightarrow> u64 \<Rightarrow> u64) \<Rightarrow> jit_reg \<Rightarrow> jit_reg \<Rightarrow> jit_reg \<Rightarrow> 'h mach \<Rightarrow> ('h, jit_target option) mrun" where
  "alu_reg f d s t m \<equiv>
     use_word (mr m s) (\<lambda>v. use_word (mr m t) (\<lambda>w. Ret None (put_reg d (Word (f v w)) m)))"

abbreviation branch_if :: "bool \<Rightarrow> jit_target \<Rightarrow> 'h mach \<Rightarrow> ('h, jit_target option) mrun" where
  "branch_if c t m \<equiv> (if c then Ret (Some t) m else Ret None m)"

primrec jit_step :: "'h host \<Rightarrow> jit_op \<Rightarrow> 'h mach \<Rightarrow> ('h, jit_target option) mrun" where
  "jit_step H (Ldxi_uc d b f) m =
     use_emu (mr m b) (use_some (load_uc f (memu m)) (\<lambda>w. Ret None (put_reg d (Word w) m)))"
| "jit_step H (Ldxi_us d b f) m =
     use_emu (mr m b) (use_some (load_us f (memu m)) (\<lambda>w. Ret None (put_reg d (Word w) m)))"
| "jit_step H (Ldxi_i d b f) m =
     use_emu (mr m b) (use_some (load_i f (memu m)) (\<lambda>w. Ret None (put_reg d (Word w) m)))"
| "jit_step H (Stxi_c f b s) m =
     use_emu (mr m b) (use_word (mr m s) (\<lambda>w.
       use_some (store_c f w (memu m)) (\<lambda>e. Ret None (put_emu e m))))"
| "jit_step H (Stxi_s f b s) m =
     use_emu (mr m b) (use_word (mr m s) (\<lambda>w.
       use_some (store_s f w (memu m)) (\<lambda>e. Ret None (put_emu e m))))"
| "jit_step H (Stxi_i f b s) m =
     use_emu (mr m b) (use_word (mr m s) (\<lambda>w.
       use_some (store_i f w (memu m)) (\<lambda>e. Ret None (put_emu e m))))"
| "jit_step H (Ldr d b) m =
     use_stats (mr m b) (use_some (load_stat (memu m)) (\<lambda>w. Ret None (put_reg d (Word w) m)))"
| "jit_step H (Str b s) m =
     use_stats (mr m b) (use_word (mr m s) (\<lambda>w. Ret None (put_emu (store_stat w (memu m)) m)))"
| "jit_step H (Movi d w) m = Ret None (put_reg d (Word w) m)"
| "jit_step H (Movi_stats d) m = Ret None (put_reg d Stats_ptr m)"
| "jit_step H (Movr d s) m = Ret None (put_reg d (mr m s) m)"
| "jit_step H (Addi d s i) m = alu_imm (\<lambda>w. w + i) d s m"
| "jit_step H (Subi d s i) m = alu_imm (\<lambda>w. w - i) d s m"
| "jit_step H (Andi d s i) m = alu_imm (\<lambda>w. w AND i) d s m"
| "jit_step H (Ori d s i) m = alu_imm (\<lambda>w. w OR i) d s m"
| "jit_step H (Xori d s i) m = alu_imm (\<lambda>w. w XOR i) d s m"
| "jit_step H (Lshi d s n) m = alu_imm (push_bit n) d s m"
| "jit_step H (Rshi_u d s n) m = alu_imm (drop_bit n) d s m"
| "jit_step H (Eqi d s i) m = alu_imm (\<lambda>w. of_bool (w = i)) d s m"
| "jit_step H (Addr d s t) m = alu_reg (+) d s t m"
| "jit_step H (Subr d s t) m = alu_reg (-) d s t m"
| "jit_step H (Andr d s t) m = alu_reg (AND) d s t m"
| "jit_step H (Orr d s t) m = alu_reg (OR) d s t m"
| "jit_step H (Xorr d s t) m = alu_reg (XOR) d s t m"
| "jit_step H (Finishi f as) m = andthen (jit_call H f (map (arg_val m) as) m) (\<lambda>_ m. Ret None m)"
| "jit_step H (Retval d) m = Ret None (put_reg d (Word (mret m)) m)"
| "jit_step H (Beqi s i t) m = use_word (mr m s) (\<lambda>w. branch_if (w = i) t m)"
| "jit_step H (Bnei s i t) m = use_word (mr m s) (\<lambda>w. branch_if (w \<noteq> i) t m)"
| "jit_step H (Blei s i t) m = use_word (mr m s) (\<lambda>w. branch_if (w \<le>s i) t m)"
| "jit_step H (Bltr_u s r t) m =
     use_word (mr m s) (\<lambda>v. use_word (mr m r) (\<lambda>w. branch_if (v < w) t m))"
| "jit_step H (Bmci s i t) m = use_word (mr m s) (\<lambda>w. branch_if (w AND i = 0) t m)"
| "jit_step H (Bmsi s i t) m = use_word (mr m s) (\<lambda>w. branch_if (w AND i \<noteq> 0) t m)"
| "jit_step H (Jmpi t) m = Ret (Some t) m"
| "jit_step H (Patch n) m = Ret None m"

section \<open>Code\<close>

text \<open>The code after the patch that a branch node lands at.\<close>

primrec after :: "nat \<Rightarrow> jit_op list \<Rightarrow> jit_op list" where
  "after n [] = []"
| "after n (x # xs) = (if x = Patch n then xs else after n xs)"

lemma after_length: "length (after n xs) \<le> length xs"
  by (induction xs) auto

text \<open>
  How the code of an instruction ends: it runs into the next instruction, jumps to the label
  of one, or leaves the block.
\<close>

datatype jit_exit = Fall | Goto nat | Leave_block

function (sequential) run_code :: "'h host \<Rightarrow> jit_op list \<Rightarrow> 'h mach \<Rightarrow> ('h, jit_exit) mrun" where
  "run_code H [] m = Ret Fall m"
| "run_code H (x # xs) m =
     (case jit_step H x m of
        Abort \<Rightarrow> Abort
      | Longjmp m \<Rightarrow> Longjmp m
      | Ret None m \<Rightarrow> run_code H xs m
      | Ret (Some (Node n)) m \<Rightarrow> run_code H (after n xs) m
      | Ret (Some (Label k)) m \<Rightarrow> Ret (Goto k) m
      | Ret (Some Block_end) m \<Rightarrow> Ret Leave_block m)"
  by pat_completeness auto
termination
  by (relation "measure (\<lambda>(H, xs, m). length xs)") (auto simp: after_length less_Suc_eq_le)

text \<open>
  A block runs from its first instruction. Backward branches may repeat instructions;
  \<open>None\<close> is a run that does not return.
\<close>

partial_function (option) run_block ::
  "'h host \<Rightarrow> jit_op list list \<Rightarrow> nat \<Rightarrow> 'h mach \<Rightarrow> ('h, unit) mrun option" where
  "run_block H codes k m =
     (if k \<ge> length codes then Some (Ret () m)
      else
        (case run_code H (codes ! k) m of
           Abort \<Rightarrow> Some Abort
         | Longjmp m \<Rightarrow> Some (Longjmp m)
         | Ret Fall m \<Rightarrow> run_block H codes (k + 1) m
         | Ret (Goto t) m \<Rightarrow> run_block H codes t m
         | Ret Leave_block m \<Rightarrow> Some (Ret () m)))"

definition leave_mach :: "('h, 'a) mrun \<Rightarrow> ('h, 'a) run" where
  "leave_mach r =
     (case r of Ret v m \<Rightarrow> Ret v (memu m) | Longjmp m \<Rightarrow> Longjmp (memu m) | Abort \<Rightarrow> Abort)"

text \<open>The function \<open>b->fn\<close>: the prolog fetches the argument and the code runs.\<close>

definition enter_mach :: "'h host \<Rightarrow> 'h emu \<Rightarrow> 'h mach" where
  "enter_mach H e =
     \<lparr>mr = (\<lambda>r. case r of JIT_R0 \<Rightarrow> Emu_ptr | JIT_V0 \<Rightarrow> Emu_ptr | JIT_R1 \<Rightarrow> Word (h_scratch H 1 e)
            | JIT_R2 \<Rightarrow> Word (h_scratch H 2 e) | JIT_V1 \<Rightarrow> Word (h_scratch H 4 e)
            | JIT_V2 \<Rightarrow> Word (h_scratch H 5 e)),
      mret = h_scratch H 3 e, memu = e\<rparr>"

definition jit_native :: "'h host \<Rightarrow> u16 \<Rightarrow> jit_block_insn list \<Rightarrow> 'h emu \<Rightarrow> ('h, unit) run option" where
  "jit_native H pc insns e =
     map_option leave_mach (run_block H (jit_emit_block pc insns) 0 (enter_mach H e))"

end
