(* ===== verification/JitRun.thy ===== *)
theory JitRun
  imports JitNative
begin

text \<open>
  Block building, block compilation and the JIT run loop of \<open>jit.c\<close>, and
  \<open>rk65c02_start\<close>: which instructions a block holds, when blocks are compiled, reused and
  invalidated, and how the run loop handles faults and write events. Running the native code of
  a block is \<open>jit_native\<close>.
\<close>

section \<open>Building a block\<close>

definition jit_opcode_is_cond_branch :: "u8 \<Rightarrow> bool" where
  "jit_opcode_is_cond_branch opc =
     (opc \<in> set [0x10, 0x30, 0x50, 0x70, 0x90, 0xB0, 0xD0, 0xF0])"

fun jit_build_loop ::
  "'h host \<Rightarrow> u16 \<Rightarrow> nat \<Rightarrow> u16 \<Rightarrow> jit_block_insn list \<Rightarrow> 'h emu \<Rightarrow>
   ('h, jit_block_insn list) run" where
  "jit_build_loop H start 0 pc acc e = Ret acc e"
| "jit_build_loop H start (Suc n) pc acc e =
     (if hi8 pc \<noteq> hi8 start then Ret acc e
      else andthen (instruction_fetch_emu H pc e) (\<lambda>i e.
        if state e \<noteq> RUNNING then Ret acc e
        else
          (let idf = instruction_decode (opcode i) in
           if hi8 (pc + ucast (isize idf) - 1) \<noteq> hi8 start then Ret acc e
           else
             (let acc = acc @ [\<lparr>bi_i = i, bi_id = idf\<rparr>] in
              if jit_opcode_is_cond_branch (opcode i)
              then jit_build_loop H start n (pc + ucast (isize idf)) acc e
              else if instruction_modify_pc idf \<or> opcode i = 0x60 then Ret acc e
              else if opcode i = 0xDB \<or> opcode i = 0xCB then Ret acc e
              else jit_build_loop H start n (pc + ucast (isize idf)) acc e))))"

definition jit_build_block_insns ::
  "'h host \<Rightarrow> u16 \<Rightarrow> nat \<Rightarrow> 'h emu \<Rightarrow> ('h, jit_block_insn list) run" where
  "jit_build_block_insns H start max_insns e = jit_build_loop H start max_insns start [] e"

section \<open>Compiling a block\<close>

definition jit_block_new :: "u16 \<Rightarrow> jit_block" where
  "jit_block_new pc =
     \<lparr>start_pc = pc, end_pc_exclusive = pc, mmu_phys_page_valid = False, mmu_phys_page = 0,
      mmu_phys_byte_cov = False, mmu_phys_start = 0, num_insns = 0, fn = None,
      lightning_state = False\<rparr>"

definition insns_end :: "u16 \<Rightarrow> jit_block_insn list \<Rightarrow> u16" where
  "insns_end pc insns = fold (\<lambda>bi a. a + ucast (isize (bi_id bi))) insns pc"

definition jit_block_phys_tag ::
  "'h host \<Rightarrow> u16 \<Rightarrow> u16 \<Rightarrow> jit_block \<Rightarrow> 'h emu \<Rightarrow> jit_block \<times> 'h emu" where
  "jit_block_phys_tag H pc block_end b e =
     (let b = b\<lparr>mmu_phys_page_valid := False, mmu_phys_byte_cov := False, mmu_phys_start := 0\<rparr> in
      if mmu_enabled e \<and> \<not> mmu_identity_active e then
        (case jit_translate_paddr H pc MMU_FETCH e of
           (None, e) \<Rightarrow> (b, e)
         | (Some phys_start, e) \<Rightarrow>
             (let b = b\<lparr>mmu_phys_page_valid := True, mmu_phys_page := hi8 phys_start,
                        mmu_phys_start := phys_start\<rparr> in
              if phys_start AND 0xFF = pc AND 0xFF \<and> block_end \<noteq> pc then
                (case jit_translate_paddr H (block_end - 1) MMU_FETCH e of
                   (None, e) \<Rightarrow> (b, e)
                 | (Some phys_last, e) \<Rightarrow>
                     (if phys_last = phys_start + (block_end - pc) - 1
                      then (b\<lparr>mmu_phys_byte_cov := True\<rparr>, e) else (b, e)))
              else (b, e)))
      else (b, e))"

text \<open>
  \<open>jit_compile_block\<close>; the result is the block pointer (\<open>None\<close> is \<open>NULL\<close>). The emulator
  must have a JIT state.
\<close>

definition jit_put_block :: "u16 \<Rightarrow> jit_block \<Rightarrow> 'h emu \<Rightarrow> 'h emu" where
  "jit_put_block pc b e =
     (case jit e of
        None \<Rightarrow> e
      | Some j \<Rightarrow> e\<lparr>jit := Some (j\<lparr>blocks := (blocks j)(pc := Some b)\<rparr>)\<rparr>)"

definition jit_publish :: "jit_block \<Rightarrow> rk65c02_jit \<Rightarrow> rk65c02_jit" where
  "jit_publish b j =
     (let j = jit_block_page_refs_update True b j in
      j\<lparr>active_blocks := active_blocks j + 1,
        stats := (stats j)\<lparr>blocks_compiled := blocks_compiled (stats j) + 1\<rparr>\<rparr>)"

definition jit_compile_block :: "'h host \<Rightarrow> u16 \<Rightarrow> 'h emu \<Rightarrow> ('h, jit_block option) run" where
  "jit_compile_block H pc e =
     (case jit e of
        None \<Rightarrow> Ret None e
      | Some j \<Rightarrow>
          if magic j \<noteq> JIT_MAGIC then Ret None e
          else
            (let b = (case blocks j pc of None \<Rightarrow> jit_block_new pc | Some b \<Rightarrow> b);
                 e = jit_put_block pc b e
             in if fn b \<noteq> None then Ret (Some b) e
                else andthen (jit_build_block_insns H pc JIT_BLOCK_MAX_INSNS e) (\<lambda>insns e.
                  if insns = [] then Ret None e
                  else
                    (let block_end = insns_end pc insns;
                         b = b\<lparr>end_pc_exclusive := block_end\<rparr>;
                         (b, e) = jit_block_phys_tag H pc block_end b e;
                         b = b\<lparr>lightning_state := True,
                               fn := (if h_emit_ok H insns then Some insns else None)\<rparr>;
                         b = (if fn b \<noteq> None then b\<lparr>num_insns := of_nat (length insns)\<rparr> else b);
                         e = jit_put_block pc b e;
                         e = (if fn b \<noteq> None then e\<lparr>jit := map_option (jit_publish b) (jit e)\<rparr> else e)
                     in Ret (Some b) e))))"

section \<open>Pending write events\<close>

definition jit_pending_event :: "nat \<Rightarrow> rk65c02_jit \<Rightarrow> rk65c02_jit" where
  "jit_pending_event wi j =
     jit_invalidate_write (pending_write_addr j wi)
       (if pending_write_phys_valid j wi then Some (pending_write_phys_addr j wi) else None) j"

text \<open>The loop re-reads \<open>pending_writes\<close>, which the sweeps do not change.\<close>

definition jit_process_pending_writes :: "rk65c02_jit \<Rightarrow> bool \<times> rk65c02_jit" where
  "jit_process_pending_writes j =
     (let j = (if pending_write_overflow j
               then (let j = jit_backend_flush j in
                     j\<lparr>invalidation_events_this_run := invalidation_events_this_run j + 1\<rparr>)
               else j);
          j = fold jit_pending_event [0..<pending_writes j] j;
          j = j\<lparr>pending_writes := 0, pending_write_overflow := False\<rparr>
      in (JIT_MAX_INVALIDATIONS_PER_RUN \<le> invalidation_events_this_run j, j))"

definition jit_settle_writes :: "bool \<Rightarrow> 'h emu \<Rightarrow> bool \<times> 'h emu" where
  "jit_settle_writes dis e =
     (case jit e of
        None \<Rightarrow> (dis, e)
      | Some j \<Rightarrow>
          if pending_writes j > 0 \<or> pending_write_overflow j then
            (let (spent, j) = jit_process_pending_writes j;
                 j = (if spent \<and> \<not> dis
                      then j\<lparr>stats := (stats j)\<lparr>run_jit_disables := run_jit_disables (stats j) + 1\<rparr>\<rparr>
                      else j);
                 dis = (dis \<or> spent)
             in (dis, e\<lparr>jit := Some j, use_jit := (if dis then False else jit_requested e)\<rparr>))
          else (dis, e))"

definition jit_settle_flush :: "bool \<Rightarrow> 'h emu \<Rightarrow> 'h emu" where
  "jit_settle_flush dis e =
     (case jit e of
        None \<Rightarrow> e
      | Some j \<Rightarrow>
          if needs_flush j
          then e\<lparr>jit := Some (jit_backend_flush j), use_jit := (if dis then False else jit_requested e)\<rparr>
          else e)"

section \<open>The run loop\<close>

text \<open>
  One pass through the body of \<open>while (e->state == RUNNING)\<close>. \<open>Again\<close> is \<open>continue\<close>,
  \<open>Leave\<close> is \<open>break\<close>, \<open>Interp\<close> the switch to the interpreter loop, \<open>Fail\<close> a failed
  assertion, \<open>Diverge\<close> native code that does not return. The Boolean is the local \<open>disable_jit_for_run\<close>. A \<open>longjmp\<close> lands at the
  \<open>setjmp\<close>, which settles the recorded write events and re-enters the loop
  (\<open>jit_longjmp\<close>).
\<close>

datatype 'h jit_next = Again bool "'h emu" | Leave bool "'h emu" | Interp "'h emu" | Fail
  | Diverge

definition jit_longjmp :: "bool \<Rightarrow> 'h emu \<Rightarrow> 'h jit_next" where
  "jit_longjmp dis e = (let (dis, e) = jit_settle_writes dis e in Again dis e)"

definition jit_exec_then :: "'h host \<Rightarrow> bool \<Rightarrow> 'h emu \<Rightarrow> 'h jit_next" where
  "jit_exec_then H dis e =
     (case rk65c02_exec H e of Ret _ e \<Rightarrow> Again dis e | Longjmp e \<Rightarrow> jit_longjmp dis e | Abort \<Rightarrow> Fail)"

text \<open>\<open>jit_native_step\<close> dispatches a compiled block.\<close>

definition jit_native_step :: "'h host \<Rightarrow> bool \<Rightarrow> u16 \<Rightarrow> jit_block \<Rightarrow> 'h emu \<Rightarrow> 'h jit_next" where
  "jit_native_step H dis pc b e =
     (let e = e\<lparr>jit := map_option (\<lambda>j. j\<lparr>stats := (stats j)
                  \<lparr>blocks_executed := blocks_executed (stats j) + 1,
                   insns_executed := insns_executed (stats j) + ucast (num_insns b)\<rparr>\<rparr>) (jit e),
                jit_loop_budget := JIT_LOOP_BUDGET, in_jit_run := True\<rparr>
      in case jit_native H pc (case fn b of None \<Rightarrow> [] | Some insns \<Rightarrow> insns) e of
           None \<Rightarrow> Diverge
         | Some Abort \<Rightarrow> Fail
         | Some (Longjmp e) \<Rightarrow> jit_longjmp dis e
         | Some (Ret _ e) \<Rightarrow>
             (let e = e\<lparr>in_jit_run := False\<rparr>;
                  (dis, e) = jit_settle_writes dis e;
                  e = jit_settle_flush dis e;
                  e = rk65c02_poll_host_controls H e
              in if state e \<noteq> RUNNING then
                   (let (waited, e) = rk65c02_maybe_wait_on_idle H e in
                    if waited \<and> state e = RUNNING then Again dis e else Leave dis e)
                 else Again dis e))"

definition jit_dispatch :: "'h host \<Rightarrow> bool \<Rightarrow> u16 \<Rightarrow> jit_block option \<Rightarrow> 'h emu \<Rightarrow> 'h jit_next" where
  "jit_dispatch H dis pc blk e =
     (case blk of
        None \<Rightarrow>
          (case rk65c02_exec H e of
             Ret _ e \<Rightarrow> (if state e \<noteq> RUNNING then Leave dis e else Again dis e)
           | Longjmp e \<Rightarrow> jit_longjmp dis e
           | Abort \<Rightarrow> Fail)
      | Some b \<Rightarrow>
          if fn b = None then
            (case rk65c02_exec H e of
               Ret _ e \<Rightarrow> (if state e \<noteq> RUNNING then Leave dis e else Again dis e)
             | Longjmp e \<Rightarrow> jit_longjmp dis e
             | Abort \<Rightarrow> Fail)
          else if mmu_phys_page_valid b then
            (case jit_translate_paddr H pc MMU_FETCH e of
               (None, e) \<Rightarrow>
                 Again dis (e\<lparr>jit := map_option (jit_invalidate_blocks_for_page (hi8 pc)) (jit e)\<rparr>)
             | (Some cur, e) \<Rightarrow>
                 if hi8 cur \<noteq> mmu_phys_page b
                 then Again dis (e\<lparr>jit := map_option (jit_invalidate_blocks_for_page (hi8 pc)) (jit e)\<rparr>)
                 else jit_native_step H dis pc b e)
          else jit_native_step H dis pc b e)"

definition jit_run_body :: "'h host \<Rightarrow> bool \<Rightarrow> 'h emu \<Rightarrow> 'h jit_next" where
  "jit_run_body H dis e =
     (let e = rk65c02_poll_host_controls H e in
      if state e \<noteq> RUNNING then
        (let (waited, e) = rk65c02_maybe_wait_on_idle H e in
         if waited then Again dis e else Leave dis e)
      else if trace e \<or> runtime_disassembly e \<or> bps_head e \<noteq> [] then Leave dis e
      else if \<not> use_jit e then Interp e
      else
        (case jit e of
           None \<Rightarrow> Interp e
         | Some j \<Rightarrow>
             if irq e \<and> \<not> flag P_IRQ_DISABLE e then jit_exec_then H dis e
             else
               (let pc = rPC (regs e) in
                if mutable_code_page j (hi8 pc) then jit_exec_then H dis e
                else
                  (let b = jit_find_block j pc in
                   if (case b of None \<Rightarrow> True | Some b \<Rightarrow> fn b = None) then
                     (let e = (if active_blocks j \<ge> JIT_MAX_ACTIVE_BLOCKS
                               then e\<lparr>jit := Some (jit_backend_flush j)\<rparr> else e)
                      in case jit_compile_block H pc e of
                           Abort \<Rightarrow> Fail
                         | Longjmp e \<Rightarrow> jit_longjmp dis e
                         | Ret b e \<Rightarrow> (if state e \<noteq> RUNNING then Leave dis e
                                       else jit_dispatch H dis pc b e))
                   else jit_dispatch H dis pc b e))))"

partial_function (option) jit_run_loop :: "'h host \<Rightarrow> bool \<Rightarrow> 'h emu \<Rightarrow> ('h, unit) run option" where
  "jit_run_loop H dis e =
     (if state e \<noteq> RUNNING then Some (Ret () e)
      else
        (case jit_run_body H dis e of
           Again dis e \<Rightarrow> jit_run_loop H dis e
         | Leave dis e \<Rightarrow> Some (Ret () e)
         | Interp e \<Rightarrow>
             (case interp_loop H e of
                None \<Rightarrow> None
              | Some (Longjmp e) \<Rightarrow>
                  (let (dis, e) = jit_settle_writes dis e in jit_run_loop H dis e)
              | Some r \<Rightarrow> Some r)
         | Fail \<Rightarrow> Some Abort
         | Diverge \<Rightarrow> None))"

definition rk65c02_run_jit :: "'h host \<Rightarrow> 'h emu \<Rightarrow> ('h, unit) run option" where
  "rk65c02_run_jit H e =
     (if \<not> use_jit e \<or> jit e = None \<or> trace e \<or> runtime_disassembly e \<or> bps_head e \<noteq> []
      then interp_loop H (e\<lparr>state := RUNNING\<rparr>)
      else jit_run_loop H False
             (e\<lparr>state := RUNNING, jit := map_option jit_run_state_reset (jit e)\<rparr>))"

section \<open>Start\<close>

definition start_finish :: "'h host \<Rightarrow> 'h emu \<Rightarrow> 'h emu" where
  "start_finish H e =
     (let e = rk65c02_poll_host_controls H e in
      if state e = STOPPED then rk65c02_maybe_call_on_stop H e else e)"

definition rk65c02_start :: "'h host \<Rightarrow> 'h emu \<Rightarrow> ('h, unit) run option" where
  "rk65c02_start H e =
     (let e = e\<lparr>use_jit := jit_requested e, stop_requested := False, mmu_fault_reexec := False,
                tick_countdown := tick_interval e\<rparr>;
          e = rk65c02_mmu_refresh_accessors e
      in case (if rk65c02_can_use_jit e then rk65c02_run_jit H e
               else interp_loop H (e\<lparr>state := RUNNING\<rparr>)) of
           None \<Rightarrow> None
         | Some r \<Rightarrow> Some (andthen r (\<lambda>_ e. Ret () (start_finish H e))))"

end
