(* ===== verification/Frames.thy ===== *)
theory Frames
  imports Instruction
begin

text \<open>
  What memory accesses leave alone. A view is a function of the emulator state; the locales
  say which fields it must not look at to survive a guest read or write, and the host's MMU
  callbacks are assumed to keep it. The views used later are interpretations.
\<close>

definition host_keeps :: "('h emu \<Rightarrow> 'v) \<Rightarrow> 'h host \<Rightarrow> bool" where
  "host_keeps q H \<longleftrightarrow>
     (\<forall>f ctx va acc e. q (snd (h_mmu_translate H f ctx va acc e)) = q e) \<and>
     (\<forall>f ctx va acc code e. q (h_mmu_fault H f ctx va acc code e) = q e) \<and>
     (\<forall>f ctx r e. q (h_on_stop H f ctx r e) = q e)"

locale read_view =
  fixes q :: "'h emu \<Rightarrow> 'v"
  assumes q_bus [simp]: "q (bus_update b e) = q e"
    and q_tlb [simp]: "q (mmu_tlb_update t e) = q e"
    and q_hits [simp]: "q (mmu_tlb_hits_update n e) = q e"
    and q_misses [simp]: "q (mmu_tlb_misses_update n e) = q e"
    and q_fault_addr [simp]: "q (mmu_last_fault_addr_update a e) = q e"
    and q_fault_access [simp]: "q (mmu_last_fault_access_update acc e) = q e"
    and q_fault_code [simp]: "q (mmu_last_fault_code_update c e) = q e"
    and q_reexec [simp]: "q (mmu_fault_reexec_update r e) = q e"
    and q_use_jit [simp]: "q (use_jit_update u e) = q e"
    and q_state [simp]: "q (state_update s e) = q e"
    and q_stopreason [simp]: "q (stopreason_update sr e) = q e"
    and q_stop_requested [simp]: "q (stop_requested_update x e) = q e"
    and q_in_jit_run [simp]: "q (in_jit_run_update y e) = q e"
begin

definition kept :: "'v \<Rightarrow> ('h, 'a) run \<Rightarrow> bool" where
  "kept x m = post (\<lambda>_ e. q e = x) (\<lambda>e. q e = x) m"

lemma kept_simps [simp]: "kept x (Ret v e) \<longleftrightarrow> q e = x" "kept x (Longjmp e) \<longleftrightarrow> q e = x" "\<not> kept x Abort"
  by (simp_all add: kept_def)

lemma kept_andthen: "kept x m \<Longrightarrow> (\<And>v e. q e = x \<Longrightarrow> kept x (f v e)) \<Longrightarrow> kept x (andthen m f)"
  by (cases m) simp_all

lemma kept_stop_error: "host_keeps q H \<Longrightarrow> q e = x \<Longrightarrow> kept x (emu_stop_error H e)"
  by (simp add: emu_stop_error_def Let_def rk65c02_maybe_call_on_stop_def host_keeps_def split: option.split)

lemma kept_fault:
  assumes "host_keeps q H" "q e = x"
  shows "kept x (rk65c02_mmu_fault H va acc code e)"
  unfolding rk65c02_mmu_fault_def Let_def
  by (rule kept_stop_error) (use assms in \<open>simp_all add: host_keeps_def split: option.split\<close>)

lemma translate_view: "host_keeps q H \<Longrightarrow> q (snd (rk65c02_mmu_translate_addr H va acc perm e)) = q e"
  by (simp add: rk65c02_mmu_translate_addr_def Let_def host_keeps_def case_prod_beta split: option.split)

lemma kept_read_mmu:
  assumes "host_keeps q H" "q e = x"
  shows "kept x (rk65c02_mem_read_mmu H va acc e)"
proof -
  let ?perm = "if acc = MMU_FETCH then MMU_PERM_X else MMU_PERM_R"
  obtain r e' where t: "rk65c02_mmu_translate_addr H va acc ?perm e = (r, e')" by force
  with translate_view [OF assms(1), of va acc ?perm e] assms have "q e' = x" by simp
  with assms show ?thesis
    by (cases r) (auto simp: rk65c02_mem_read_mmu_def t case_prod_beta translate_view
        intro!: kept_andthen kept_fault)
qed

lemma kept_fetch_1: "host_keeps q H \<Longrightarrow> q e = x \<Longrightarrow> kept x (rk65c02_mem_fetch_1 H va e)"
  by (simp add: rk65c02_mem_fetch_1_def kept_read_mmu rk65c02_mem_read_direct_def case_prod_beta
      split: mem_fn.split)

lemma kept_read_1: "host_keeps q H \<Longrightarrow> q e = x \<Longrightarrow> kept x (rk65c02_mem_read_1 H va e)"
  by (simp add: rk65c02_mem_read_1_def kept_read_mmu rk65c02_mem_read_direct_def case_prod_beta
      split: mem_fn.split)

lemma kept_fetch: "host_keeps q H \<Longrightarrow> q e = x \<Longrightarrow> kept x (instruction_fetch_emu H va e)"
  unfolding instruction_fetch_emu_def Let_def
  by (auto intro!: kept_andthen kept_fetch_1)

lemma kept_pointer: "host_keeps q H \<Longrightarrow> q e = x \<Longrightarrow> kept x (read_pointer H zp e)"
  unfolding read_pointer_def by (auto intro!: kept_andthen kept_read_1)

lemma kept_data_address: "host_keeps q H \<Longrightarrow> q e = x \<Longrightarrow> kept x (instruction_data_address H idf i e)"
  unfolding instruction_data_address_def rk65c02_panic_def
  by (auto intro!: kept_andthen kept_pointer kept_read_1 kept_stop_error split: addressing.split)

lemma kept_data_read: "host_keeps q H \<Longrightarrow> q e = x \<Longrightarrow> kept x (instruction_data_read_1 H idf i e)"
  unfolding instruction_data_read_1_def by (auto intro!: kept_andthen kept_data_address kept_read_1)

end

text \<open>A view that does not look at the JIT either survives guest writes.\<close>

locale write_view = read_view q for q :: "'h emu \<Rightarrow> 'v" +
  assumes q_jit [simp]: "q (jit_update j e) = q e"
begin

lemma note_write_view: "host_keeps q H \<Longrightarrow> q (rk65c02_jit_note_guest_write H va e) = q e"
proof -
  assume H: "host_keeps q H"
  have "q (snd (jit_translate_paddr H va MMU_WRITE e)) = q e"
    using translate_view [OF H, of va MMU_WRITE "access_perm MMU_WRITE" e]
    by (auto simp: jit_translate_paddr_def rk65c02_mmu_translate_cached_def
        split: prod.splits option.splits sum.splits if_splits)
  then show ?thesis
    by (simp add: rk65c02_jit_note_guest_write_def Let_def case_prod_beta split: option.split)
qed

lemma kept_write_1:
  assumes "host_keeps q H" "q e = x"
  shows "kept x (rk65c02_mem_write_1 H va v e)"
proof -
  obtain r e' where t: "rk65c02_mmu_translate_addr H va MMU_WRITE MMU_PERM_W e = (r, e')" by force
  with translate_view [OF assms(1), of va MMU_WRITE MMU_PERM_W e] assms have "q e' = x" by simp
  with assms have "kept x (rk65c02_mem_write_mmu H va v MMU_WRITE e)"
    by (cases r) (auto simp: rk65c02_mem_write_mmu_def t intro!: kept_fault)
  with assms show ?thesis
    by (auto simp: rk65c02_mem_write_1_def rk65c02_mem_write_direct_def note_write_view
        intro!: kept_andthen split: mem_fn.split)
qed

end

interpretation regs_view: write_view regs
  by unfold_locales simp_all

interpretation jit_view: read_view jit
  by unfold_locales simp_all

interpretation irq_view: write_view irq
  by unfold_locales simp_all

end
