(* ===== verification/Samples.thy ===== *)
theory Samples
  imports Frames
begin

text \<open>
  Concrete machines for the instances of the theorems: a host whose callbacks do nothing, a
  bus with 64K of RAM in two devices, and an emulator on it. The predicate \<open>full_ram\<close> is
  what the theorems about stack and memory ask of a bus.
\<close>

definition full_ram :: "'h bus \<Rightarrow> bool" where
  "full_ram b \<longleftrightarrow> (\<forall>a. bus_cell b a \<noteq> None) \<and> inj (bus_cell b)"

definition sample_device :: "(u16 \<Rightarrow> u8) \<Rightarrow> u16 \<Rightarrow> device" where
  "sample_device f base =
     \<lparr>dev_name = ''RAM'', dev_size = 0x8000, dev_ops = DEV_RAM, dev_finish = None,
      dev_aux = (\<lambda>off. f (off + base))\<rparr>"

definition sample_bus :: "(u16 \<Rightarrow> u8) \<Rightarrow> unit bus" where
  "sample_bus f =
     bus_device_add
       (bus_device_add
          (bus_init (\<lambda>d. if d = 0 then sample_device f 0 else sample_device f 0x8000) 2 ()) 0 0)
       1 0x8000"

definition sample_host :: "unit host" where
  "sample_host =
     \<lparr>h_dev = no_devices, h_tick = (\<lambda>_ _ e. e), h_on_stop = (\<lambda>_ _ _ e. e),
      h_idle_wait = (\<lambda>_ _ e. e),
      h_mmu_translate = (\<lambda>_ _ va _ e. (\<lparr>res_ok = True, res_paddr = ucast va, res_perms = 0x07,
                                        res_fault_code = 0, res_no_fill_tlb = False\<rparr>, e)),
      h_mmu_fault = (\<lambda>_ _ _ _ _ e. e), h_scratch = (\<lambda>_ _. 0), h_emit_ok = (\<lambda>_. True),
      h_uninit = \<lparr>opcode = 0, op1 = 0, op2 = 0\<rparr>\<rparr>"

definition zero_emu :: "'h bus \<Rightarrow> 'h emu" where
  "zero_emu b =
     \<lparr>state = STOPPED, bus = b,
      regs = \<lparr>rA = 0, rX = 0, rY = 0, rPC = 0, rSP = 0, rP = 0\<rparr>, stopreason = HOST,
      mmu_last_fault_addr = 0, mmu_last_fault_access = MMU_READ, mmu_last_fault_code = 0,
      irq = False, bps_head = [], runtime_disassembly = False, trace = False, trace_head = [],
      use_jit = False, jit_loop_budget = 0, jit_requested = False, jit = None,
      in_jit_run = False, stop_requested = False, on_stop = None, on_stop_ctx = 0,
      tick = None, tick_ctx = 0, tick_interval = 0, tick_countdown = 0,
      idle_wait_enabled = False, idle_wait = None, idle_wait_ctx = 0, mmu_enabled = False,
      mmu_identity_fastpath = False, mmu_identity_active = False, mmu_update_pending = False,
      mmu_epoch = 0, mmu_translate = None, mmu_translate_ctx = 0, mmu_fault = None,
      mmu_fault_ctx = 0, mmu_fault_reexec = False, mmu_tlb_enabled = False,
      mmu_changed_all = False, mmu_changed_vpage = (\<lambda>_. False), mmu_tlb_hits = 0,
      mmu_tlb_misses = 0, mmu_tlb = (\<lambda>_. tlb_zero), mem_read_1_fn = MEM_DIRECT,
      mem_write_1_fn = MEM_DIRECT\<rparr>"

text \<open>The machine after \<open>rk65c02_init\<close>, with its program counter and stack pointer set.\<close>

definition sample_emu :: "(u16 \<Rightarrow> u8) \<Rightarrow> u16 \<Rightarrow> unit emu" where
  "sample_emu f pc =
     (let e = rk65c02_init (zero_emu (sample_bus f)) (sample_bus f)
      in e\<lparr>regs := (regs e)\<lparr>rPC := pc, rSP := 0xFF\<rparr>\<rparr>)"

lemma sample_access:
  "bus_access_device (sample_bus f) a = (if a < 0x8000 then Some (0, a) else Some (1, a - 0x8000))"
  using u16_bound [of a]
  by (simp add: sample_bus_def bus_device_add_def bus_init_def sample_device_def bus_access_device_def
      dm_hit_def word_less_nat_alt)

lemma sample_cell: "bus_cell (sample_bus f) a = (if a < 0x8000 then Some (0, a) else Some (1, a - 0x8000))"
  by (simp add: bus_cell_def sample_access)
    (simp add: sample_bus_def bus_device_add_def bus_init_def sample_device_def)

lemma sample_read [simp]: "bus_read_1 H (sample_bus f) a = (f a, sample_bus f)"
proof -
  have "cell_val (sample_bus f) (if a < 0x8000 then (0, a) else (1, a - 0x8000)) = f a"
    by (simp add: cell_val_def sample_bus_def bus_device_add_def bus_init_def sample_device_def)
  then show ?thesis
    using bus_read_cell [of "sample_bus f" a "if a < 0x8000 then (0, a) else (1, a - 0x8000)" H]
    by (simp add: sample_cell split: if_splits)
qed

lemma sample_full_ram: "full_ram (sample_bus f)"
  by (auto simp: full_ram_def inj_def sample_cell)

lemma sample_emu_fields [simp]:
  "bus (sample_emu f pc) = sample_bus f" "mem_read_1_fn (sample_emu f pc) = MEM_DIRECT"
  "mem_write_1_fn (sample_emu f pc) = MEM_DIRECT" "jit (sample_emu f pc) = None"
  "regs (sample_emu f pc) = \<lparr>rA = 0, rX = 0, rY = 0, rPC = pc, rSP = 0xFF, rP = 0x24\<rparr>"
  "irq (sample_emu f pc) = False" "bps_head (sample_emu f pc) = []" "trace (sample_emu f pc) = False"
  "runtime_disassembly (sample_emu f pc) = False" "state (sample_emu f pc) = STOPPED"
  "in_jit_run (sample_emu f pc) = False" "stop_requested (sample_emu f pc) = False"
  "mmu_fault_reexec (sample_emu f pc) = False" "tick (sample_emu f pc) = None"
  "on_stop (sample_emu f pc) = None" "mmu_enabled (sample_emu f pc) = False"
  by (simp_all add: sample_emu_def rk65c02_init_def zero_emu_def)

lemma sample_host_keeps [simp]: "host_keeps q sample_host"
  by (simp add: host_keeps_def sample_host_def)

lemma sample_fetch_1:
  "rk65c02_mem_fetch_1 H a (sample_emu f pc) = Ret (f a) (sample_emu f pc)"
proof -
  have "sample_emu f pc\<lparr>bus := sample_bus f\<rparr> = sample_emu f pc"
    by (simp add: sample_emu_def rk65c02_init_def Let_def)
  then show ?thesis by (simp add: rk65c02_mem_fetch_1_def rk65c02_mem_read_direct_def)
qed

end
