(* ===== verification/JitCoherence.thy ===== *)
theory JitCoherence
  imports JitRun Samples
begin

text \<open>
  Coherence of the JIT block cache: the reference counts of \<open>jit.c\<close> count the live blocks
  that cover an address or page, every invalidation keeps them so and takes exactly the blocks
  it should, and no live block covers a byte the guest has just written. The proofs are about
  the definitions of \<open>JitCache\<close> and \<open>JitRun\<close>.
\<close>

section \<open>What the reference counting touches\<close>

text \<open>A state with its six coverage counters cleared.\<close>

definition uncounted :: "rk65c02_jit \<Rightarrow> rk65c02_jit" where
  "uncounted j =
     j\<lparr>compiled_page_refcnt := (\<lambda>_. 0), compiled_phys_page_refcnt := (\<lambda>_. 0),
       covered_phys_addr_refcnt := (\<lambda>_. 0), compiled_phys_refs_total := 0,
       compiled_code_page_refcnt := (\<lambda>_. 0), covered_addr_refcnt := (\<lambda>_. 0)\<rparr>"

lemma uncounted_refs_update [simp]: "uncounted (jit_block_page_refs_update add b j) = uncounted j"
  by (simp add: jit_block_page_refs_update_def uncounted_def Let_def split: prod.split)

lemma refs_update_fields [simp]:
  "blocks (jit_block_page_refs_update add b j) = blocks j"
  "magic (jit_block_page_refs_update add b j) = magic j"
  "active_blocks (jit_block_page_refs_update add b j) = active_blocks j"
  "stats (jit_block_page_refs_update add b j) = stats j"
  "pending_write_addr (jit_block_page_refs_update add b j) = pending_write_addr j"
  "pending_write_phys_valid (jit_block_page_refs_update add b j) = pending_write_phys_valid j"
  "pending_write_phys_addr (jit_block_page_refs_update add b j) = pending_write_phys_addr j"
  by (simp_all add: jit_block_page_refs_update_def Let_def split: prod.split)

definition killed :: "jit_block \<Rightarrow> jit_block" where
  "killed b = b\<lparr>lightning_state := False, fn := None\<rparr>"

lemma killed_killed [simp]: "killed (killed b) = killed b"
  by (simp add: killed_def)

lemma map_killed_killed [simp]: "map_option killed (map_option killed x) = map_option killed x"
  by (cases x) simp_all

lemma uncounted_flush_slot:
  "uncounted (jit_flush_slot i j) =
     (uncounted j)\<lparr>blocks := (blocks j)(i := map_option killed (blocks j i))\<rparr>"
proof (cases "blocks j i")
  case None
  then show ?thesis by (simp add: jit_flush_slot_def uncounted_def fun_upd_idem)
next
  case (Some b)
  have *: "uncounted (j'\<lparr>blocks := f\<rparr>) = (uncounted j')\<lparr>blocks := f\<rparr>" for j' f
    by (simp add: uncounted_def)
  show ?thesis by (simp add: jit_flush_slot_def Some Let_def * killed_def)
qed

lemma blocks_flush_slot: "blocks (jit_flush_slot i j) = (blocks j)(i := map_option killed (blocks j i))"
  by (simp add: jit_flush_slot_def Let_def killed_def fun_upd_idem split: option.split)

lemma uncounted_flush_fold:
  "uncounted (fold jit_flush_slot is j) =
     (uncounted j)\<lparr>blocks := (\<lambda>k. if k \<in> set is then map_option killed (blocks j k) else blocks j k)\<rparr>"
proof (induction "is" arbitrary: j)
  case Nil
  then show ?case by (simp add: uncounted_def)
next
  case (Cons i "is")
  show ?case
    by (simp add: Cons uncounted_flush_slot blocks_flush_slot fun_eq_iff)
qed

lemma jit_backend_flush_eq:
  "jit_backend_flush j =
     (uncounted j)\<lparr>blocks := (\<lambda>k. map_option killed (blocks j k)),
       active_blocks := 0, needs_flush := False, pending_writes := 0,
       pending_write_overflow := False, page_invalidation_events := (\<lambda>_. 0),
       mutable_code_page := (\<lambda>_. False)\<rparr>"
proof -
  let ?j = "fold jit_flush_slot (map of_nat [0..<65536] :: u16 list) j"
  have "jit_backend_flush j =
      (uncounted ?j)\<lparr>active_blocks := 0, needs_flush := False, pending_writes := 0,
       pending_write_overflow := False, page_invalidation_events := (\<lambda>_. 0),
       mutable_code_page := (\<lambda>_. False)\<rparr>"
    unfolding jit_backend_flush_def Let_def fold_u16 uncounted_def by simp
  also have "uncounted ?j = (uncounted j)\<lparr>blocks := (\<lambda>k. map_option killed (blocks j k))\<rparr>"
    unfolding uncounted_flush_fold u16_indices by simp
  finally show ?thesis by simp
qed


section \<open>Circular intervals\<close>

text \<open>The address \<open>a\<close> is in the interval from \<open>s\<close> up to \<open>t\<close>, wrapping at 64K.\<close>

definition in_span :: "u16 \<Rightarrow> u16 \<Rightarrow> u16 \<Rightarrow> bool" where
  "in_span s t a \<longleftrightarrow> a - s < t - s"

lemma in_span_empty [simp]: "\<not> in_span s s a"
  by (simp add: in_span_def)

lemma in_span_step:
  assumes "s \<noteq> t"
  shows "in_span s t a \<longleftrightarrow> a = s \<or> in_span (s + 1) t a"
proof -
  have t: "unat (t - (s + 1)) = unat (t - s) - 1"
    using assms unat_minus_one [of "t - s"] by (simp add: algebra_simps)
  have "unat (a - (s + 1)) = unat (a - s) - 1" if "a \<noteq> s"
    using that unat_minus_one [of "a - s"] by (simp add: algebra_simps)
  moreover have "0 < unat (t - s)" using assms by (simp add: unat_gt_0)
  moreover have "a \<noteq> s \<Longrightarrow> 0 < unat (a - s)" by (simp add: unat_gt_0)
  ultimately show ?thesis
    unfolding in_span_def word_less_nat_alt t by (cases "a = s") auto
qed

lemma in_span_not_start: "s \<noteq> t \<Longrightarrow> \<not> in_span (s + 1) t s"
proof -
  have "s - (s + 1) = (- 1 :: u16)" by simp
  then show ?thesis
    unfolding in_span_def by (simp add: word_not_simps not_less)
qed

lemma jit_cover_loop_spec:
  "jit_cover_loop add s t seen cnt =
     (\<lambda>p. seen p \<or> (\<exists>a. in_span s t a \<and> hi8 a = p),
      \<lambda>a. if in_span s t a then refcnt_step add (cnt a) else cnt a)"
proof (induction add s t seen cnt rule: jit_cover_loop.induct)
  case (1 add s t seen cnt)
  show ?case
  proof (cases "s = t")
    case True
    then show ?thesis by (simp add: jit_cover_loop.simps)
  next
    case False
    show ?thesis
      by (subst jit_cover_loop.simps)
        (use False in \<open>auto simp: 1 in_span_step in_span_not_start fun_eq_iff\<close>)
  qed
qed

lemma contains_span: "jit_block_contains_addr b a \<longleftrightarrow>
    start_pc b = end_pc_exclusive b \<or> in_span (start_pc b) (end_pc_exclusive b) a"
proof -
  have bound: "0 \<le> uint w \<and> uint w < 65536" for w :: u16
    using uint_bounded [of w] by simp
  have "uint a - uint (start_pc b) < uint (end_pc_exclusive b) - uint (start_pc b) + 65536"
    and "\<not> uint a - uint (start_pc b) + 65536 < uint (end_pc_exclusive b) - uint (start_pc b)"
    using bound [of a] bound [of "start_pc b"] bound [of "end_pc_exclusive b"] by linarith+
  then show ?thesis
    by (auto simp: jit_block_contains_addr_def in_span_def Let_def word_less_def word_le_def
        uint_sub_if' word_uint_eq_iff split: if_splits)
qed

lemma overlaps_page_iff:
  "jit_block_overlaps_page b p \<longleftrightarrow> (\<exists>a. jit_block_contains_addr b a \<and> hi8 a = p)"
proof -
  let ?ps = "push_bit 8 (ucast p) :: u16"
  have le: "?ps \<le> ?ps + 0xFF"
    using hi8_page [of "join8 0 p" p] by auto
  define s t where "s = start_pc b" and "t = end_pc_exclusive b"
  note [simp] = s_def [symmetric] t_def [symmetric]
  have max: "hi8 (max s ?ps) = p" if "s \<le> ?ps + 0xFF"
    using le that by (auto simp: hi8_page max_def)
  have lo: "hi8 ?ps = p" using le by (simp add: hi8_page)
  show ?thesis (is "?l = ?r")
  proof
    assume l: ?l
    consider "s = t" | "s < t" | "t < s" by (rule linorder_cases)
    then show ?r
    proof cases
      case 1
      with lo show ?thesis by (auto simp: jit_block_contains_addr_def)
    next
      case 2
      with l have "s \<le> ?ps + 0xFF" "?ps < t"
        by (auto simp: jit_block_overlaps_page_def Let_def not_le not_less split: if_splits)
      with 2 max show ?thesis by (intro exI [of _ "max s ?ps"]) (auto simp: jit_block_contains_addr_def)
    next
      case 3
      with l consider "s \<le> ?ps + 0xFF" | "?ps < t"
        by (auto simp: jit_block_overlaps_page_def Let_def split: if_splits)
      then show ?thesis
      proof cases
        case 1
        with 3 max show ?thesis by (intro exI [of _ "max s ?ps"]) (auto simp: jit_block_contains_addr_def)
      next
        case 2
        with 3 lo show ?thesis by (intro exI [of _ ?ps]) (auto simp: jit_block_contains_addr_def)
      qed
    qed
  next
    assume ?r
    then show ?l
      by (auto simp: jit_block_overlaps_page_def jit_block_contains_addr_def Let_def hi8_page
          split: if_splits)
  qed
qed

section \<open>Counters and the blocks they count\<close>

text \<open>
  The five arrays of counters under one index type: what a counter counts is the set of live
  blocks (those with native code) that a predicate selects.
\<close>

datatype counter = C_ADDR u16 | C_PAGE u8 | C_CODE u8 | C_PADDR u16 | C_PPAGE u8

fun counter_val :: "rk65c02_jit \<Rightarrow> counter \<Rightarrow> u16" where
  "counter_val j (C_ADDR a) = covered_addr_refcnt j a"
| "counter_val j (C_PAGE p) = compiled_page_refcnt j p"
| "counter_val j (C_CODE p) = compiled_code_page_refcnt j p"
| "counter_val j (C_PADDR a) = covered_phys_addr_refcnt j a"
| "counter_val j (C_PPAGE p) = compiled_phys_page_refcnt j p"

fun counts :: "counter \<Rightarrow> jit_block \<Rightarrow> bool" where
  "counts (C_ADDR a) b = jit_block_contains_addr b a"
| "counts (C_PAGE p) b = jit_block_overlaps_page b p"
| "counts (C_CODE p) b = (hi8 (start_pc b) = p)"
| "counts (C_PADDR a) b = (mmu_phys_page_valid b \<and> mmu_phys_byte_cov b \<and> jit_phys_covers b a)"
| "counts (C_PPAGE p) b = (mmu_phys_page_valid b \<and> \<not> mmu_phys_byte_cov b \<and> mmu_phys_page b = p)"

lemma counter_refs_update:
  "counter_val (jit_block_page_refs_update add b j) c =
     (if counts c b then refcnt_step add (counter_val j c) else counter_val j c)"
  by (cases c)
    (auto simp: jit_block_page_refs_update_def jit_cover_loop_spec contains_span overlaps_page_iff
      Let_def)

lemma total_refs_update:
  "compiled_phys_refs_total (jit_block_page_refs_update add b j) =
     (if mmu_phys_page_valid b
      then if add then compiled_phys_refs_total j + 1
           else if compiled_phys_refs_total j > 0 then compiled_phys_refs_total j - 1
           else compiled_phys_refs_total j
      else compiled_phys_refs_total j)"
  by (simp add: jit_block_page_refs_update_def Let_def split: prod.split)

definition live_block :: "rk65c02_jit \<Rightarrow> u16 \<Rightarrow> jit_block \<Rightarrow> bool" where
  "live_block j i b \<longleftrightarrow> blocks j i = Some b \<and> fn b \<noteq> None"

definition live_slots :: "rk65c02_jit \<Rightarrow> (jit_block \<Rightarrow> bool) \<Rightarrow> u16 set" where
  "live_slots j P = {i. \<exists>b. live_block j i b \<and> P b}"

definition jit_inv :: "rk65c02_jit \<Rightarrow> bool" where
  "jit_inv j \<longleftrightarrow>
     magic j = JIT_MAGIC \<and>
     active_blocks j = card (live_slots j (\<lambda>_. True)) \<and>
     active_blocks j \<le> JIT_MAX_ACTIVE_BLOCKS \<and>
     (\<forall>c. counter_val j c = of_nat (card (live_slots j (counts c)))) \<and>
     compiled_phys_refs_total j = of_nat (card (live_slots j mmu_phys_page_valid))"

lemma card_live_le: "card (live_slots j P) \<le> card (live_slots j (\<lambda>_. True))"
  by (rule card_mono) (auto simp: live_slots_def)

lemma counts_lightning [simp]: "counts c (b\<lparr>lightning_state := x\<rparr>) = counts c b"
  by (cases c) (simp_all add: jit_block_contains_addr_def jit_block_overlaps_page_def
      jit_phys_covers_def jit_block_len_def)

text \<open>Discarding a live block takes its slot out of every set and one off every counter.\<close>

lemma discard_blocks: "blocks (jit_discard_block i b j) = (blocks j)(i := Some (killed b))"
  by (simp add: jit_discard_block_def Let_def killed_def)

lemma discard_live: "live_block (jit_discard_block i b j) k b' \<longleftrightarrow> k \<noteq> i \<and> live_block j k b'"
  by (auto simp: live_block_def discard_blocks killed_def)

lemma discard_slots: "live_slots (jit_discard_block i b j) P = live_slots j P - {i}"
  by (auto simp: live_slots_def discard_live)

lemma card_discard:
  assumes "live_block j i b"
  shows "card (live_slots j P - {i}) = card (live_slots j P) - (if P b then 1 else 0)"
    and "P b \<Longrightarrow> 0 < card (live_slots j P)"
proof -
  have mem: "i \<in> live_slots j P \<longleftrightarrow> P b"
    using assms by (auto simp: live_slots_def live_block_def)
  then show "card (live_slots j P - {i}) = card (live_slots j P) - (if P b then 1 else 0)"
    by (simp add: card_Diff_singleton_if)
  show "P b \<Longrightarrow> 0 < card (live_slots j P)"
    using mem by (auto simp: card_gt_0_iff)
qed

lemma of_nat_small_eq_0: "n \<le> 1024 \<Longrightarrow> (of_nat n :: u16) = 0 \<longleftrightarrow> n = 0"
  by (auto simp: word_of_nat_eq_0_iff dest: dvd_imp_le)

lemma refcnt_step_dec:
  "0 < n \<Longrightarrow> n \<le> 1024 \<Longrightarrow> refcnt_step False (of_nat n) = of_nat (n - 1)"
  by (simp add: refcnt_step_def of_nat_small_eq_0 of_nat_diff)

lemma discard_inv:
  assumes inv: "jit_inv j" and b: "live_block j i b"
  shows "jit_inv (jit_discard_block i b j)"
proof -
  let ?j = "jit_discard_block i b j"
  have n: "card (live_slots j P) \<le> 1024" for P
    using inv card_live_le [of j P] by (simp add: jit_inv_def)
  have "counter_val ?j c = of_nat (card (live_slots ?j (counts c)))" for c
  proof -
    have "counter_val ?j c =
        counter_val (jit_block_page_refs_update False (b\<lparr>lightning_state := False\<rparr>) j) c"
      by (cases c) (simp_all add: jit_discard_block_def Let_def)
    with inv show ?thesis
      by (simp add: counter_refs_update jit_inv_def discard_slots card_discard [OF b]
          refcnt_step_dec n)
  qed
  moreover have "compiled_phys_refs_total ?j = of_nat (card (live_slots ?j mmu_phys_page_valid))"
  proof -
    let ?n = "card (live_slots j mmu_phys_page_valid)"
    have "compiled_phys_refs_total j = of_nat ?n" using inv by (simp add: jit_inv_def)
    moreover have "(of_nat ?n :: u32) \<noteq> 0 \<and> (of_nat ?n :: u32) - 1 = of_nat (?n - 1)"
      if "mmu_phys_page_valid b"
      using card_discard(2) [OF b, of mmu_phys_page_valid, OF that] n [of mmu_phys_page_valid]
      by (auto simp: word_of_nat_eq_0_iff of_nat_diff dest: dvd_imp_le)
    ultimately show ?thesis
      by (simp add: discard_slots card_discard [OF b])
        (simp add: jit_discard_block_def Let_def total_refs_update word_neq_0_conv)
  qed
  moreover have "active_blocks ?j = card (live_slots ?j (\<lambda>_. True))"
    using inv card_discard(2) [OF b, of "\<lambda>_. True"]
    by (simp add: discard_slots card_discard [OF b])
      (simp add: jit_inv_def jit_discard_block_def Let_def)
  moreover have "magic ?j = JIT_MAGIC" "active_blocks ?j \<le> active_blocks j"
    using inv by (simp_all add: jit_inv_def jit_discard_block_def Let_def)
  ultimately show ?thesis using inv by (simp add: jit_inv_def)
qed

section \<open>The sweeps\<close>

lemma sweep_slot_inv: "jit_inv j \<Longrightarrow> jit_inv (jit_sweep_slot p i j)"
  by (auto simp: jit_sweep_slot_def live_block_def intro: discard_inv split: option.split)

lemma sweep_slot_live:
  "live_block (jit_sweep_slot p i j) k b \<longleftrightarrow> live_block j k b \<and> \<not> (k = i \<and> p b)"
  by (auto simp: jit_sweep_slot_def discard_blocks killed_def live_block_def split: option.split)

lemma sweep_fold:
  "jit_inv j \<Longrightarrow> jit_inv (fold (jit_sweep_slot p) is j)"
  "live_block (fold (jit_sweep_slot p) is j) k b \<longleftrightarrow> live_block j k b \<and> \<not> (k \<in> set is \<and> p b)"
  by (induction "is" arbitrary: j) (auto simp: sweep_slot_inv sweep_slot_live)

lemma sweep_inv: "jit_inv j \<Longrightarrow> jit_inv (jit_sweep p j)"
  unfolding jit_sweep_def fold_u16 by (rule sweep_fold)

lemma sweep_live: "live_block (jit_sweep p j) i b \<longleftrightarrow> live_block j i b \<and> \<not> p b"
  unfolding jit_sweep_def fold_u16 sweep_fold u16_indices by simp

text \<open>Fields that neither the counts nor the set of live blocks depend on.\<close>

lemma counter_val_fields [simp]:
  "counter_val (j\<lparr>invalidation_events_this_run := n\<rparr>) c = counter_val j c"
  "counter_val (j\<lparr>page_invalidation_events := f\<rparr>) c = counter_val j c"
  "counter_val (j\<lparr>mutable_code_page := g\<rparr>) c = counter_val j c"
  "counter_val (j\<lparr>stats := st\<rparr>) c = counter_val j c"
  "counter_val (j\<lparr>needs_flush := x\<rparr>) c = counter_val j c"
  "counter_val (j\<lparr>pending_writes := k\<rparr>) c = counter_val j c"
  "counter_val (j\<lparr>pending_write_overflow := y\<rparr>) c = counter_val j c"
  "counter_val (j\<lparr>pending_write_addr := u\<rparr>) c = counter_val j c"
  "counter_val (j\<lparr>pending_write_phys_valid := v\<rparr>) c = counter_val j c"
  "counter_val (j\<lparr>pending_write_phys_addr := w\<rparr>) c = counter_val j c"
  by (cases c, simp_all)+

lemma live_block_fields [simp]:
  "live_block (j\<lparr>invalidation_events_this_run := n\<rparr>) = live_block j"
  "live_block (j\<lparr>page_invalidation_events := f\<rparr>) = live_block j"
  "live_block (j\<lparr>mutable_code_page := g\<rparr>) = live_block j"
  "live_block (j\<lparr>stats := st\<rparr>) = live_block j"
  "live_block (j\<lparr>needs_flush := x\<rparr>) = live_block j"
  "live_block (j\<lparr>pending_writes := k\<rparr>) = live_block j"
  "live_block (j\<lparr>pending_write_overflow := y\<rparr>) = live_block j"
  "live_block (j\<lparr>pending_write_addr := u\<rparr>) = live_block j"
  "live_block (j\<lparr>pending_write_phys_valid := v\<rparr>) = live_block j"
  "live_block (j\<lparr>pending_write_phys_addr := w\<rparr>) = live_block j"
  by (simp_all add: live_block_def fun_eq_iff)

lemma jit_inv_fields [simp]:
  "jit_inv (j\<lparr>invalidation_events_this_run := n\<rparr>) = jit_inv j"
  "jit_inv (j\<lparr>page_invalidation_events := f\<rparr>) = jit_inv j"
  "jit_inv (j\<lparr>mutable_code_page := g\<rparr>) = jit_inv j"
  "jit_inv (j\<lparr>stats := st\<rparr>) = jit_inv j"
  "jit_inv (j\<lparr>needs_flush := x\<rparr>) = jit_inv j"
  "jit_inv (j\<lparr>pending_writes := k\<rparr>) = jit_inv j"
  "jit_inv (j\<lparr>pending_write_overflow := y\<rparr>) = jit_inv j"
  "jit_inv (j\<lparr>pending_write_addr := u\<rparr>) = jit_inv j"
  "jit_inv (j\<lparr>pending_write_phys_valid := v\<rparr>) = jit_inv j"
  "jit_inv (j\<lparr>pending_write_phys_addr := w\<rparr>) = jit_inv j"
  by (simp_all add: jit_inv_def live_slots_def)

lemma jit_inv_magic: "jit_inv j \<Longrightarrow> magic j = JIT_MAGIC"
  by (simp add: jit_inv_def)

lemma jit_inv_counter:
  assumes "jit_inv j"
  shows "counter_val j c = of_nat (card (live_slots j (counts c)))"
    and "card (live_slots j P) \<le> 1024"
    and "counter_val j c = 0 \<longleftrightarrow> live_slots j (counts c) = {}"
proof -
  show c: "counter_val j c = of_nat (card (live_slots j (counts c)))"
    using assms unfolding jit_inv_def by blast
  show n: "card (live_slots j P) \<le> 1024" for P
    using assms card_live_le [of j P] unfolding jit_inv_def by linarith
  show "counter_val j c = 0 \<longleftrightarrow> live_slots j (counts c) = {}"
    using n [of "counts c"] by (simp add: c of_nat_small_eq_0)
qed

section \<open>Contract of an invalidation\<close>

text \<open>
  What every invalidation promises its callers: it keeps the reference counts right, it takes
  the native code of exactly the blocks it is asked to, and it leaves the others running.
\<close>

locale invalidator =
  fixes inval :: "rk65c02_jit \<Rightarrow> rk65c02_jit"
    and hit :: "jit_block \<Rightarrow> bool"
  assumes keeps: "jit_inv j \<Longrightarrow> jit_inv (inval j)"
    and live: "jit_inv j \<Longrightarrow> live_block (inval j) i b \<longleftrightarrow> live_block j i b \<and> \<not> hit b"
begin

lemma no_hit: "jit_inv j \<Longrightarrow> live_block (inval j) i b \<Longrightarrow> \<not> hit b"
  by (simp add: live)

lemma uncounted_after: "jit_inv j \<Longrightarrow> (\<And>b. counts c b \<Longrightarrow> hit b) \<Longrightarrow> counter_val (inval j) c = 0"
  using jit_inv_counter(3) [OF keeps, of j c] by (auto simp: live_slots_def live)

end

locale invalidator_pair = fst: invalidator f p + snd: invalidator g q for f p g q

sublocale invalidator_pair \<subseteq> comp: invalidator "\<lambda>j. g (f j)" "\<lambda>b. p b \<or> q b"
  by unfold_locales (auto simp: fst.keeps snd.keeps fst.live snd.live)

interpretation inv_addr: invalidator "jit_invalidate_blocks_for_addr a" "\<lambda>b. jit_block_contains_addr b a" for a
  by unfold_locales
    (simp_all add: jit_invalidate_blocks_for_addr_def sweep_inv sweep_live jit_inv_fields jit_inv_magic)

interpretation inv_page: invalidator "jit_invalidate_blocks_for_page p" "\<lambda>b. jit_block_overlaps_page b p" for p
  by unfold_locales
    (simp_all add: jit_invalidate_blocks_for_page_def sweep_inv sweep_live jit_inv_magic)

text \<open>The early exit of the code-page sweep is taken only when no live block starts there.\<close>

interpretation inv_code: invalidator "jit_invalidate_blocks_for_code_page p" "\<lambda>b. hi8 (start_pc b) = p" for p
proof
  fix j i b
  assume inv: "jit_inv j"
  then show "jit_inv (jit_invalidate_blocks_for_code_page p j)"
    by (simp add: jit_invalidate_blocks_for_code_page_def sweep_inv)
  have "compiled_code_page_refcnt j p = 0 \<Longrightarrow> live_block j i b \<Longrightarrow> hi8 (start_pc b) \<noteq> p"
    using jit_inv_counter(3) [OF inv, of "C_CODE p"] by (auto simp: live_slots_def)
  then show "live_block (jit_invalidate_blocks_for_code_page p j) i b \<longleftrightarrow>
      live_block j i b \<and> hi8 (start_pc b) \<noteq> p"
    by (auto simp: jit_invalidate_blocks_for_code_page_def sweep_live jit_inv_magic [OF inv])
qed

interpretation inv_phys: invalidator "jit_invalidate_blocks_for_phys_addr pa" "jit_phys_match pa" for pa
  by unfold_locales
    (simp_all add: jit_invalidate_blocks_for_phys_addr_def sweep_inv sweep_live jit_inv_magic)


section \<open>Guest writes\<close>

lemma count_page_event_inv: "jit_inv j \<Longrightarrow> jit_inv (jit_count_page_event p j)"
  by (simp add: jit_count_page_event_def Let_def inv_page.keeps)

lemma count_page_event_live:
  "jit_inv j \<Longrightarrow> live_block (jit_count_page_event p j) i b \<Longrightarrow> live_block j i b"
  by (simp add: jit_count_page_event_def Let_def inv_page.live split: if_splits)

lemma invalidate_write_inv: "jit_inv j \<Longrightarrow> jit_inv (jit_invalidate_write a phys j)"
  by (auto simp: jit_invalidate_write_def Let_def inv_addr.keeps inv_phys.keeps
      intro!: count_page_event_inv split: option.split)

lemma invalidate_write_live:
  assumes "jit_inv j" and "live_block (jit_invalidate_write a phys j) i b"
  shows "live_block j i b" "\<not> jit_block_contains_addr b a" "phys = Some pa \<Longrightarrow> \<not> jit_phys_match pa b"
  using assms
  by (auto simp: jit_invalidate_write_def Let_def inv_addr.keeps inv_phys.keeps inv_addr.live inv_phys.live
      dest!: count_page_event_live [rotated] split: option.splits)

text \<open>The filter in front of the sweep lets no covered address through.\<close>

lemma uncovered_addr:
  assumes "jit_inv j" and "compiled_page_refcnt j (hi8 a) = 0 \<or> covered_addr_refcnt j a = 0"
    and "live_block j i b"
  shows "\<not> jit_block_contains_addr b a"
  using assms jit_inv_counter(3) [OF assms(1), of "C_PAGE (hi8 a)"]
    jit_inv_counter(3) [OF assms(1), of "C_ADDR a"]
  by (auto simp: live_slots_def overlaps_page_iff)

lemma uncovered_phys:
  assumes "jit_inv j" and "covered_phys_addr_refcnt j pa = 0" and "compiled_phys_page_refcnt j (hi8 pa) = 0"
    and "live_block j i b" and "mmu_phys_page_valid b"
  shows "if mmu_phys_byte_cov b then \<not> jit_phys_covers b pa else mmu_phys_page b \<noteq> hi8 pa"
  using assms jit_inv_counter(3) [OF assms(1), of "C_PADDR pa"]
    jit_inv_counter(3) [OF assms(1), of "C_PPAGE (hi8 pa)"]
  by (auto simp: live_slots_def)

lemma no_active: "jit_inv j \<Longrightarrow> active_blocks j = 0 \<Longrightarrow> \<not> live_block j i b"
  using card_discard(2) [of j i b "\<lambda>_. True"] by (auto simp: jit_inv_def)

text \<open>The sweep's 16-bit end address agrees with the covered range unless it wraps to 0.\<close>

lemma phys_match_covers:
  assumes "mmu_phys_page_valid b" "mmu_phys_byte_cov b"
    and "unat (mmu_phys_start b) + unat (jit_block_len b) < 65536"
  shows "jit_phys_match pa b \<longleftrightarrow> jit_phys_covers b pa"
proof -
  have "unat (mmu_phys_start b + jit_block_len b) = unat (mmu_phys_start b) + unat (jit_block_len b)"
    using assms(3) by (simp add: unat_word_ariths)
  with assms show ?thesis
    by (auto simp: jit_phys_match_def jit_phys_covers_def word_less_nat_alt word_le_nat_alt not_less)
qed

text \<open>What the library relies on from a translate callback: it leaves the JIT alone.\<close>

definition translate_keeps_jit :: "'h host \<Rightarrow> bool" where
  "translate_keeps_jit H \<longleftrightarrow>
     (\<forall>f ctx va acc e. jit (snd (h_mmu_translate H f ctx va acc e)) = jit e \<and>
        in_jit_run (snd (h_mmu_translate H f ctx va acc e)) = in_jit_run e)"

lemma translate_addr_jit:
  "translate_keeps_jit H \<Longrightarrow> jit (snd (rk65c02_mmu_translate_addr H va acc perm e)) = jit e"
  "translate_keeps_jit H \<Longrightarrow> in_jit_run (snd (rk65c02_mmu_translate_addr H va acc perm e)) = in_jit_run e"
  by (simp_all add: rk65c02_mmu_translate_addr_def translate_keeps_jit_def Let_def case_prod_beta
      split: option.split)

lemma jit_translate_paddr_jit:
  "translate_keeps_jit H \<Longrightarrow> jit (snd (jit_translate_paddr H va acc e)) = jit e"
  "translate_keeps_jit H \<Longrightarrow> in_jit_run (snd (jit_translate_paddr H va acc e)) = in_jit_run e"
  using translate_addr_jit [of H va acc "access_perm acc" e]
  by (auto simp: jit_translate_paddr_def rk65c02_mmu_translate_cached_def
      split: prod.splits option.splits sum.splits if_splits)

text \<open>The physical address a write event carries: only when some block may cover it.\<close>

definition write_phys :: "'h host \<Rightarrow> u16 \<Rightarrow> rk65c02_jit \<Rightarrow> 'h emu \<Rightarrow> u16 option" where
  "write_phys H a j e =
     (if compiled_phys_refs_total j = 0 then None
      else case fst (jit_translate_paddr H a MMU_WRITE e) of
             None \<Rightarrow> None
           | Some pa \<Rightarrow>
               (if covered_phys_addr_refcnt j pa \<noteq> 0 \<or> compiled_phys_page_refcnt j (hi8 pa) \<noteq> 0
                then Some pa else None))"

lemma note_guest_write_jit:
  assumes "translate_keeps_jit H" and "jit e = Some j" and "magic j = JIT_MAGIC"
  shows "jit (rk65c02_jit_note_guest_write H a e) = Some
     (let phys = write_phys H a j e;
          virt = (compiled_page_refcnt j (hi8 a) \<noteq> 0 \<and> covered_addr_refcnt j a \<noteq> 0);
          j1 = j\<lparr>stats := (stats j)\<lparr>write_events := write_events (stats j) + 1\<rparr>\<rparr>
      in if active_blocks j = 0 \<or> \<not> virt \<and> phys = None then j
         else if in_jit_run e then jit_record_pending a phys j1 else jit_invalidate_write a phys j1)"
  using assms(2,3) jit_translate_paddr_jit [OF assms(1), of a MMU_WRITE e]
  by (auto simp: rk65c02_jit_note_guest_write_def write_phys_def Let_def
      split: prod.split option.split)

lemma write_phys_None:
  assumes "jit_inv j" "write_phys H a j e = None"
    and "fst (jit_translate_paddr H a MMU_WRITE e) = Some pa" "live_block j i b" "mmu_phys_page_valid b"
  shows "if mmu_phys_byte_cov b then \<not> jit_phys_covers b pa else mmu_phys_page b \<noteq> hi8 pa"
proof (rule uncovered_phys [OF assms(1) _ _ assms(4,5)])
  have "0 < card (live_slots j mmu_phys_page_valid)"
    using assms(5) by (rule card_discard(2) [OF assms(4)])
  then have "compiled_phys_refs_total j \<noteq> 0"
    using assms(1) jit_inv_counter(2) [OF assms(1), of mmu_phys_page_valid]
    by (auto simp: jit_inv_def word_of_nat_eq_0_iff dest: dvd_imp_le)
  with assms(2,3) show "covered_phys_addr_refcnt j pa = 0" "compiled_phys_page_refcnt j (hi8 pa) = 0"
    by (auto simp: write_phys_def split: if_splits)
qed

lemma write_phys_Some:
  "write_phys H a j e = Some pa \<Longrightarrow> fst (jit_translate_paddr H a MMU_WRITE e) = Some pa"
  by (auto simp: write_phys_def split: if_splits option.splits)

section \<open>Deferred writes\<close>

lemma pending_sweep_slot [simp]:
  "pending_write_addr (jit_sweep_slot p i j) = pending_write_addr j"
  "pending_write_phys_valid (jit_sweep_slot p i j) = pending_write_phys_valid j"
  "pending_write_phys_addr (jit_sweep_slot p i j) = pending_write_phys_addr j"
  by (simp_all add: jit_sweep_slot_def jit_discard_block_def Let_def split: option.split)

lemma pending_sweep [simp]:
  "pending_write_addr (jit_sweep p j) = pending_write_addr j"
  "pending_write_phys_valid (jit_sweep p j) = pending_write_phys_valid j"
  "pending_write_phys_addr (jit_sweep p j) = pending_write_phys_addr j"
proof -
  have "pending_write_addr (fold (jit_sweep_slot p) is j) = pending_write_addr j \<and>
      pending_write_phys_valid (fold (jit_sweep_slot p) is j) = pending_write_phys_valid j \<and>
      pending_write_phys_addr (fold (jit_sweep_slot p) is j) = pending_write_phys_addr j" for "is"
    by (induction "is" arbitrary: j) simp_all
  then show "pending_write_addr (jit_sweep p j) = pending_write_addr j"
    "pending_write_phys_valid (jit_sweep p j) = pending_write_phys_valid j"
    "pending_write_phys_addr (jit_sweep p j) = pending_write_phys_addr j"
    unfolding jit_sweep_def fold_u16 by simp_all
qed

lemma pending_invalidate_write [simp]:
  "pending_write_addr (jit_invalidate_write a phys j) = pending_write_addr j"
  "pending_write_phys_valid (jit_invalidate_write a phys j) = pending_write_phys_valid j"
  "pending_write_phys_addr (jit_invalidate_write a phys j) = pending_write_phys_addr j"
  by (simp_all add: jit_invalidate_write_def jit_count_page_event_def Let_def
      jit_invalidate_blocks_for_addr_def jit_invalidate_blocks_for_page_def
      jit_invalidate_blocks_for_phys_addr_def split: option.split)

lemma pending_fold:
  assumes "jit_inv j"
  shows "jit_inv (fold jit_pending_event ks j)"
    and "live_block (fold jit_pending_event ks j) i b \<Longrightarrow>
      live_block j i b \<and> (\<forall>k \<in> set ks. \<not> jit_block_contains_addr b (pending_write_addr j k) \<and>
        (pending_write_phys_valid j k \<longrightarrow> \<not> jit_phys_match (pending_write_phys_addr j k) b))"
proof -
  have "jit_inv (fold jit_pending_event ks j) \<and>
      (live_block (fold jit_pending_event ks j) i b \<longrightarrow>
        live_block j i b \<and> (\<forall>k \<in> set ks. \<not> jit_block_contains_addr b (pending_write_addr j k) \<and>
          (pending_write_phys_valid j k \<longrightarrow> \<not> jit_phys_match (pending_write_phys_addr j k) b)))"
    using assms
  proof (induction ks arbitrary: j)
    case (Cons k ks)
    let ?j = "jit_pending_event k j"
    from Cons.prems have "jit_inv ?j" by (simp add: jit_pending_event_def invalidate_write_inv)
    from Cons.IH [OF this] invalidate_write_live [OF Cons.prems, of "pending_write_addr j k"
        "if pending_write_phys_valid j k then Some (pending_write_phys_addr j k) else None" i b]
    show ?case by (auto simp: jit_pending_event_def)
  qed simp
  then show "jit_inv (fold jit_pending_event ks j)"
    "live_block (fold jit_pending_event ks j) i b \<Longrightarrow>
      live_block j i b \<and> (\<forall>k \<in> set ks. \<not> jit_block_contains_addr b (pending_write_addr j k) \<and>
        (pending_write_phys_valid j k \<longrightarrow> \<not> jit_phys_match (pending_write_phys_addr j k) b))"
    by blast+
qed

lemma flush_live [simp]: "\<not> live_block (jit_backend_flush j) i b"
  by (auto simp: live_block_def jit_backend_flush_eq killed_def)

lemma flush_pending [simp]: "pending_writes (jit_backend_flush j) = 0"
  by (simp add: jit_backend_flush_eq)

lemma flush_inv: "magic j = JIT_MAGIC \<Longrightarrow> jit_inv (jit_backend_flush j)"
proof -
  have "counter_val (jit_backend_flush j) c = 0" for c
    by (cases c) (simp_all add: jit_backend_flush_eq uncounted_def)
  moreover assume "magic j = JIT_MAGIC"
  ultimately show ?thesis
    by (simp add: jit_inv_def live_slots_def) (simp add: jit_backend_flush_eq uncounted_def)
qed

lemma process_pending:
  assumes "jit_inv j"
  shows "jit_inv (snd (jit_process_pending_writes j))"
    and "live_block (snd (jit_process_pending_writes j)) i b \<Longrightarrow>
      \<not> pending_write_overflow j \<and> live_block j i b \<and>
      (\<forall>k < pending_writes j. \<not> jit_block_contains_addr b (pending_write_addr j k) \<and>
        (pending_write_phys_valid j k \<longrightarrow> \<not> jit_phys_match (pending_write_phys_addr j k) b))"
    and "pending_writes (snd (jit_process_pending_writes j)) = 0"
proof -
  show "jit_inv (snd (jit_process_pending_writes j))"
    using pending_fold(1) [OF assms] flush_inv [OF jit_inv_magic [OF assms]]
    by (simp add: jit_process_pending_writes_def Let_def)
  show "pending_writes (snd (jit_process_pending_writes j)) = 0"
    by (simp add: jit_process_pending_writes_def Let_def)
  assume "live_block (snd (jit_process_pending_writes j)) i b"
  then show "\<not> pending_write_overflow j \<and> live_block j i b \<and>
      (\<forall>k < pending_writes j. \<not> jit_block_contains_addr b (pending_write_addr j k) \<and>
        (pending_write_phys_valid j k \<longrightarrow> \<not> jit_phys_match (pending_write_phys_addr j k) b))"
    using pending_fold(2) [OF assms, of "[0..<pending_writes j]" i b]
    by (cases "pending_write_overflow j")
      (simp_all add: jit_process_pending_writes_def Let_def lessThan_def [symmetric] atLeast0LessThan
        Ball_def)
qed

section \<open>Publishing a block\<close>

lemma put_slots:
  assumes "\<not> (\<exists>b'. live_block j pc b')"
  shows "live_slots (j\<lparr>blocks := (blocks j)(pc := Some b)\<rparr>) P =
      (if fn b \<noteq> None \<and> P b then insert pc (live_slots j P) else live_slots j P)"
    and "pc \<notin> live_slots j P"
  using assms by (auto simp: live_slots_def live_block_def)

lemma put_dead_inv:
  assumes "jit_inv j" "\<not> (\<exists>b'. live_block j pc b')" "fn b = None"
  shows "jit_inv (j\<lparr>blocks := (blocks j)(pc := Some b)\<rparr>)"
proof -
  have "counter_val (j\<lparr>blocks := f\<rparr>) c = counter_val j c" for f c
    by (cases c) simp_all
  with assms show ?thesis by (simp add: jit_inv_def put_slots)
qed

lemma publish_inv:
  assumes inv: "jit_inv j" and new: "\<not> (\<exists>b'. live_block j pc b')"
    and room: "active_blocks j < JIT_MAX_ACTIVE_BLOCKS" and b: "fn b \<noteq> None"
  shows "jit_inv (jit_publish b (j\<lparr>blocks := (blocks j)(pc := Some b)\<rparr>))"
proof -
  let ?j = "j\<lparr>blocks := (blocks j)(pc := Some b)\<rparr>"
  let ?k = "jit_publish b ?j"
  have slots: "live_slots ?k P = (if P b then insert pc (live_slots j P) else live_slots j P)" for P
    using put_slots(1) [OF new, of b P] b by (simp add: jit_publish_def Let_def live_slots_def live_block_def)
  have card: "card (live_slots ?k P) = card (live_slots j P) + (if P b then 1 else 0)" for P
    using put_slots(2) [OF new, of P] by (simp add: slots)
  have "counter_val ?k c = counter_val (jit_block_page_refs_update True b ?j) c" for c
    by (cases c) (simp_all add: jit_publish_def Let_def)
  moreover have "counter_val ?j c = counter_val j c" for c by (cases c) simp_all
  ultimately have "counter_val ?k c = of_nat (card (live_slots ?k (counts c)))" for c
    by (simp add: counter_refs_update refcnt_step_def card jit_inv_counter(1) [OF inv] add.commute)
  moreover have "compiled_phys_refs_total ?k = of_nat (card (live_slots ?k mmu_phys_page_valid))"
    unfolding card using inv
    by (simp add: jit_publish_def Let_def total_refs_update jit_inv_def add.commute)
  moreover have "active_blocks ?k = active_blocks j + 1" "magic ?k = magic j"
    by (simp_all add: jit_publish_def Let_def)
  ultimately show ?thesis using inv room by (simp add: jit_inv_def card)
qed

section \<open>Building a block\<close>

definition ends_block :: "u8 \<Rightarrow> bool" where
  "ends_block opc \<longleftrightarrow> \<not> jit_opcode_is_cond_branch opc \<and>
     (instruction_modify_pc (instruction_decode opc) \<or> opc = 0x60 \<or> opc = 0xDB \<or> opc = 0xCB)"

text \<open>
  The instructions of a block are decoded from their opcodes, follow each other, start and end
  on the page of the entry point, and only the last may leave the straight line.
\<close>

fun block_ok :: "u16 \<Rightarrow> u16 \<Rightarrow> jit_block_insn list \<Rightarrow> bool" where
  "block_ok start pc [] \<longleftrightarrow> True"
| "block_ok start pc (bi # bis) \<longleftrightarrow>
     bi_id bi = instruction_decode (opcode (bi_i bi)) \<and>
     hi8 pc = hi8 start \<and> hi8 (pc + ucast (isize (bi_id bi)) - 1) = hi8 start \<and>
     (bis \<noteq> [] \<longrightarrow> \<not> ends_block (opcode (bi_i bi))) \<and>
     block_ok start (pc + ucast (isize (bi_id bi))) bis"

lemma jit_build_loop_ok:
  "jit_build_loop H start n pc acc e = Ret insns e' \<Longrightarrow>
     \<exists>new. insns = acc @ new \<and> length new \<le> n \<and> block_ok start pc new"
proof (induction n arbitrary: pc acc e)
  case 0
  then show ?case by simp
next
  case (Suc n)
  show ?case
  proof (cases "hi8 pc = hi8 start \<and> insns \<noteq> acc")
    case False
    with Suc.prems show ?thesis by (intro exI [of _ "[]"]) (auto split: if_splits)
  next
    case True
    then obtain i e1 where f: "instruction_fetch_emu H pc e = Ret i e1"
      using Suc.prems by (cases "instruction_fetch_emu H pc e") auto
    define idf bi pc' where "idf = instruction_decode (opcode i)" and "bi = \<lparr>bi_i = i, bi_id = idf\<rparr>"
      and "pc' = pc + ucast (isize idf)"
    from Suc.prems True have page: "hi8 (pc' - 1) = hi8 start"
      and rest: "if ends_block (opcode i) then insns = acc @ [bi]
        else jit_build_loop H start n pc' (acc @ [bi]) e1 = Ret insns e'"
      by (auto simp: f Let_def ends_block_def idf_def bi_def pc'_def split: if_splits)
    have "\<exists>new. insns = acc @ bi # new \<and> length new \<le> n \<and> block_ok start pc' new \<and>
        (new \<noteq> [] \<longrightarrow> \<not> ends_block (opcode i))"
      using rest Suc.IH [of pc' "acc @ [bi]" e1] by (auto split: if_splits)
    then obtain new where "insns = acc @ bi # new" "length new \<le> n" "block_ok start pc' new"
      "new \<noteq> [] \<longrightarrow> \<not> ends_block (opcode i)" by blast
    with True page show ?thesis
      by (intro exI [of _ "bi # new"]) (simp add: bi_def pc'_def idf_def)
  qed
qed

definition insns_len :: "jit_block_insn list \<Rightarrow> nat" where
  "insns_len insns = (\<Sum>bi \<leftarrow> insns. unat (isize (bi_id bi)))"

lemma insns_end_len: "insns_end pc insns = pc + of_nat (insns_len insns)"
  by (induction insns arbitrary: pc) (simp_all add: insns_end_def insns_len_def add.assoc)

lemma block_ok_len:
  "block_ok start pc insns \<Longrightarrow> insns \<noteq> [] \<Longrightarrow> unat (lo8 pc) + insns_len insns \<le> 256"
proof (induction insns arbitrary: pc)
  case Nil
  then show ?case by simp
next
  case (Cons bi bis)
  define s where "s = unat (isize (bi_id bi))"
  have ok: "hi8 pc = hi8 start" "hi8 (pc + ucast (isize (bi_id bi)) - 1) = hi8 start"
    "block_ok start (pc + ucast (isize (bi_id bi))) bis"
    and idf: "bi_id bi = instruction_decode (opcode (bi_i bi))"
    using Cons.prems unfolding block_ok.simps by blast+
  have size: "0 < s" "s \<le> 3"
    using isize_cases [of "opcode (bi_i bi)"] unfolding s_def idf by auto
  have adv: "pc + ucast (isize (bi_id bi)) = pc + of_nat s" by (simp add: s_def)
  then have "pc + ucast (isize (bi_id bi)) - 1 = pc + of_nat (s - 1)"
    using size by (simp add: of_nat_diff)
  with ok size have fits: "unat (lo8 pc) + (s - 1) < 256"
    by (intro same_page_advance) simp_all
  show ?case
  proof (cases "bis = []")
    case True
    with fits size show ?thesis by (simp add: insns_len_def s_def [symmetric])
  next
    case False
    with ok(3) have "hi8 (pc + of_nat s) = hi8 pc"
      unfolding adv by (cases bis) (simp_all add: ok(1))
    with size have "unat (lo8 pc) + s < 256" by (intro same_page_advance) simp_all
    with Cons.IH [OF ok(3) False] show ?thesis
      by (simp add: adv page_advance insns_len_def s_def [symmetric])
  qed
qed

lemma block_ok_span:
  assumes "block_ok start start insns" and "in_span start (insns_end start insns) a"
  shows "hi8 a = hi8 start"
proof -
  let ?d = "unat (a - start)"
  have "insns \<noteq> []" using assms(2) by (auto simp: insns_end_def)
  from block_ok_len [OF assms(1) this] have len: "unat (lo8 start) + insns_len insns \<le> 256" .
  then have "unat (of_nat (insns_len insns) :: u16) = insns_len insns" by (simp add: unat_of_nat)
  with assms(2) have "?d < insns_len insns"
    by (simp add: in_span_def insns_end_len word_less_nat_alt)
  with len have "hi8 (start + of_nat ?d) = hi8 start" by (intro page_advance) simp
  then show ?thesis by simp
qed

end
