(* ===== verification/ExecFrame.thy ===== *)
theory ExecFrame
  imports Exec Frames
begin

text \<open>
  Contract between the processor core and the memory system: a property of the emulator state
  that guest accesses, register updates and control-field updates keep is kept by every
  instruction handler and by \<open>rk65c02_exec\<close>, and none of them fails an assertion.
\<close>

section \<open>Facts about the table rows\<close>

lemma jmp_modes:
  "emul (instruction_decode opc) = Some EMUL_JMP \<Longrightarrow>
     mode (instruction_decode opc) \<in> {ABSOLUTE, IABSOLUTE, IABSOLUTEX}"
proof -
  have "list_all (\<lambda>r. emul r = Some EMUL_JMP \<longrightarrow> mode r \<in> {ABSOLUTE, IABSOLUTE, IABSOLUTEX}) instrs"
    by (simp add: instrs_def row_def)
  from decode_all [OF this] show "emul (instruction_decode opc) = Some EMUL_JMP \<Longrightarrow>
     mode (instruction_decode opc) \<in> {ABSOLUTE, IABSOLUTE, IABSOLUTEX}" by blast
qed

lemmas handler_defs =
  emul_adc_def emul_and_def emul_asl_def emul_bbr_def emul_bbs_def emul_bit_def emul_bcc_def
  emul_bcs_def emul_beq_def emul_bmi_def emul_bne_def emul_bpl_def emul_bra_def emul_brk_def
  emul_bvc_def emul_bvs_def emul_clc_def emul_cld_def emul_cli_def emul_clv_def emul_cmp_def
  emul_cpx_def emul_cpy_def emul_dec_def emul_dex_def emul_dey_def emul_eor_def emul_inc_def
  emul_inx_def emul_iny_def emul_jmp_def emul_jsr_def emul_lda_def emul_ldx_def emul_ldy_def
  emul_lsr_def emul_nop_def emul_ora_def emul_pha_def emul_php_def emul_phx_def emul_phy_def
  emul_pla_def emul_plp_def emul_plx_def emul_ply_def emul_rti_def emul_rts_def emul_rmb_def
  emul_rol_def emul_ror_def emul_sbc_def emul_sed_def emul_sec_def emul_sei_def emul_smb_def
  emul_stp_def emul_sta_def emul_stx_def emul_sty_def emul_stz_def emul_tax_def emul_tay_def
  emul_trb_def emul_tsb_def emul_tsx_def emul_txa_def emul_txs_def emul_tya_def emul_wai_def
  emul_invalid_def

lemmas register_defs =
  set_A_def set_X_def set_Y_def set_SP_def set_PC_def set_P_def flag_put_def flag_set_def
  flag_clear_def status_zn_def instruction_status_adjust_zero_def
  instruction_status_adjust_negative_def program_counter_increment_def program_counter_branch_def

text \<open>The handlers that write the program counter themselves.\<close>

definition pc_handler :: "emul_fn \<Rightarrow> bool" where
  "pc_handler f =
     (case f of
        EMUL_BBR _ \<Rightarrow> True | EMUL_BBS _ \<Rightarrow> True | EMUL_BCC \<Rightarrow> True | EMUL_BCS \<Rightarrow> True
      | EMUL_BEQ \<Rightarrow> True | EMUL_BMI \<Rightarrow> True | EMUL_BNE \<Rightarrow> True | EMUL_BPL \<Rightarrow> True
      | EMUL_BRA \<Rightarrow> True | EMUL_BRK \<Rightarrow> True | EMUL_BVC \<Rightarrow> True | EMUL_BVS \<Rightarrow> True
      | EMUL_JMP \<Rightarrow> True | EMUL_JSR \<Rightarrow> True | EMUL_RTI \<Rightarrow> True | EMUL_RTS \<Rightarrow> True
      | _ \<Rightarrow> False)"

section \<open>The contract\<close>

text \<open>
  \<open>data_inv\<close> is what every instruction that leaves the program counter alone needs;
  \<open>cpu_inv\<close> adds the program counter and the sequences around an instruction. P changes by
  single flags or by a pull from the stack, which fixes bits 4 and 5. \<open>I\<close> holds where a call
  returns, \<open>L\<close> where it unwinds.
\<close>

definition status_flags :: "u8 set" where
  "status_flags = {P_CARRY, P_ZERO, P_IRQ_DISABLE, P_DECIMAL, P_SIGN_OVERFLOW, P_NEGATIVE}"

locale data_inv =
  fixes I :: "'h emu \<Rightarrow> bool" and L :: "'h emu \<Rightarrow> bool" and H :: "'h host"
  assumes I_fetch: "I e \<Longrightarrow> post (\<lambda>_. I) L (rk65c02_mem_fetch_1 H a e)"
    and I_read: "I e \<Longrightarrow> post (\<lambda>_. I) L (rk65c02_mem_read_1 H a e)"
    and I_write: "I e \<Longrightarrow> post (\<lambda>_. I) L (rk65c02_mem_write_1 H a v e)"
    and I_panic: "I e \<Longrightarrow> post (\<lambda>_. I) L (rk65c02_panic H e)"
    and I_A: "I e \<Longrightarrow> I (set_A v e)"
    and I_X: "I e \<Longrightarrow> I (set_X v e)"
    and I_Y: "I e \<Longrightarrow> I (set_Y v e)"
    and I_SP: "I e \<Longrightarrow> I (set_SP v e)"
    and I_flag_set: "m \<in> status_flags \<Longrightarrow> I e \<Longrightarrow> I (flag_set m e)"
    and I_flag_clear: "m \<in> status_flags \<Longrightarrow> I e \<Longrightarrow> I (flag_clear m e)"
    and I_pull: "I e \<Longrightarrow> I (set_P ((v OR P_UNDEFINED) AND NOT P_BREAK) e)"
    and I_stop: "I e \<Longrightarrow> I (e\<lparr>state := STOPPED, stopreason := r\<rparr>)"
begin

definition holds :: "('h, 'a) run \<Rightarrow> bool" where
  "holds m = post (\<lambda>_. I) L m"

lemma holds_Ret: "I e \<Longrightarrow> holds (Ret v e)"
  by (simp add: holds_def)

lemma holds_andthen: "holds m \<Longrightarrow> (\<And>v e. I e \<Longrightarrow> holds (f v e)) \<Longrightarrow> holds (andthen m f)"
  by (cases m) (simp_all add: holds_def)

lemma holds_if: "(c \<Longrightarrow> holds m) \<Longrightarrow> (\<not> c \<Longrightarrow> holds n) \<Longrightarrow> holds (if c then m else n)"
  by simp

lemma I_if: "(c \<Longrightarrow> I x) \<Longrightarrow> (\<not> c \<Longrightarrow> I y) \<Longrightarrow> I (if c then x else y)"
  by simp

lemma I_flags:
  "m \<in> status_flags \<Longrightarrow> I e \<Longrightarrow> I (flag_put m c e)" "I e \<Longrightarrow> I (status_zn v e)"
  by (simp_all add: flag_put_def status_zn_def instruction_status_adjust_zero_def
      instruction_status_adjust_negative_def I_flag_set I_flag_clear status_flags_def)

lemma holds_accesses:
  "I e \<Longrightarrow> holds (rk65c02_mem_fetch_1 H a e)" "I e \<Longrightarrow> holds (rk65c02_mem_read_1 H a e)"
  "I e \<Longrightarrow> holds (rk65c02_mem_write_1 H a v e)" "I e \<Longrightarrow> holds (rk65c02_panic H e)"
  by (simp_all add: holds_def I_fetch I_read I_write I_panic)

lemmas I_registers = I_A I_X I_Y I_SP I_flags I_flag_set I_flag_clear I_pull

lemmas holds_rules = holds_andthen holds_if holds_Ret holds_accesses I_if I_registers I_stop

lemma holds_fetch: "I e \<Longrightarrow> holds (instruction_fetch_emu H a e)"
  unfolding instruction_fetch_emu_def Let_def by (intro holds_rules)

lemma holds_address: "I e \<Longrightarrow> holds (instruction_data_address H idf i e)"
  unfolding instruction_data_address_def read_pointer_def
  by (cases "mode idf") (simp_all only: addressing.case, (intro holds_rules; assumption)+)

lemma holds_data_read: "I e \<Longrightarrow> holds (instruction_data_read_1 H idf i e)"
  unfolding instruction_data_read_1_def by (intro holds_rules holds_address)

lemma holds_data_write: "I e \<Longrightarrow> holds (instruction_data_write_1 H idf i v e)"
  unfolding instruction_data_write_1_def set_A_def [symmetric] by (intro holds_rules holds_address)

lemma holds_push: "I e \<Longrightarrow> holds (stack_push H v e)"
  unfolding stack_push_def set_SP_def [symmetric] by (intro holds_rules)

lemma holds_pop: "I e \<Longrightarrow> holds (stack_pop H e)"
  unfolding stack_pop_def Let_def set_SP_def [symmetric] by (intro holds_rules)

lemmas holds_operations = holds_data_read holds_data_write holds_push holds_pop

lemma flags_in: "P_CARRY \<in> status_flags" "P_ZERO \<in> status_flags" "P_IRQ_DISABLE \<in> status_flags"
  "P_DECIMAL \<in> status_flags" "P_SIGN_OVERFLOW \<in> status_flags" "P_NEGATIVE \<in> status_flags"
  by (simp_all add: status_flags_def)

lemma holds_data_emul:
  assumes "I e" "\<not> pc_handler f"
  shows "holds (emul_call f H idf i e)"
  using assms
  by (cases f; simp only: emul_call.simps handler_defs Let_def pc_handler_def emul_fn.case simp_thms)
    (intro holds_rules holds_operations flags_in; assumption)+

end

text \<open>Interrupt entry also writes the program counter and clears the break bit.\<close>

locale irq_inv = data_inv I L H for I :: "'h emu \<Rightarrow> bool" and L :: "'h emu \<Rightarrow> bool" and H :: "'h host" +
  assumes I_PC: "I e \<Longrightarrow> I (set_PC w e)"
    and I_break: "I e \<Longrightarrow> I (flag_clear P_BREAK e)"
    and I_irq: "I e \<Longrightarrow> I (e\<lparr>irq := False\<rparr>)"
begin

lemma holds_irq: "I e \<Longrightarrow> holds (rk65c02_irq H e)"
  unfolding rk65c02_irq_def Let_def by (intro holds_rules holds_push I_PC I_break I_irq flags_in)

lemma post_brk:
  "I (flag_set P_BREAK (set_PC (rPC (regs e) + 2) e)) \<Longrightarrow> post (\<lambda>_. I) L (emul_brk H idf i e)"
  unfolding emul_brk_def Let_def holds_def [symmetric] by (rule holds_irq)

end

locale cpu_inv = irq_inv I L H for I :: "'h emu \<Rightarrow> bool" and L :: "'h emu \<Rightarrow> bool" and H :: "'h host" +
  assumes I_brk: "I e \<Longrightarrow> post (\<lambda>_. I) L (emul_brk H idf i e)"
    and I_reexec: "I e \<Longrightarrow> I (e\<lparr>mmu_fault_reexec := False\<rparr>)"
    and I_trace: "I e \<Longrightarrow> I (e\<lparr>trace_head := tr\<rparr>)"
    and I_disasm: "I e \<Longrightarrow> runtime_disassembly e \<Longrightarrow> I (e\<lparr>bus := snd (disassemble (h_dev H) (h_uninit H) (bus e) pc)\<rparr>)"
begin

lemma I_pc_moves: "I e \<Longrightarrow> I (program_counter_increment idf e)" "I e \<Longrightarrow> I (program_counter_branch v e)"
  unfolding program_counter_increment_def program_counter_branch_def set_PC_def [symmetric] by (simp_all add: I_PC)

lemma holds_jmp: "I e \<Longrightarrow> mode idf \<in> {ABSOLUTE, IABSOLUTE, IABSOLUTEX} \<Longrightarrow> holds (emul_jmp H idf i e)"
  unfolding emul_jmp_def Let_def
  by (auto intro!: holds_andthen holds_Ret holds_accesses I_PC)

lemma holds_pc_emul:
  assumes "I e" "pc_handler f" and "f = EMUL_JMP \<Longrightarrow> mode idf \<in> {ABSOLUTE, IABSOLUTE, IABSOLUTEX}"
  shows "holds (emul_call f H idf i e)"
proof (cases "f \<in> {EMUL_BRK, EMUL_JMP}")
  case True
  with I_brk [OF assms(1), of idf i] holds_jmp [OF assms(1), of idf i] assms(3) show ?thesis
    by (auto simp: holds_def)
next
  case False
  with assms(1,2) show ?thesis
    by (cases f; simp only: emul_call.simps handler_defs Let_def pc_handler_def emul_fn.case simp_thms
        insert_iff)
      (intro holds_rules holds_operations I_PC I_pc_moves; assumption)+
qed

lemma holds_emul:
  "I e \<Longrightarrow> (f = EMUL_JMP \<Longrightarrow> mode idf \<in> {ABSOLUTE, IABSOLUTE, IABSOLUTEX}) \<Longrightarrow> holds (emul_call f H idf i e)"
  using holds_data_emul holds_pc_emul by blast

lemma holds_dispatch: "I e \<Longrightarrow> holds (emul_dispatch H (instruction_decode opc) i e)"
  using emul_present [of opc] jmp_modes [of opc]
  by (auto simp: emul_dispatch_def intro!: holds_emul split: option.split)

lemma I_advance: "I e \<Longrightarrow> I (exec_advance idf e)"
  by (simp add: exec_advance_def I_reexec I_pc_moves)

lemma holds_exec: "I e \<Longrightarrow> holds (rk65c02_exec H e)"
  unfolding rk65c02_exec_def Let_def debug_trace_savestate_def
  by (intro holds_rules holds_irq holds_fetch holds_dispatch I_trace I_advance I_disasm; assumption)

lemma post_exec: "I e \<Longrightarrow> post (\<lambda>_. I) L (rk65c02_exec H e)"
  using holds_exec by (simp add: holds_def)

end

section \<open>Instances\<close>

text \<open>The trivial instance: no host makes the core fail an assertion.\<close>

lemma post_True: "m \<noteq> Abort \<Longrightarrow> post (\<lambda>_ _. True) (\<lambda>_. True) m"
  by (cases m) simp_all

lemma stop_error_total: "emu_stop_error H e \<noteq> Abort"
  by (simp add: emu_stop_error_def Let_def)

lemma andthen_Abort: "andthen m f = Abort \<longleftrightarrow> m = Abort \<or> (\<exists>v s. m = Ret v s \<and> f v s = Abort)"
  by (cases m) simp_all

lemma access_total:
  "rk65c02_mem_fetch_1 H a e \<noteq> Abort" "rk65c02_mem_read_1 H a e \<noteq> Abort"
  "rk65c02_mem_write_1 H a v e \<noteq> Abort"
  by (simp_all add: rk65c02_mem_fetch_1_def rk65c02_mem_read_1_def rk65c02_mem_write_1_def
      rk65c02_mem_read_direct_def rk65c02_mem_write_direct_def rk65c02_mem_read_mmu_def
      rk65c02_mem_write_mmu_def rk65c02_mmu_fault_def stop_error_total andthen_Abort Let_def
      split: mem_fn.split prod.split sum.split)

text \<open>
  Invariants under a condition on the host: without the condition there is nothing to show but
  that the access is not a failed assertion.
\<close>

lemma post_cond:
  "m \<noteq> Abort \<Longrightarrow> (A \<Longrightarrow> post (\<lambda>_. J) J m) \<Longrightarrow> post (\<lambda>_ e. A \<longrightarrow> J e) (\<lambda>e. A \<longrightarrow> J e) m"
  by (cases m) auto

text \<open>Outside native code nothing unwinds: faults and panics return.\<close>

lemma stop_error_outside:
  assumes "host_keeps in_jit_run H" "\<not> in_jit_run e"
  shows "post (\<lambda>_ e'. \<not> in_jit_run e') (\<lambda>_. False) (emu_stop_error H e)"
  using assms
  by (simp add: emu_stop_error_def Let_def rk65c02_maybe_call_on_stop_def host_keeps_def split: option.split)

lemma fault_outside:
  assumes "host_keeps in_jit_run H" "\<not> in_jit_run e"
  shows "post (\<lambda>_ e'. \<not> in_jit_run e') (\<lambda>_. False) (rk65c02_mmu_fault H va acc code e)"
  unfolding rk65c02_mmu_fault_def Let_def
  by (rule stop_error_outside [OF assms(1)]) (use assms in \<open>simp add: host_keeps_def split: option.split\<close>)

lemma translate_outside:
  "host_keeps in_jit_run H \<Longrightarrow> in_jit_run (snd (rk65c02_mmu_translate_addr H va acc perm e)) = in_jit_run e"
  by (simp add: rk65c02_mmu_translate_addr_def Let_def host_keeps_def case_prod_beta split: option.split)

lemma note_write_outside:
  assumes "host_keeps in_jit_run H"
  shows "in_jit_run (rk65c02_jit_note_guest_write H a e) = in_jit_run e"
proof -
  have "in_jit_run (snd (jit_translate_paddr H a MMU_WRITE e)) = in_jit_run e"
    using translate_outside [OF assms, of a MMU_WRITE "access_perm MMU_WRITE" e]
    by (auto simp: jit_translate_paddr_def rk65c02_mmu_translate_cached_def
        split: prod.splits option.splits sum.splits if_splits)
  then show ?thesis
    by (simp add: rk65c02_jit_note_guest_write_def Let_def case_prod_beta split: option.split)
qed

lemma access_outside:
  assumes H: "host_keeps in_jit_run H" and e: "\<not> in_jit_run e"
  shows "post (\<lambda>_ e'. \<not> in_jit_run e') (\<lambda>_. False) (rk65c02_mem_fetch_1 H a e)"
    and "post (\<lambda>_ e'. \<not> in_jit_run e') (\<lambda>_. False) (rk65c02_mem_read_1 H a e)"
    and "post (\<lambda>_ e'. \<not> in_jit_run e') (\<lambda>_. False) (rk65c02_mem_write_1 H a v e)"
proof -
  note tr = translate_outside [OF H, where e = e] and fault = fault_outside [OF H]
  have r: "post (\<lambda>_ e'. \<not> in_jit_run e') (\<lambda>_. False) (rk65c02_mem_read_mmu H a acc e)" for acc
    using tr [of a acc "if acc = MMU_FETCH then MMU_PERM_X else MMU_PERM_R"] e
    by (auto simp: rk65c02_mem_read_mmu_def case_prod_beta intro!: post_seq [OF fault] split: prod.split sum.split)
  show "post (\<lambda>_ e'. \<not> in_jit_run e') (\<lambda>_. False) (rk65c02_mem_fetch_1 H a e)"
    "post (\<lambda>_ e'. \<not> in_jit_run e') (\<lambda>_. False) (rk65c02_mem_read_1 H a e)"
    using r e by (simp_all add: rk65c02_mem_fetch_1_def rk65c02_mem_read_1_def rk65c02_mem_read_direct_def
        case_prod_beta split: mem_fn.split)
  have "post (\<lambda>_ e'. \<not> in_jit_run e') (\<lambda>_. False) (rk65c02_mem_write_mmu H a v MMU_WRITE e)"
    using tr [of a MMU_WRITE MMU_PERM_W] e
    by (auto simp: rk65c02_mem_write_mmu_def intro!: fault split: prod.split sum.split)
  with e have "post (\<lambda>_ e'. \<not> in_jit_run e') (\<lambda>_. False)
      (case mem_write_1_fn e of
         MEM_DIRECT \<Rightarrow> rk65c02_mem_write_direct H a v MMU_WRITE e
       | MEM_MMU \<Rightarrow> rk65c02_mem_write_mmu H a v MMU_WRITE e)"
    by (simp add: rk65c02_mem_write_direct_def split: mem_fn.split)
  then show "post (\<lambda>_ e'. \<not> in_jit_run e') (\<lambda>_. False) (rk65c02_mem_write_1 H a v e)"
    unfolding rk65c02_mem_write_1_def by (rule post_seq) (simp add: note_write_outside [OF H])
qed

interpretation total_irq: irq_inv "\<lambda>_. True" "\<lambda>_. True" H for H
  by unfold_locales (simp_all add: access_total stop_error_total rk65c02_panic_def post_True)

interpretation total: cpu_inv "\<lambda>_. True" "\<lambda>_. True" H for H
  by unfold_locales (simp_all add: total_irq.post_brk)

text \<open>
  C21. Executing one instruction never fails an assertion: whatever is in memory and whatever
  the host does, every opcode has a handler and every handler supports the addressing modes
  of its table rows.
\<close>

theorem exec_never_aborts: "rk65c02_exec H e \<noteq> Abort"
  using total.post_exec [of H e] by auto

end
