(* ===== verification/NativeFrame.thy ===== *)
theory NativeFrame
  imports JitNative ExecFrame
begin

text \<open>
  The contract of \<open>ExecFrame\<close> extended to native code: a property that the processor core
  keeps, and that the counters native code updates do not matter to, holds wherever a block's
  code returns or unwinds.
\<close>

section \<open>Running code, step by step\<close>

fun resume :: "'h host \<Rightarrow> jit_op list \<Rightarrow> jit_target option \<Rightarrow> 'h mach \<Rightarrow> ('h, jit_exit) mrun" where
  "resume H xs None m = run_code H xs m"
| "resume H xs (Some (Node n)) m = run_code H (after n xs) m"
| "resume H xs (Some (Label k)) m = Ret (Goto k) m"
| "resume H xs (Some Block_end) m = Ret Leave_block m"

lemma run_code_Cons: "run_code H (x # xs) m = andthen (jit_step H x m) (resume H xs)"
  by (simp split: outcome.split option.split jit_target.split)

lemma put_simps [simp]:
  "mr (put_reg r v m) = (mr m)(r := v)" "memu (put_reg r v m) = memu m" "mret (put_reg r v m) = mret m"
  "mr (put_emu e m) = mr m" "memu (put_emu e m) = e" "mret (put_emu e m) = mret m"
  by (simp_all add: put_reg_def put_emu_def)

lemma clobber_emu [simp]: "memu (clobber H m) = memu m"
  by (simp add: clobber_def)

section \<open>The contract\<close>

text \<open>Wherever the run ends, short of a failed assertion.\<close>

fun ends :: "('a \<Rightarrow> 's \<Rightarrow> bool) \<Rightarrow> ('s \<Rightarrow> bool) \<Rightarrow> ('s, 'a) outcome \<Rightarrow> bool" where
  "ends Q L (Ret v s) = Q v s"
| "ends Q L (Longjmp s) = L s"
| "ends Q L Abort = True"

lemma post_ends: "post Q L r \<Longrightarrow> ends Q L r"
  by (cases r) simp_all

lemma ends_andthen: "ends Q L r \<Longrightarrow> (\<And>v s. Q v s \<Longrightarrow> ends R L (f v s)) \<Longrightarrow> ends R L (andthen r f)"
  by (cases r) simp_all

lemma ends_use:
  "(\<And>w. ends Q L (f w)) \<Longrightarrow> ends Q L (use_word v f)" "ends Q L r \<Longrightarrow> ends Q L (use_emu v r)"
  "ends Q L r \<Longrightarrow> ends Q L (use_stats v r)" "(\<And>w. x = Some w \<Longrightarrow> ends Q L (g w)) \<Longrightarrow> ends Q L (use_some x g)"
  subgoal by (cases v) simp_all
  subgoal by (cases v) simp_all
  subgoal by (cases v) simp_all
  subgoal by (cases x) simp_all
  done

locale native_inv = cpu_inv I L H for I :: "'h emu \<Rightarrow> bool" and L :: "'h emu \<Rightarrow> bool" and H :: "'h host" +
  assumes I_P: "I e \<Longrightarrow> I (set_P v e)"
    and I_budget: "I e \<Longrightarrow> I (e\<lparr>jit_loop_budget := b\<rparr>)"
    and I_stat: "I e \<Longrightarrow> I (store_stat w e)"
begin

definition keeps :: "('h, 'a) mrun \<Rightarrow> bool" where
  "keeps r = ends (\<lambda>_ m. I (memu m)) (\<lambda>m. L (memu m)) r"

lemma I_stores:
  "I e \<Longrightarrow> store_c f w e = Some e' \<Longrightarrow> I e'" "I e \<Longrightarrow> store_s f w e = Some e' \<Longrightarrow> I e'"
  "I e \<Longrightarrow> store_i f w e = Some e' \<Longrightarrow> I e'"
  subgoal by (cases f) (auto simp: I_P I_A I_X I_Y I_SP)
  subgoal by (cases f) (auto simp: I_PC)
  subgoal by (cases f) (auto simp: I_budget)
  done

lemma I_helpers:
  assumes "I e"
  shows "I (rk65c02_do_adc_bcd v e)" "I (rk65c02_do_sbc_bcd v e)"
  unfolding rk65c02_do_adc_bcd_def rk65c02_do_sbc_bcd_def Let_def
  by (intro I_registers flags_in assms)+

lemma keeps_on_emu: "post (\<lambda>_. I) L r \<Longrightarrow> ends (\<lambda>_ m. I (memu m)) (\<lambda>m. L (memu m)) (on_emu m r)"
  by (cases r) (simp_all add: on_emu_def)

lemma keeps_call:
  assumes "I (memu m)"
  shows "keeps (jit_call H f as m)"
  using assms
  by (cases "(H, f, as, m)" rule: jit_call.cases)
    (auto simp: keeps_def Let_def I_helpers jit_mem_read_1_def jit_bus_write_1_def jit_exec_fallback_def
      intro!: ends_use ends_andthen [OF keeps_on_emu] I_read I_write post_exec)

lemma keeps_step:
  assumes "I (memu m)"
  shows "keeps (jit_step H x m)"
  using assms keeps_call [OF assms]
  by (cases x)
    (auto simp: keeps_def I_stat intro!: ends_use ends_andthen [where Q = "\<lambda>_ m. I (memu m)"] dest: I_stores)

lemma keeps_code: "I (memu m) \<Longrightarrow> keeps (run_code H xs m)"
proof (induction xs arbitrary: m rule: measure_induct_rule [where f = length])
  case (less xs)
  show ?case
  proof (cases xs)
    case Nil
    with less.prems show ?thesis by (simp add: keeps_def)
  next
    case (Cons x ys)
    have "keeps (resume H ys t m')" if "I (memu m')" for t m'
      using less.IH that Cons after_length [of _ ys]
      by (cases "(H, ys, t, m')" rule: resume.cases) (auto simp: keeps_def less_Suc_eq_le)
    with keeps_step [OF less.prems, of x] show ?thesis
      unfolding Cons run_code_Cons keeps_def by (blast intro: ends_andthen)
  qed
qed

lemma keeps_block: "run_block H codes k m = Some r \<Longrightarrow> I (memu m) \<Longrightarrow> keeps r"
proof -
  let ?P = "\<lambda>H' codes k (m :: 'h mach) r. H' = H \<longrightarrow> I (memu m) \<longrightarrow> keeps r"
  assume run: "run_block H codes k m = Some r" and I: "I (memu m)"
  have "?P H codes k m r"
  proof (rule run_block.raw_induct [OF _ run, of ?P], intro impI)
    fix f :: "'h host \<Rightarrow> jit_op list list \<Rightarrow> nat \<Rightarrow> 'h mach \<Rightarrow> ('h, unit) mrun option" and H' codes k and m :: "'h mach" and r
    assume IH: "\<And>H codes k m r. f H codes k m = Some r \<Longrightarrow> ?P H codes k m r" and H: "H' = H" and I: "I (memu m)"
    assume body: "(if length codes \<le> k then Some (Ret () m)
      else case run_code H' (codes ! k) m of
             Ret Fall m \<Rightarrow> f H' codes (k + 1) m
           | Ret (Goto t) m \<Rightarrow> f H' codes t m
           | Ret Leave_block m \<Rightarrow> Some (Ret () m)
           | Longjmp m \<Rightarrow> Some (Longjmp m) | Abort \<Rightarrow> Some Abort) = Some r"
    show "keeps r"
      using body IH I keeps_code [OF I, of "codes ! k"]
      by (auto simp: H keeps_def split: if_splits outcome.splits jit_exit.splits)
  qed
  with I show ?thesis by simp
qed

lemma native_ends:
  assumes "jit_native H pc insns e = Some r" "I e"
  shows "ends (\<lambda>_. I) L r"
proof -
  from assms(1) obtain r' where r: "run_block H (jit_emit_block pc insns) 0 (enter_mach H e) = Some r'" "r = leave_mach r'"
    by (auto simp: jit_native_def)
  have "I (memu (enter_mach H e))" using assms(2) by (simp add: enter_mach_def)
  from keeps_block [OF r(1) this] r(2) show ?thesis
    by (cases r') (simp_all add: keeps_def leave_mach_def)
qed

end

end
