(* ===== verification/JitInvariant.thy ===== *)
theory JitInvariant
  imports JitCoherence NativeFrame
begin

text \<open>
  The invariant of the block cache and its preservation: reference counts that agree with the
  live blocks, blocks that stay on one page. Every guest access, block compilation and the whole
  run loop of \<open>JitRun\<close> keep it.
\<close>

section \<open>Shape of the blocks in the table\<close>

text \<open>
  The block of a slot starts at the slot's address; a live one was built from instructions that
  lie on its entry page, and its end address is theirs.
\<close>

definition block_wf :: "u16 \<Rightarrow> jit_block \<Rightarrow> bool" where
  "block_wf i b \<longleftrightarrow> start_pc b = i \<and>
     (case fn b of
        None \<Rightarrow> True
      | Some insns \<Rightarrow> insns \<noteq> [] \<and> length insns \<le> JIT_BLOCK_MAX_INSNS \<and> block_ok i i insns \<and>
          end_pc_exclusive b = insns_end i insns)"

definition blocks_wf :: "rk65c02_jit \<Rightarrow> bool" where
  "blocks_wf j \<longleftrightarrow> (\<forall>i b. blocks j i = Some b \<longrightarrow> block_wf i b)"

text \<open>The only change an invalidation makes to a slot is to take its native code.\<close>

definition shrinks :: "rk65c02_jit \<Rightarrow> rk65c02_jit \<Rightarrow> bool" where
  "shrinks j j' \<longleftrightarrow> (\<forall>k. blocks j' k = blocks j k \<or> blocks j' k = map_option killed (blocks j k))"

lemma shrinks_refl: "blocks j' = blocks j \<Longrightarrow> shrinks j j'"
  by (simp add: shrinks_def)

lemma shrinks_trans: "shrinks j j' \<Longrightarrow> shrinks j' j'' \<Longrightarrow> shrinks j j''"
  unfolding shrinks_def by (metis map_killed_killed)

lemma killed_wf: "block_wf i b \<Longrightarrow> block_wf i (killed b)"
  by (simp add: block_wf_def killed_def)

lemma shrinks_wf:
  assumes "shrinks j j'" "blocks_wf j"
  shows "blocks_wf j'"
  unfolding blocks_wf_def
proof (intro allI impI)
  fix i b
  assume b: "blocks j' i = Some b"
  from assms(1) have "blocks j' i = blocks j i \<or> blocks j' i = map_option killed (blocks j i)"
    by (simp add: shrinks_def)
  with b obtain b' where "blocks j i = Some b'" "b = b' \<or> b = killed b'"
    by (cases "blocks j i") auto
  with assms(2) show "block_wf i b" by (auto simp: blocks_wf_def intro: killed_wf)
qed

lemma shrinks_sweep: "shrinks j (jit_sweep p j)"
proof -
  have slot: "shrinks j (jit_sweep_slot p i j)" for i j
    by (auto simp: shrinks_def jit_sweep_slot_def discard_blocks split: option.split)
  have "shrinks j (fold (jit_sweep_slot p) is j)" for "is"
    by (induction "is" arbitrary: j) (auto intro: shrinks_refl shrinks_trans slot)
  then show ?thesis unfolding jit_sweep_def fold_u16 .
qed

lemma shrinks_sweep': "blocks j' = blocks j \<Longrightarrow> shrinks j (jit_sweep p j')"
  by (rule shrinks_trans [OF shrinks_refl shrinks_sweep])

lemma shrinks_flush: "shrinks j (jit_backend_flush j)"
  by (simp add: shrinks_def jit_backend_flush_eq)

lemma shrinks_invalidate:
  "shrinks j (jit_invalidate_blocks_for_addr a j)" "shrinks j (jit_invalidate_blocks_for_page p j)"
  "shrinks j (jit_invalidate_blocks_for_code_page p j)"
  "shrinks j (jit_invalidate_blocks_for_phys_addr a j)"
  unfolding jit_invalidate_blocks_for_addr_def jit_invalidate_blocks_for_page_def
    jit_invalidate_blocks_for_code_page_def jit_invalidate_blocks_for_phys_addr_def
  by (auto intro: shrinks_sweep' shrinks_refl)

lemma shrinks_count_page: "shrinks j (jit_count_page_event p j)"
  unfolding jit_count_page_event_def Let_def
  by (auto intro: shrinks_trans [OF shrinks_refl shrinks_invalidate(2)] shrinks_refl)

lemma shrinks_invalidate_write: "shrinks j (jit_invalidate_write a phys j)"
  unfolding jit_invalidate_write_def Let_def
  by (cases phys; simp)
    (blast intro: shrinks_trans shrinks_invalidate shrinks_count_page)+

lemma shrinks_process_pending: "shrinks j (snd (jit_process_pending_writes j))"
proof -
  have "shrinks j (fold jit_pending_event ks j)" for ks j
    by (induction ks arbitrary: j)
      (auto simp: jit_pending_event_def intro: shrinks_refl shrinks_trans shrinks_invalidate_write)
  from this [of j] shrinks_flush [of j] show ?thesis
    by (cases "pending_write_overflow j")
      (simp_all add: jit_process_pending_writes_def Let_def shrinks_def)
qed

section \<open>The cache invariant through execution\<close>

definition cache_ok :: "'h emu \<Rightarrow> bool" where
  "cache_ok e \<longleftrightarrow> (\<forall>j. jit e = Some j \<longrightarrow> jit_inv j \<and> blocks_wf j)"

text \<open>
  What the run loop relies on from the host: its callbacks keep the cache consistent, and MMU
  callbacks do not touch the JIT at all.
\<close>

definition jit_host :: "'h host \<Rightarrow> bool" where
  "jit_host H \<longleftrightarrow>
     host_keeps jit H \<and> translate_keeps_jit H \<and>
     (\<forall>f ctx e. cache_ok e \<longrightarrow> cache_ok (h_tick H f ctx e)) \<and>
     (\<forall>f ctx e. cache_ok e \<longrightarrow> cache_ok (h_idle_wait H f ctx e))"

lemma record_pending_inv:
  "jit_inv (jit_record_pending a phys j) = jit_inv j" "blocks_wf (jit_record_pending a phys j) = blocks_wf j"
  by (simp_all add: jit_record_pending_def Let_def blocks_wf_def)

lemma invalidate_write_wf: "blocks_wf j \<Longrightarrow> blocks_wf (jit_invalidate_write a phys j)"
  by (rule shrinks_wf [OF shrinks_invalidate_write])

lemma blocks_wf_stats [simp]: "blocks_wf (j\<lparr>stats := st\<rparr>) = blocks_wf j"
  by (simp add: blocks_wf_def)

lemma note_write_cache:
  assumes "translate_keeps_jit H" "cache_ok e"
  shows "cache_ok (rk65c02_jit_note_guest_write H a e)"
proof (cases "jit e")
  case None
  with assms show ?thesis by (simp add: cache_ok_def rk65c02_jit_note_guest_write_def)
next
  case (Some j)
  with assms have inv: "jit_inv j" and wf: "blocks_wf j" by (simp_all add: cache_ok_def)
  from note_guest_write_jit [OF assms(1) Some jit_inv_magic [OF inv], of a] inv wf
  show ?thesis by (simp add: cache_ok_def Let_def record_pending_inv invalidate_write_inv
      invalidate_write_wf)
qed

lemma cache_ok_cong: "jit e' = jit e \<Longrightarrow> cache_ok e' = cache_ok e"
  by (simp add: cache_ok_def)

lemma cache_kept: "jit_view.kept (jit e) m \<Longrightarrow> cache_ok e \<Longrightarrow> post (\<lambda>_. cache_ok) cache_ok m"
  by (cases m) (simp_all add: cache_ok_def)

lemma cache_write_1:
  assumes H: "host_keeps jit H" "translate_keeps_jit H" and e: "cache_ok e"
  shows "post (\<lambda>_. cache_ok) cache_ok (rk65c02_mem_write_1 H a v e)"
proof -
  obtain r e' where t: "rk65c02_mmu_translate_addr H a MMU_WRITE MMU_PERM_W e = (r, e')" by force
  with translate_addr_jit(1) [OF H(2), of a MMU_WRITE MMU_PERM_W e] e have e': "cache_ok e'"
    by (simp add: cache_ok_def)
  have "post (\<lambda>_. cache_ok) cache_ok (rk65c02_mem_write_mmu H a v MMU_WRITE e)"
  proof (cases r)
    case (Inl c)
    from cache_kept [OF jit_view.kept_fault [OF H(1) refl] e'] show ?thesis
      by (simp add: rk65c02_mem_write_mmu_def t Inl)
  next
    case (Inr p)
    with e' show ?thesis by (simp add: rk65c02_mem_write_mmu_def t cache_ok_def)
  qed
  moreover have "post (\<lambda>_. cache_ok) cache_ok (rk65c02_mem_write_direct H a v MMU_WRITE e)"
    using e by (simp add: rk65c02_mem_write_direct_def cache_ok_def)
  ultimately have "post (\<lambda>_. cache_ok) cache_ok
      (case mem_write_1_fn e of
         MEM_DIRECT \<Rightarrow> rk65c02_mem_write_direct H a v MMU_WRITE e
       | MEM_MMU \<Rightarrow> rk65c02_mem_write_mmu H a v MMU_WRITE e)"
    by (simp split: mem_fn.split)
  then show ?thesis
    unfolding rk65c02_mem_write_1_def by (rule post_seq) (simp add: note_write_cache [OF H(2)])
qed

lemma jit_hostD: "jit_host H \<Longrightarrow> host_keeps jit H" "jit_host H \<Longrightarrow> translate_keeps_jit H"
  by (simp_all add: jit_host_def)

interpretation cache_irq: irq_inv "\<lambda>e. jit_host H \<longrightarrow> cache_ok e" "\<lambda>e. jit_host H \<longrightarrow> cache_ok e" H for H
proof
  fix e :: "'a emu" and a v
  let ?I = "\<lambda>e. jit_host H \<longrightarrow> cache_ok e"
  assume e: "?I e"
  show "post (\<lambda>_. ?I) ?I (rk65c02_mem_fetch_1 H a e)"
    by (rule post_cond [OF access_total(1)])
      (blast intro: cache_kept jit_view.kept_fetch_1 jit_hostD e [rule_format])
  show "post (\<lambda>_. ?I) ?I (rk65c02_mem_read_1 H a e)"
    by (rule post_cond [OF access_total(2)])
      (blast intro: cache_kept jit_view.kept_read_1 jit_hostD e [rule_format])
  show "post (\<lambda>_. ?I) ?I (rk65c02_mem_write_1 H a v e)"
    by (rule post_cond [OF access_total(3)])
      (blast intro: cache_write_1 jit_hostD e [rule_format])
  show "post (\<lambda>_. ?I) ?I (rk65c02_panic H e)"
    unfolding rk65c02_panic_def
    by (rule post_cond [OF stop_error_total])
      (blast intro: cache_kept jit_view.kept_stop_error jit_hostD e [rule_format])
qed (simp_all add: cache_ok_def register_defs)

interpretation cache: cpu_inv "\<lambda>e. jit_host H \<longrightarrow> cache_ok e" "\<lambda>e. jit_host H \<longrightarrow> cache_ok e" H for H
  by unfold_locales (rule cache_irq.post_brk, simp_all add: cache_ok_def register_defs)

lemma stat_cache: "cache_ok e \<Longrightarrow> cache_ok (store_stat w e)"
  by (auto simp: cache_ok_def store_stat_def blocks_wf_def)

interpretation cache_native: native_inv "\<lambda>e. jit_host H \<longrightarrow> cache_ok e" "\<lambda>e. jit_host H \<longrightarrow> cache_ok e" H for H
  by unfold_locales (simp_all add: stat_cache, simp_all add: cache_ok_def set_P_def)

section \<open>Compiling keeps the cache consistent\<close>

lemma kept_build_loop:
  "host_keeps jit H \<Longrightarrow> jit e = x \<Longrightarrow> jit_view.kept x (jit_build_loop H start n pc acc e)"
proof (induction n arbitrary: pc acc e x)
  case (Suc n)
  show ?case
    using Suc.prems
    by (auto simp: Let_def intro!: jit_view.kept_andthen jit_view.kept_fetch Suc.IH)
qed simp

lemma phys_tag_jit: "translate_keeps_jit H \<Longrightarrow> jit (snd (jit_block_phys_tag H pc stop b e)) = jit e"
  using jit_translate_paddr_jit(1) [of H pc MMU_FETCH e]
    jit_translate_paddr_jit(1) [of H "stop - 1" MMU_FETCH "snd (jit_translate_paddr H pc MMU_FETCH e)"]
  by (auto simp: jit_block_phys_tag_def Let_def split: prod.split option.split)

lemma phys_tag_block:
  "start_pc (fst (jit_block_phys_tag H pc stop b e)) = start_pc b"
  "end_pc_exclusive (fst (jit_block_phys_tag H pc stop b e)) = end_pc_exclusive b"
  "fn (fst (jit_block_phys_tag H pc stop b e)) = fn b"
  by (auto simp: jit_block_phys_tag_def Let_def split: prod.split option.split)

lemma new_block_wf: "block_wf pc (jit_block_new pc)"
  by (simp add: block_wf_def jit_block_new_def)

lemma put_block_wf: "blocks_wf j \<Longrightarrow> block_wf pc b \<Longrightarrow> blocks_wf (j\<lparr>blocks := (blocks j)(pc := Some b)\<rparr>)"
  by (simp add: blocks_wf_def)

lemma publish_wf: "blocks_wf (jit_publish b j) = blocks_wf j"
  by (simp add: jit_publish_def blocks_wf_def Let_def)

definition room :: "'h emu \<Rightarrow> bool" where
  "room e \<longleftrightarrow> (\<forall>j. jit e = Some j \<longrightarrow> active_blocks j < JIT_MAX_ACTIVE_BLOCKS)"

lemma install_block:
  assumes j: "jit_inv j" "blocks_wf j" "active_blocks j < JIT_MAX_ACTIVE_BLOCKS"
    and slot: "\<not> (\<exists>b'. live_block j pc b')" and b: "block_wf pc b" and e: "jit e = Some j"
  shows "cache_ok (let e = jit_put_block pc b e in
      if fn b \<noteq> None then e\<lparr>jit := map_option (jit_publish b) (jit e)\<rparr> else e)"
  using publish_inv [OF j(1) slot j(3), of b] put_dead_inv [OF j(1) slot, of b] put_block_wf [OF j(2) b] e
  by (auto simp: jit_put_block_def cache_ok_def Let_def publish_wf)

lemma compile_built:
  assumes H: "jit_host H" and j: "jit_inv j" "blocks_wf j" "active_blocks j < JIT_MAX_ACTIVE_BLOCKS"
    and slot: "\<not> (\<exists>b'. live_block j pc b')" and e: "jit e = Some j"
    and b: "block_wf pc b" "fn b = None"
    and insns: "insns \<noteq> []" "length insns \<le> JIT_BLOCK_MAX_INSNS" "block_ok pc pc insns"
    and tag: "jit_block_phys_tag H pc (insns_end pc insns) (b\<lparr>end_pc_exclusive := insns_end pc insns\<rparr>) e
        = (b2, e2)"
  shows "let b = b2\<lparr>lightning_state := True, fn := (if h_emit_ok H insns then Some insns else None)\<rparr>;
             b = (if fn b \<noteq> None then b\<lparr>num_insns := of_nat (length insns)\<rparr> else b);
             e = jit_put_block pc b e2
         in block_wf pc b \<and>
            cache_ok (if fn b \<noteq> None then e\<lparr>jit := map_option (jit_publish b) (jit e)\<rparr> else e)"
proof -
  have b2: "start_pc b2 = pc" "end_pc_exclusive b2 = insns_end pc insns" "fn b2 = None"
    using phys_tag_block [of H pc "insns_end pc insns" "b\<lparr>end_pc_exclusive := insns_end pc insns\<rparr>" e] b
    by (simp_all add: tag block_wf_def)
  have e2: "jit e2 = Some j"
    using phys_tag_jit [OF jit_hostD(2) [OF H], of pc "insns_end pc insns"] e tag by (metis snd_conv)
  define b3 where "b3 = b2\<lparr>lightning_state := True, fn := (if h_emit_ok H insns then Some insns else None)\<rparr>"
  define b4 where "b4 = (if fn b3 \<noteq> None then b3\<lparr>num_insns := of_nat (length insns)\<rparr> else b3)"
  have "block_wf pc b4" using insns b2 by (simp add: b3_def b4_def block_wf_def)
  from this install_block [OF j slot this e2] show ?thesis
    unfolding Let_def b3_def [symmetric] b4_def [symmetric] by simp
qed

lemma compile_fresh:
  assumes H: "jit_host H" and j: "jit_inv j" "blocks_wf j" "active_blocks j < JIT_MAX_ACTIVE_BLOCKS"
    and slot: "\<not> (\<exists>b'. live_block j pc b')" and e: "jit e = Some j"
    and b: "block_wf pc b" "fn b = None"
  shows "post (\<lambda>b e'. cache_ok e' \<and> (\<forall>b'. b = Some b' \<longrightarrow> block_wf pc b')) cache_ok
    (andthen (jit_build_block_insns H pc JIT_BLOCK_MAX_INSNS e) (\<lambda>insns e.
       if insns = [] then Ret None e
       else
         (let block_end = insns_end pc insns;
              b = b\<lparr>end_pc_exclusive := block_end\<rparr>;
              (b, e) = jit_block_phys_tag H pc block_end b e;
              b = b\<lparr>lightning_state := True, fn := (if h_emit_ok H insns then Some insns else None)\<rparr>;
              b = (if fn b \<noteq> None then b\<lparr>num_insns := of_nat (length insns)\<rparr> else b);
              e = jit_put_block pc b e;
              e = (if fn b \<noteq> None then e\<lparr>jit := map_option (jit_publish b) (jit e)\<rparr> else e)
          in Ret (Some b) e)))"
proof -
  have built: "jit_view.kept (Some j) (jit_build_block_insns H pc JIT_BLOCK_MAX_INSNS e)"
    unfolding jit_build_block_insns_def by (rule kept_build_loop [OF jit_hostD(1) [OF H] e])
  show ?thesis
  proof (cases "jit_build_block_insns H pc JIT_BLOCK_MAX_INSNS e")
    case (Ret insns e2)
    with built have e2: "jit e2 = Some j" by simp
    from jit_build_loop_ok [OF Ret [unfolded jit_build_block_insns_def]]
    have ok: "length insns \<le> JIT_BLOCK_MAX_INSNS" "block_ok pc pc insns" by auto
    obtain b2 e3 where tag: "jit_block_phys_tag H pc (insns_end pc insns)
        (b\<lparr>end_pc_exclusive := insns_end pc insns\<rparr>) e2 = (b2, e3)" by force
    from compile_built [OF H j slot e2 b _ ok tag] e2 j show ?thesis
      by (simp add: Ret tag Let_def cache_ok_def)
  qed (use built j in \<open>simp_all add: cache_ok_def\<close>)
qed

lemma compile_cache:
  assumes H: "jit_host H" and e: "cache_ok e" "room e"
  shows "post (\<lambda>b e'. cache_ok e' \<and> (\<forall>b'. b = Some b' \<longrightarrow> block_wf pc b')) cache_ok (jit_compile_block H pc e)"
proof (cases "jit e")
  case None
  with e show ?thesis by (simp add: jit_compile_block_def)
next
  case (Some j)
  with e have j: "jit_inv j" "blocks_wf j" "active_blocks j < JIT_MAX_ACTIVE_BLOCKS"
    by (simp_all add: cache_ok_def room_def)
  define b where "b = (case blocks j pc of None \<Rightarrow> jit_block_new pc | Some b \<Rightarrow> b)"
  have b: "block_wf pc b"
    using j(2) new_block_wf by (auto simp: b_def blocks_wf_def split: option.split)
  note unfold = jit_compile_block_def [of H pc e, unfolded Some, simplified,
      folded b_def, unfolded jit_inv_magic [OF j(1)]]
  show ?thesis
  proof (cases "fn b")
    case (Some insns)
    then have "blocks j pc = Some b" by (auto simp: b_def jit_block_new_def split: option.splits)
    then have "jit_put_block pc b e = e"
      using \<open>jit e = Some j\<close> by (simp add: jit_put_block_def fun_upd_idem)
    with e b Some show ?thesis by (simp add: unfold Let_def)
  next
    case None
    let ?j = "j\<lparr>blocks := (blocks j)(pc := Some b)\<rparr>"
    have slot: "\<not> (\<exists>b'. live_block j pc b')"
      using None by (auto simp: b_def live_block_def split: option.splits)
    have e1: "jit (jit_put_block pc b e) = Some ?j" using \<open>jit e = Some j\<close> by (simp add: jit_put_block_def)
    have j1: "jit_inv ?j" "blocks_wf ?j" "active_blocks ?j < JIT_MAX_ACTIVE_BLOCKS"
      "\<not> (\<exists>b'. live_block ?j pc b')"
      using put_dead_inv [OF j(1) slot None] put_block_wf [OF j(2) b] j(3) None
      by (auto simp: live_block_def)
    from compile_fresh [OF H j1 e1 b None] None show ?thesis by (simp add: unfold Let_def)
  qed
qed

section \<open>The run loop keeps the cache consistent\<close>

lemma cache_ok_fields [simp]:
  "cache_ok (state_update s e) = cache_ok e" "cache_ok (stopreason_update r e) = cache_ok e"
  "cache_ok (stop_requested_update b e) = cache_ok e" "cache_ok (tick_countdown_update n e) = cache_ok e"
  "cache_ok (use_jit_update b e) = cache_ok e" "cache_ok (in_jit_run_update b e) = cache_ok e"
  "cache_ok (jit_loop_budget_update k e) = cache_ok e"
  by (simp_all add: cache_ok_def)

lemma stop_request_cache: "cache_ok e \<Longrightarrow> cache_ok (rk65c02_apply_host_stop_request e)"
  by (simp add: rk65c02_apply_host_stop_request_def)

lemma tick_cache: "jit_host H \<Longrightarrow> cache_ok e \<Longrightarrow> cache_ok (rk65c02_maybe_tick H e)"
  by (simp add: rk65c02_maybe_tick_def Let_def jit_host_def split: option.split)

lemma poll_cache: "jit_host H \<Longrightarrow> cache_ok e \<Longrightarrow> cache_ok (rk65c02_poll_host_controls H e)"
  unfolding rk65c02_poll_host_controls_def by (intro stop_request_cache tick_cache)

lemma wait_cache: "jit_host H \<Longrightarrow> cache_ok e \<Longrightarrow> cache_ok (snd (rk65c02_maybe_wait_on_idle H e))"
  by (simp add: rk65c02_maybe_wait_on_idle_def jit_host_def stop_request_cache split: option.split)

lemma exec_cache: "jit_host H \<Longrightarrow> cache_ok e \<Longrightarrow> post (\<lambda>_. cache_ok) cache_ok (rk65c02_exec H e)"
  using cache.post_exec [of H e] by simp

lemma jit_upd_cache:
  "cache_ok e \<Longrightarrow> (\<And>j. jit_inv j \<Longrightarrow> blocks_wf j \<Longrightarrow> jit_inv (f j) \<and> blocks_wf (f j)) \<Longrightarrow>
     cache_ok (e\<lparr>jit := map_option f (jit e)\<rparr>)"
  by (auto simp: cache_ok_def)

lemma flush_cache: "jit_inv j \<Longrightarrow> blocks_wf j \<Longrightarrow> jit_inv (jit_backend_flush j) \<and> blocks_wf (jit_backend_flush j)"
  using flush_inv [of j] shrinks_wf [OF shrinks_flush] jit_inv_magic [of j] by simp

lemma settle_writes_cache: "cache_ok e \<Longrightarrow> cache_ok (snd (jit_settle_writes dis e))"
  using process_pending(1) shrinks_wf [OF shrinks_process_pending]
  by (auto simp: jit_settle_writes_def cache_ok_def Let_def case_prod_beta split: option.split)

lemma settle_flush_cache: "cache_ok e \<Longrightarrow> cache_ok (jit_settle_flush dis e)"
  by (auto simp: jit_settle_flush_def cache_ok_def flush_cache split: option.split)

fun next_ok :: "'h jit_next \<Rightarrow> bool" where
  "next_ok (Again dis e) = cache_ok e"
| "next_ok (Leave dis e) = cache_ok e"
| "next_ok (Interp e) = cache_ok e"
| "next_ok Fail = True"
| "next_ok Diverge = True"

lemma longjmp_cache: "cache_ok e \<Longrightarrow> next_ok (jit_longjmp dis e)"
  using settle_writes_cache [of e dis] by (simp add: jit_longjmp_def case_prod_beta)

lemma exec_then_cache: "jit_host H \<Longrightarrow> cache_ok e \<Longrightarrow> next_ok (jit_exec_then H dis e)"
  using exec_cache [of H e]
  by (auto simp: jit_exec_then_def longjmp_cache split: outcome.split)

lemma wait_next_cache:
  "jit_host H \<Longrightarrow> cache_ok e \<Longrightarrow>
     next_ok (let (w, e') = rk65c02_maybe_wait_on_idle H e in if c w e' then Again dis e' else Leave dis e')"
  using wait_cache [of H e] by (simp add: case_prod_beta Let_def)

lemma native_cache:
  assumes "jit_host H" "cache_ok e"
  shows "next_ok (jit_native_step H dis pc b e)"
proof -
  let ?f = "\<lambda>j. j\<lparr>stats := (stats j)\<lparr>blocks_executed := blocks_executed (stats j) + 1,
      insns_executed := insns_executed (stats j) + ucast (num_insns b)\<rparr>\<rparr>"
  let ?e = "e\<lparr>jit := map_option ?f (jit e), jit_loop_budget := JIT_LOOP_BUDGET, in_jit_run := True\<rparr>"
  let ?insns = "case fn b of None \<Rightarrow> [] | Some insns \<Rightarrow> insns"
  have e: "cache_ok ?e" using jit_upd_cache [OF assms(2), of ?f] by simp
  show ?thesis
  proof (cases "jit_native H pc ?insns ?e")
    case None
    then show ?thesis by (simp add: jit_native_step_def Let_def)
  next
    case (Some r)
    with cache_native.native_ends [OF Some] assms(1) e have r: "ends (\<lambda>_. cache_ok) cache_ok r" by (cases r) auto
    have "cache_ok e1 \<Longrightarrow> cache_ok (e1\<lparr>in_jit_run := False\<rparr>)" for e1 :: "'a emu" by simp
    with r assms(1) Some show ?thesis
      by (cases r)
        (auto simp: jit_native_step_def Let_def longjmp_cache case_prod_beta
          intro!: poll_cache settle_flush_cache settle_writes_cache wait_cache)
  qed
qed

lemma page_cache: "cache_ok e \<Longrightarrow> cache_ok (e\<lparr>jit := map_option (jit_invalidate_blocks_for_page p) (jit e)\<rparr>)"
  by (rule jit_upd_cache) (auto intro: inv_page.keeps shrinks_wf shrinks_invalidate)

lemma dispatch_cache:
  assumes H: "jit_host H" and e: "cache_ok e"
  shows "next_ok (jit_dispatch H dis pc blk e)"
proof -
  have interp: "next_ok (case rk65c02_exec H e of
      Ret _ e \<Rightarrow> if state e \<noteq> RUNNING then Leave dis e else Again dis e
    | Longjmp e \<Rightarrow> jit_longjmp dis e | Abort \<Rightarrow> Fail)"
    using exec_cache [OF H e] by (auto simp: longjmp_cache split: outcome.split)
  obtain t e1 where t: "jit_translate_paddr H pc MMU_FETCH e = (t, e1)" by force
  with jit_translate_paddr_jit(1) [OF jit_hostD(2) [OF H], of pc MMU_FETCH e] e have "cache_ok e1"
    by (simp add: cache_ok_def)
  with interp H e show ?thesis
    by (auto simp: jit_dispatch_def t native_cache page_cache split: option.split)
qed

lemma run_body_cache:
  assumes H: "jit_host H" and e: "cache_ok e"
  shows "next_ok (jit_run_body H dis e)"
proof -
  define e1 where "e1 = rk65c02_poll_host_controls H e"
  have e1: "cache_ok e1" unfolding e1_def by (rule poll_cache [OF H e])
  have wait: "cache_ok (snd (rk65c02_maybe_wait_on_idle H e1))" by (rule wait_cache [OF H e1])
  have compile: "next_ok (case jit_compile_block H pc e2 of
        Abort \<Rightarrow> Fail | Longjmp e \<Rightarrow> jit_longjmp dis e
      | Ret b e \<Rightarrow> if state e \<noteq> RUNNING then Leave dis e else jit_dispatch H dis pc b e)"
    if "cache_ok e2" "room e2" for e2 pc
    using compile_cache [OF H that, of pc] H
    by (auto simp: longjmp_cache dispatch_cache split: outcome.split)
  have flushed: "cache_ok (e1\<lparr>jit := Some (jit_backend_flush j)\<rparr>)" "room (e1\<lparr>jit := Some (jit_backend_flush j)\<rparr>)"
    if "jit e1 = Some j" for j
    using e1 that flush_cache [of j] by (auto simp: cache_ok_def room_def jit_backend_flush_eq)
  show ?thesis
    unfolding jit_run_body_def Let_def e1_def [symmetric] case_prod_beta
    using H e1 wait compile flushed
    by (auto simp: exec_then_cache dispatch_cache room_def split: option.split)
qed

lemma interp_loop_cache:
  assumes H: "jit_host H" and run: "interp_loop H e = Some r" and e: "cache_ok e"
  shows "post (\<lambda>_. cache_ok) cache_ok r"
  by (rule post_mono [OF interp_loop_post [OF poll_cache [OF H] wait_cache [OF H] _ run e, of cache_ok]])
    (simp_all add: exec_cache [OF H])

lemma run_loop_cache:
  fixes H :: "'a host"
  assumes H: "jit_host H" and run: "jit_run_loop H dis e = Some r" and e: "cache_ok e"
  shows "r = Abort \<or> post (\<lambda>_. cache_ok) cache_ok r"
proof -
  let ?ok = "\<lambda>r. r = Abort \<or> post (\<lambda>_. cache_ok) cache_ok r"
  let ?P = "\<lambda>H' dis e r. H' = H \<longrightarrow> cache_ok e \<longrightarrow> ?ok r"
  have "?P H dis e r"
  proof (rule jit_run_loop.raw_induct [OF _ run, of ?P], intro impI)
    fix loop :: "'a host \<Rightarrow> bool \<Rightarrow> 'a emu \<Rightarrow> ('a, unit) run option"
      and H' dis and e :: "'a emu" and r
    assume IH: "\<And>H dis e r. loop H dis e = Some r \<Longrightarrow> ?P H dis e r" and H': "H' = H" and e: "cache_ok e"
    assume body: "(if state e \<noteq> RUNNING then Some (Ret () e)
      else case jit_run_body H' dis e of
             Again dis e \<Rightarrow> loop H' dis e
           | Leave dis e \<Rightarrow> Some (Ret () e)
           | Interp e \<Rightarrow>
               (case interp_loop H' e of
                  None \<Rightarrow> None
                | Some (Longjmp e) \<Rightarrow> (let (dis, e) = jit_settle_writes dis e in loop H' dis e)
                | Some r \<Rightarrow> Some r)
           | Fail \<Rightarrow> Some Abort
           | Diverge \<Rightarrow> None) = Some r"
    have n: "next_ok (jit_run_body H dis e)" by (rule run_body_cache [OF H e])
    show "?ok r"
    proof (cases "jit_run_body H dis e")
      case (Interp e1)
      with n have e1: "cache_ok e1" by simp
      show ?thesis
      proof (cases "interp_loop H e1")
        case (Some r1)
        with interp_loop_cache [OF H Some e1] body Interp e show ?thesis
          by (cases r1)
            (auto simp: H' case_prod_beta dest: IH [rule_format, OF _ refl settle_writes_cache]
              split: if_splits)
      qed (use body Interp e in \<open>auto simp: H' split: if_splits\<close>)
    qed (use body IH n e in \<open>auto simp: H' split: if_splits\<close>)
  qed
  with e show ?thesis by simp
qed

end
