(* ===== verification/JitProps.thy ===== *)
theory JitProps
  imports JitInvariant ExecFrame
begin

text \<open>
  What the block cache promises: no live block covers a byte that was stored to, at once from
  the interpreter and after settlement from native code; the invalidations are exact; ending a
  mapping update takes effect on the TLB and on the cache.
\<close>

section \<open>Properties\<close>

text \<open>A cache with one live block, for the concrete instances below.\<close>

lemma create_inv: "jit_inv jit_backend_create" "blocks_wf jit_backend_create"
proof -
  have "counter_val jit_backend_create c = 0" for c
    by (cases c) (simp_all add: jit_backend_create_def)
  then show "jit_inv jit_backend_create" "blocks_wf jit_backend_create"
    by (simp_all add: jit_inv_def live_slots_def live_block_def blocks_wf_def)
      (simp_all add: jit_backend_create_def)
qed

definition sample_block :: jit_block where
  "sample_block = (jit_block_new 0x0200)
     \<lparr>end_pc_exclusive := 0x0202, num_insns := 1, lightning_state := True,
      fn := Some [\<lparr>bi_i = \<lparr>opcode = 0xA9, op1 = 1, op2 = 0\<rparr>, bi_id = instruction_decode 0xA9\<rparr>]\<rparr>"

definition sample_jit :: rk65c02_jit where
  "sample_jit = jit_publish sample_block
     (jit_backend_create\<lparr>blocks := (blocks jit_backend_create)(0x0200 := Some sample_block)\<rparr>)"

lemma sample_jit_inv: "jit_inv sample_jit"
  unfolding sample_jit_def
  by (rule publish_inv [OF create_inv(1)])
    (simp_all add: live_block_def sample_block_def jit_backend_create_def)

lemma sample_jit_live: "live_block sample_jit i b \<longleftrightarrow> i = 0x0200 \<and> b = sample_block"
  by (auto simp: sample_jit_def live_block_def jit_publish_def Let_def jit_backend_create_def
      sample_block_def)

lemma sample_block_span: "jit_block_contains_addr sample_block 0x0201"
  by (simp add: sample_block_def jit_block_contains_addr_def jit_block_new_def)

lemma sample_host_jit: "translate_keeps_jit sample_host"
  by (simp add: translate_keeps_jit_def sample_host_def)

text \<open>
  The physical bytes of a block, by its tag: a byte-precise tag names its first byte, the other
  kind its page. A byte-tagged block may reach the top of the 64K physical space.
\<close>

definition phys_reaches :: "jit_block \<Rightarrow> u16 \<Rightarrow> bool" where
  "phys_reaches b pa \<longleftrightarrow> mmu_phys_page_valid b \<and>
     (if mmu_phys_byte_cov b
      then unat (mmu_phys_start b) \<le> unat pa \<and> unat pa < unat (mmu_phys_start b) + unat (end_pc_exclusive b - start_pc b)
      else mmu_phys_page b = hi8 pa)"

definition at_top :: "jit_block \<Rightarrow> bool" where
  "at_top b \<longleftrightarrow> mmu_phys_byte_cov b \<and> 65536 \<le> unat (mmu_phys_start b) + unat (end_pc_exclusive b - start_pc b)"

text \<open>The sweep's 16-bit test is right except at the top, where its end address wraps.\<close>

lemma phys_match_iff: "jit_phys_match pa b \<longleftrightarrow> phys_reaches b pa \<and> \<not> at_top b"
proof (cases "mmu_phys_page_valid b \<and> at_top b")
  case True
  let ?s = "mmu_phys_start b" and ?n = "jit_block_len b"
  have n: "65536 \<le> unat ?s + unat ?n" using True by (simp add: at_top_def jit_block_len_def)
  then have "unat (?s + ?n) = unat ?s + unat ?n - 65536"
    using u16_bound [of ?s] u16_bound [of ?n] by (simp add: unat_word_ariths mod_if)
  with n u16_bound [of ?n] have "?s + ?n < ?s" by (simp add: word_less_nat_alt)
  then have "pa < ?s \<or> ?s + ?n \<le> pa" by (auto simp: word_less_nat_alt word_le_nat_alt)
  with True show ?thesis by (simp add: jit_phys_match_def at_top_def)
next
  case False
  then show ?thesis
    using phys_match_covers [of b pa]
    by (auto simp: phys_reaches_def at_top_def jit_phys_match_def jit_phys_covers_def jit_block_len_def not_le)
qed

lemma write_phys_reaches:
  assumes "jit_inv j" "fst (jit_translate_paddr H a MMU_WRITE e) = Some pa" "live_block j i b" "phys_reaches b pa"
  shows "write_phys H a j e = Some pa"
proof (cases "write_phys H a j e")
  case None
  with write_phys_None [OF assms(1) None assms(2,3)] assms(4) show ?thesis
    by (simp add: phys_reaches_def jit_phys_covers_def jit_block_len_def split: if_splits)
next
  case (Some pa')
  with write_phys_Some [OF Some] assms(2) show ?thesis by simp
qed

text \<open>
  C7. A guest store outside native code cannot leave stale code: when the hook of the store has
  run, no live block covers the written virtual address, and none reaches its physical
  translation but a byte-tagged block at the top of the 64K physical space, which the physical
  sweep misses.
\<close>

theorem guest_write_kills_covering_blocks:
  assumes "translate_keeps_jit H" and "jit e = Some j" and "jit_inv j" and "\<not> in_jit_run e"
  shows "\<exists>j'. jit (rk65c02_jit_note_guest_write H a e) = Some j' \<and> jit_inv j' \<and>
     (\<forall>i b. live_block j' i b \<longrightarrow> live_block j i b \<and> \<not> jit_block_contains_addr b a \<and>
        (\<forall>pa. fst (jit_translate_paddr H a MMU_WRITE e) = Some pa \<longrightarrow> phys_reaches b pa \<longrightarrow> at_top b))"
proof -
  let ?phys = "write_phys H a j e"
  let ?virt = "compiled_page_refcnt j (hi8 a) \<noteq> 0 \<and> covered_addr_refcnt j a \<noteq> 0"
  let ?j1 = "j\<lparr>stats := (stats j)\<lparr>write_events := write_events (stats j) + 1\<rparr>\<rparr>"
  note jit' = note_guest_write_jit [OF assms(1,2) jit_inv_magic [OF assms(3)], of a]
  note reaches = write_phys_reaches [OF assms(3), of H a e]
  have inv1: "jit_inv ?j1" using assms(3) by simp
  show ?thesis
  proof (cases "active_blocks j = 0 \<or> \<not> ?virt \<and> ?phys = None")
    case True
    then have "jit (rk65c02_jit_note_guest_write H a e) = Some j" by (auto simp: jit' Let_def)
    moreover have "live_block j i b \<Longrightarrow> \<not> jit_block_contains_addr b a \<and> ?phys = None" for i b
      using True no_active [OF assms(3), of i b] uncovered_addr [OF assms(3), of a i b] by blast
    ultimately show ?thesis using reaches assms(3) by (metis option.distinct(1))
  next
    case False
    then have eq: "jit (rk65c02_jit_note_guest_write H a e) = Some (jit_invalidate_write a ?phys ?j1)"
      using assms(4) by (auto simp: jit' Let_def)
    have "live_block j i b \<and> \<not> jit_block_contains_addr b a \<and> (\<forall>pa. ?phys = Some pa \<longrightarrow> phys_reaches b pa \<longrightarrow> at_top b)"
      if "live_block (jit_invalidate_write a ?phys ?j1) i b" for i b
      using invalidate_write_live [OF inv1 that] by (auto simp: phys_match_iff)
    with eq invalidate_write_inv [OF inv1] reaches show ?thesis by blast
  qed
qed

theorem guest_write_kills_covering_blocks_witness:
  "\<exists>j'. jit (rk65c02_jit_note_guest_write sample_host 0x0201
         ((sample_emu (\<lambda>_. 0) 0)\<lparr>jit := Some sample_jit\<rparr>)) = Some j' \<and>
     live_block sample_jit 0x0200 sample_block \<and> \<not> live_block j' 0x0200 sample_block"
  using guest_write_kills_covering_blocks [OF sample_host_jit, of
      "(sample_emu (\<lambda>_. 0) 0)\<lparr>jit := Some sample_jit\<rparr>" sample_jit "0x0201"]
    sample_jit_inv sample_block_span
  by (auto simp: sample_jit_live)

section \<open>Stores from native code\<close>

text \<open>The stores that wait for settlement; when the slots are full the overflow flag stands for all.\<close>

definition recorded :: "rk65c02_jit \<Rightarrow> u16 \<Rightarrow> bool" where
  "recorded j a \<longleftrightarrow> pending_write_overflow j \<or> (\<exists>k < pending_writes j. pending_write_addr j k = a)"

text \<open>
  A store to \<open>a\<close>, translated to \<open>t\<close>, that settlement will see: it has a slot, with its
  physical address if a live block is reached there, or no live block is concerned.
\<close>

definition noted :: "rk65c02_jit \<Rightarrow> u16 \<Rightarrow> u16 option \<Rightarrow> bool" where
  "noted j a t \<longleftrightarrow> pending_write_overflow j \<or>
     (\<exists>k < pending_writes j. pending_write_addr j k = a \<and>
        (\<forall>i b pa. live_block j i b \<longrightarrow> t = Some pa \<longrightarrow> phys_reaches b pa \<longrightarrow>
           pending_write_phys_valid j k \<and> pending_write_phys_addr j k = pa)) \<or>
     (\<forall>i b. live_block j i b \<longrightarrow> \<not> jit_block_contains_addr b a \<and> (\<forall>pa. t = Some pa \<longrightarrow> \<not> phys_reaches b pa))"

lemma live_block_record: "live_block (jit_record_pending a phys j) = live_block j"
  by (simp add: jit_record_pending_def Let_def)

lemma noted_recorded: "noted j a t \<Longrightarrow> recorded j a \<or>
    (\<forall>i b. live_block j i b \<longrightarrow> \<not> jit_block_contains_addr b a \<and> (\<forall>pa. t = Some pa \<longrightarrow> \<not> phys_reaches b pa))"
  by (auto simp: noted_def recorded_def)

lemma noted_stats: "noted (j\<lparr>stats := st\<rparr>) = noted j"
  by (simp add: noted_def live_block_def fun_eq_iff)

lemma noted_keep:
  assumes "noted j a t"
  shows "noted (jit_record_pending a' phys j) a t"
proof (cases "pending_writes j < JIT_WRITE_EVENT_SLOTS")
  case True
  let ?j = "jit_record_pending a' phys j"
  have slot: "pending_write_addr ?j k = pending_write_addr j k" "pending_write_phys_valid ?j k = pending_write_phys_valid j k"
    "pending_write_phys_addr ?j k = pending_write_phys_addr j k" "k < pending_writes ?j" if "k < pending_writes j" for k
    using that True by (simp_all add: jit_record_pending_def Let_def)
  have over: "pending_write_overflow ?j = pending_write_overflow j" using True by (simp add: jit_record_pending_def Let_def)
  from assms show ?thesis unfolding noted_def live_block_record over
    by (elim disjE exE conjE) (blast, metis slot, blast)
qed (simp add: noted_def jit_record_pending_def)

lemma noted_new:
  assumes "\<And>i b pa. live_block j i b \<Longrightarrow> t = Some pa \<Longrightarrow> phys_reaches b pa \<Longrightarrow> phys = Some pa"
  shows "noted (jit_record_pending a phys j) a t"
proof (cases "pending_writes j < JIT_WRITE_EVENT_SLOTS")
  case True
  with assms show ?thesis
    unfolding noted_def live_block_record
    by (intro disjI2 disjI1 exI [of _ "pending_writes j"]) (fastforce simp: jit_record_pending_def Let_def)
qed (simp add: noted_def jit_record_pending_def)

text \<open>Settlement takes every block that a noted store concerns.\<close>

lemma noted_settled:
  assumes "noted j a t" "jit_inv j" "live_block (snd (jit_process_pending_writes j)) i b"
  shows "live_block j i b \<and> \<not> jit_block_contains_addr b a \<and> (\<forall>pa. t = Some pa \<longrightarrow> phys_reaches b pa \<longrightarrow> at_top b)"
proof -
  have p: "\<not> pending_write_overflow j" "live_block j i b"
    "\<And>k. k < pending_writes j \<Longrightarrow> \<not> jit_block_contains_addr b (pending_write_addr j k) \<and>
       (pending_write_phys_valid j k \<longrightarrow> phys_reaches b (pending_write_phys_addr j k) \<longrightarrow> at_top b)"
    using process_pending(2) [OF assms(2,3)] by (auto simp: phys_match_iff)
  from assms(1) p show ?thesis unfolding noted_def by blast
qed

text \<open>
  Native code makes a sequence of stores. Before each it may do anything that leaves the cache
  and the run flag alone.
\<close>

definition native_stores :: "'h host \<Rightarrow> (('h emu \<Rightarrow> 'h emu) \<times> u16) list \<Rightarrow> 'h emu \<Rightarrow> 'h emu" where
  "native_stores H stores e = fold (\<lambda>(g, a) e. rk65c02_jit_note_guest_write H a (g e)) stores e"

text \<open>The physical address of store \<open>k\<close>, translated when it is made.\<close>

definition store_paddr :: "'h host \<Rightarrow> (('h emu \<Rightarrow> 'h emu) \<times> u16) list \<Rightarrow> 'h emu \<Rightarrow> nat \<Rightarrow> u16 option" where
  "store_paddr H stores e k =
     fst (jit_translate_paddr H (snd (stores ! k)) MMU_WRITE (fst (stores ! k) (native_stores H (take k stores) e)))"

lemma native_store_noted:
  assumes H: "translate_keeps_jit H" and j: "jit e = Some j" "jit_inv j" "in_jit_run e"
  shows "\<exists>j'. jit (rk65c02_jit_note_guest_write H a e) = Some j' \<and> jit_inv j' \<and> live_block j' = live_block j \<and>
    noted j' a (fst (jit_translate_paddr H a MMU_WRITE e)) \<and> (\<forall>a' t. noted j a' t \<longrightarrow> noted j' a' t)"
proof -
  let ?phys = "write_phys H a j e" and ?t = "fst (jit_translate_paddr H a MMU_WRITE e)"
  let ?virt = "compiled_page_refcnt j (hi8 a) \<noteq> 0 \<and> covered_addr_refcnt j a \<noteq> 0"
  let ?j1 = "j\<lparr>stats := (stats j)\<lparr>write_events := write_events (stats j) + 1\<rparr>\<rparr>"
  note jit' = note_guest_write_jit [OF H j(1) jit_inv_magic [OF j(2)], of a]
  note reaches = write_phys_reaches [OF j(2), of H a e]
  show ?thesis
  proof (cases "active_blocks j = 0 \<or> \<not> ?virt \<and> ?phys = None")
    case True
    have "live_block j i b \<Longrightarrow> \<not> jit_block_contains_addr b a \<and> ?phys = None" for i b
      using True no_active [OF j(2), of i b] uncovered_addr [OF j(2), of a i b] by blast
    then have "noted j a ?t" using reaches unfolding noted_def by (metis option.distinct(1))
    with True j(2) show ?thesis by (auto simp: jit' Let_def)
  next
    case False
    have live: "live_block (jit_record_pending a ?phys ?j1) = live_block j" by (simp add: live_block_record live_block_def fun_eq_iff)
    have "noted (jit_record_pending a ?phys ?j1) a ?t" by (rule noted_new) (use reaches in \<open>simp add: live_block_def\<close>)
    moreover have "noted j a' t \<Longrightarrow> noted (jit_record_pending a ?phys ?j1) a' t" for a' t
      by (rule noted_keep) (simp add: noted_stats)
    ultimately show ?thesis using False j(2,3) live by (auto simp: jit' Let_def record_pending_inv)
  qed
qed

lemma native_stores_noted:
  assumes H: "translate_keeps_jit H" "host_keeps in_jit_run H" and j: "jit e = Some j" "jit_inv j" "in_jit_run e"
    and g: "\<forall>(g, a) \<in> set stores. \<forall>e. jit (g e) = jit e \<and> in_jit_run (g e) = in_jit_run e"
  shows "\<exists>j'. jit (native_stores H stores e) = Some j' \<and> in_jit_run (native_stores H stores e) \<and> jit_inv j' \<and>
    live_block j' = live_block j \<and> (\<forall>k < length stores. noted j' (snd (stores ! k)) (store_paddr H stores e k))"
  using g
proof (induction stores rule: rev_induct)
  case Nil
  with j show ?case by (simp add: native_stores_def)
next
  case (snoc x stores)
  obtain g a where x: "x = (g, a)" by force
  from snoc.IH snoc.prems obtain j' where j': "jit (native_stores H stores e) = Some j'" "in_jit_run (native_stores H stores e)" "jit_inv j'"
      "live_block j' = live_block j" "\<forall>k < length stores. noted j' (snd (stores ! k)) (store_paddr H stores e k)"
    by auto
  let ?e = "g (native_stores H stores e)"
  have e: "jit ?e = Some j'" "in_jit_run ?e" using snoc.prems j' by (simp_all add: x)
  have step: "native_stores H (stores @ [x]) e = rk65c02_jit_note_guest_write H a ?e" by (simp add: native_stores_def x)
  have t: "store_paddr H (stores @ [(g, a)]) e k = (if k < length stores then store_paddr H stores e k
      else fst (jit_translate_paddr H a MMU_WRITE ?e))" if "k < Suc (length stores)" for k
    using that by (auto simp: store_paddr_def nth_append x less_Suc_eq)
  from native_store_noted [OF H(1) e(1) j'(3) e(2), of a] obtain j2 where j2: "jit (rk65c02_jit_note_guest_write H a ?e) = Some j2"
      "jit_inv j2" "live_block j2 = live_block j'" "noted j2 a (fst (jit_translate_paddr H a MMU_WRITE ?e))"
      "\<forall>a' t. noted j' a' t \<longrightarrow> noted j2 a' t" by blast
  have "in_jit_run (rk65c02_jit_note_guest_write H a ?e)" using note_write_outside [OF H(2)] e(2) by simp
  with j2 j'(4,5) show ?case
    unfolding step by (auto simp: t nth_append x less_Suc_eq)
qed

text \<open>
  C8. Stores made by native code are never lost: after any sequence of stores, each is recorded
  in one of the four slots or covered by the overflow flag, unless no live block is concerned; and
  when the dispatcher then settles the recorded events, no live block covers any of the written
  addresses, nor reaches the physical translation of one, but for byte-tagged blocks at the top
  of the 64K physical space.
\<close>

theorem deferred_write_settled:
  assumes "translate_keeps_jit H" "host_keeps in_jit_run H" "jit e = Some j" "jit_inv j" "in_jit_run e"
    and "\<forall>(g, a) \<in> set stores. \<forall>e. jit (g e) = jit e \<and> in_jit_run (g e) = in_jit_run e"
  shows "\<exists>j'. jit (native_stores H stores e) = Some j' \<and>
     (\<forall>k < length stores. recorded j' (snd (stores ! k)) \<or>
        (\<forall>i b. live_block j i b \<longrightarrow> \<not> jit_block_contains_addr b (snd (stores ! k)) \<and>
           (\<forall>pa. store_paddr H stores e k = Some pa \<longrightarrow> \<not> phys_reaches b pa))) \<and>
     (let j'' = snd (jit_process_pending_writes j') in
        jit_inv j'' \<and> pending_writes j'' = 0 \<and>
        (\<forall>i b. live_block j'' i b \<longrightarrow> live_block j i b \<and>
           (\<forall>k < length stores. \<not> jit_block_contains_addr b (snd (stores ! k)) \<and>
              (\<forall>pa. store_paddr H stores e k = Some pa \<longrightarrow> phys_reaches b pa \<longrightarrow> at_top b))))"
proof -
  from native_stores_noted [OF assms] obtain j' where j': "jit (native_stores H stores e) = Some j'" "jit_inv j'"
      "live_block j' = live_block j" "\<And>k. k < length stores \<Longrightarrow> noted j' (snd (stores ! k)) (store_paddr H stores e k)"
    by blast
  have "live_block j i b" if "live_block (snd (jit_process_pending_writes j')) i b" for i b
    using process_pending(2) [OF j'(2) that] j'(3) by simp
  then show ?thesis
    using j'(1,3) noted_recorded [OF j'(4)] noted_settled [OF j'(4) j'(2)] process_pending(1,3) [OF j'(2)]
    unfolding Let_def by (intro exI [of _ j']) simp
qed

theorem deferred_write_settled_witness:
  "\<exists>j'. jit (native_stores sample_host [(id, 0x0201), (set_A 7, 0x0300), (id, 0x0200)]
         ((sample_emu (\<lambda>_. 0) 0)\<lparr>jit := Some sample_jit, in_jit_run := True\<rparr>)) = Some j' \<and>
     recorded j' 0x0201 \<and> recorded j' 0x0200 \<and>
     \<not> live_block (snd (jit_process_pending_writes j')) 0x0200 sample_block"
proof -
  let ?e = "(sample_emu (\<lambda>_. 0) 0)\<lparr>jit := Some sample_jit, in_jit_run := True\<rparr>"
  let ?s = "[(id, 0x0201), (set_A 7, 0x0300), (id, 0x0200)] :: ((unit emu \<Rightarrow> unit emu) \<times> u16) list"
  have span: "jit_block_contains_addr sample_block 0x0200"
    by (simp add: sample_block_def jit_block_contains_addr_def jit_block_new_def)
  have "\<exists>j'. jit (native_stores sample_host ?s ?e) = Some j' \<and>
     (\<forall>k < length ?s. recorded j' (snd (?s ! k)) \<or>
        (\<forall>i b. live_block sample_jit i b \<longrightarrow> \<not> jit_block_contains_addr b (snd (?s ! k)) \<and>
           (\<forall>pa. store_paddr sample_host ?s ?e k = Some pa \<longrightarrow> \<not> phys_reaches b pa))) \<and>
     (let j'' = snd (jit_process_pending_writes j') in
        jit_inv j'' \<and> pending_writes j'' = 0 \<and>
        (\<forall>i b. live_block j'' i b \<longrightarrow> live_block sample_jit i b \<and>
           (\<forall>k < length ?s. \<not> jit_block_contains_addr b (snd (?s ! k)) \<and>
              (\<forall>pa. store_paddr sample_host ?s ?e k = Some pa \<longrightarrow> phys_reaches b pa \<longrightarrow> at_top b))))"
    by (rule deferred_write_settled [OF sample_host_jit sample_host_keeps _ sample_jit_inv])
      (simp_all add: set_A_def)
  then obtain j' where j': "jit (native_stores sample_host ?s ?e) = Some j'"
    and rec: "\<forall>k < length ?s. recorded j' (snd (?s ! k)) \<or>
        (\<forall>i b. live_block sample_jit i b \<longrightarrow> \<not> jit_block_contains_addr b (snd (?s ! k)) \<and>
           (\<forall>pa. store_paddr sample_host ?s ?e k = Some pa \<longrightarrow> \<not> phys_reaches b pa))"
    and dead: "\<forall>i b. live_block (snd (jit_process_pending_writes j')) i b \<longrightarrow> live_block sample_jit i b \<and>
           (\<forall>k < length ?s. \<not> jit_block_contains_addr b (snd (?s ! k)) \<and>
              (\<forall>pa. store_paddr sample_host ?s ?e k = Some pa \<longrightarrow> phys_reaches b pa \<longrightarrow> at_top b))"
    unfolding Let_def by (elim exE conjE) rule
  have "recorded j' 0x0201" "recorded j' 0x0200"
    using rec [rule_format, of 0] rec [rule_format, of 2] sample_jit_live sample_block_span span by auto
  moreover have "\<not> live_block (snd (jit_process_pending_writes j')) 0x0200 sample_block"
    using dead [rule_format, of "0x0200" sample_block] spec [of _ 2] span by force
  ultimately show ?thesis using j' by blast
qed

section \<open>Mapping updates\<close>

lemma end_update_page_fields [simp]:
  "mmu_changed_vpage (mmu_end_update_page p e) = mmu_changed_vpage e"
  "in_jit_run (mmu_end_update_page p e) = in_jit_run e"
  by (simp_all add: mmu_end_update_page_def Let_def rk65c02_mmu_tlb_flush_vpage_def
      rk65c02_jit_invalidate_code_vpage_def jit_invalidate_deferred_def split: option.split)

lemma end_update_page_tlb:
  "mmu_tlb (mmu_end_update_page p e) =
     (if mmu_changed_vpage e (of_nat p)
      then (mmu_tlb e)(of_nat p := (mmu_tlb e (of_nat p))\<lparr>te_valid := False\<rparr>) else mmu_tlb e)"
  by (simp add: mmu_end_update_page_def Let_def rk65c02_mmu_tlb_flush_vpage_def
      rk65c02_jit_invalidate_code_vpage_def jit_invalidate_deferred_def split: option.split)

lemma end_update_page_jit:
  assumes "jit e = Some j" "jit_inv j" "\<not> in_jit_run e"
  shows "jit (mmu_end_update_page p e) = Some
      (if mmu_changed_vpage e (of_nat p) then jit_invalidate_blocks_for_code_page (of_nat p) j else j)"
  using assms jit_inv_magic [OF assms(2)]
  by (simp add: mmu_end_update_page_def Let_def rk65c02_mmu_tlb_flush_vpage_def
      rk65c02_jit_invalidate_code_vpage_def jit_invalidate_deferred_def)

lemma end_update_fold_tlb:
  "mmu_tlb (fold mmu_end_update_page ps e) q =
     (if q \<in> of_nat ` set ps \<and> mmu_changed_vpage e q then (mmu_tlb e q)\<lparr>te_valid := False\<rparr> else mmu_tlb e q)"
  by (induction ps arbitrary: e) (auto simp: end_update_page_tlb)

lemma end_update_fold_jit:
  assumes "jit e = Some j" "jit_inv j" "\<not> in_jit_run e"
  shows "\<exists>j'. jit (fold mmu_end_update_page ps e) = Some j' \<and> jit_inv j' \<and>
     (\<forall>i b. live_block j' i b \<longleftrightarrow> live_block j i b \<and>
        \<not> (hi8 (start_pc b) \<in> of_nat ` set ps \<and> mmu_changed_vpage e (hi8 (start_pc b))))"
  using assms
proof (induction ps arbitrary: e j)
  case (Cons p ps)
  let ?e = "mmu_end_update_page p e"
  let ?j = "if mmu_changed_vpage e (of_nat p) then jit_invalidate_blocks_for_code_page (of_nat p) j else j"
  have "jit_inv ?j" using Cons.prems by (simp add: inv_code.keeps)
  from Cons.IH [OF end_update_page_jit [OF Cons.prems] this] Cons.prems show ?case
    by (auto simp: inv_code.live)
qed simp

lemma u8_indices: "of_nat ` {0..<256} = (UNIV :: u8 set)"
proof -
  have "w \<in> of_nat ` {0..<256}" for w :: u8
    by (rule image_eqI [of _ _ "unat w"]) (use u8_bound [of w] in simp_all)
  then show ?thesis by auto
qed

text \<open>
  C11. Ending a mapping update takes effect: every page marked as changed has lost its TLB entry
  and every block that starts on it its native code; unmarked pages keep both, unless a
  wrapping range marked everything. The update is then closed.
\<close>

theorem mmu_end_update_takes_effect:
  assumes "mmu_enabled e" "mmu_update_pending e" "\<not> in_jit_run e" "jit e = Some j" "jit_inv j"
  shows "let e' = rk65c02_mmu_end_update e;
             changed = (\<lambda>p. mmu_changed_all e \<or> mmu_changed_vpage e p) in
     (\<forall>p. if changed p then \<not> te_valid (mmu_tlb e' p) else mmu_tlb e' p = mmu_tlb e p) \<and>
     (\<exists>j'. jit e' = Some j' \<and> jit_inv j' \<and>
        (\<forall>i b. live_block j' i b \<longleftrightarrow> live_block j i b \<and> \<not> changed (hi8 (start_pc b)))) \<and>
     \<not> mmu_update_pending e' \<and> \<not> mmu_changed_all e' \<and> (\<forall>p. \<not> mmu_changed_vpage e' p)"
proof -
  let ?e = "e\<lparr>mmu_update_pending := False\<rparr>"
  have acc: "mmu_tlb (rk65c02_mmu_refresh_accessors x) = mmu_tlb x" "jit (rk65c02_mmu_refresh_accessors x) = jit x"
    "mmu_update_pending (rk65c02_mmu_refresh_accessors x) = mmu_update_pending x"
    "mmu_changed_all (rk65c02_mmu_refresh_accessors x) = mmu_changed_all x"
    "mmu_changed_vpage (rk65c02_mmu_refresh_accessors x) = mmu_changed_vpage x" for x :: "'a emu"
    by (simp_all add: rk65c02_mmu_refresh_accessors_def Let_def)
  have pend: "mmu_update_pending (fold mmu_end_update_page ps x) = mmu_update_pending x" for ps and x :: "'a emu"
    by (induction ps arbitrary: x)
      (simp_all add: mmu_end_update_page_def Let_def rk65c02_mmu_tlb_flush_vpage_def
        rk65c02_jit_invalidate_code_vpage_def jit_invalidate_deferred_def split: option.split)
  show ?thesis
  proof (cases "mmu_changed_all e")
    case True
    with assms show ?thesis
      by (simp add: rk65c02_mmu_end_update_def Let_def acc rk65c02_mmu_tlb_flush_def tlb_zero_def
          rk65c02_jit_invalidate_all_def jit_invalidate_deferred_def flush_inv jit_inv_magic)
  next
    case False
    from end_update_fold_jit [of ?e j "[0..<256]"] assms
    obtain j' where "jit (fold mmu_end_update_page [0..<256] ?e) = Some j'" "jit_inv j'"
      "\<forall>i b. live_block j' i b \<longleftrightarrow> live_block j i b \<and> \<not> mmu_changed_vpage e (hi8 (start_pc b))"
      by (auto simp: u8_indices)
    with False assms show ?thesis
      by (simp add: rk65c02_mmu_end_update_def Let_def acc pend end_update_fold_tlb u8_indices)
  qed
qed

theorem mmu_end_update_takes_effect_witness:
  "let e' = rk65c02_mmu_end_update ((sample_emu (\<lambda>_. 0) 0)
         \<lparr>jit := Some sample_jit, mmu_enabled := True, mmu_update_pending := True,
          mmu_changed_vpage := (\<lambda>p. p = 2)\<rparr>)
   in \<not> te_valid (mmu_tlb e' 2) \<and> (\<exists>j'. jit e' = Some j' \<and> \<not> live_block j' 0x0200 sample_block)"
  using mmu_end_update_takes_effect [of "(sample_emu (\<lambda>_. 0) 0)
         \<lparr>jit := Some sample_jit, mmu_enabled := True, mmu_update_pending := True,
          mmu_changed_vpage := (\<lambda>p. p = 2)\<rparr>" sample_jit] sample_jit_inv
  by (auto simp: Let_def sample_block_def jit_block_new_def hi8_def)

section \<open>Precision of the invalidations\<close>

text \<open>
  The bytes of a block, counted from its first: the end address is exclusive and may wrap around,
  and a block that ends where it starts is taken for the whole 64K.
\<close>

definition block_span :: "jit_block \<Rightarrow> u16 set" where
  "block_span b = (if start_pc b = end_pc_exclusive b then UNIV
     else {start_pc b + of_nat n | n. n < unat (end_pc_exclusive b - start_pc b)})"

lemma contains_block_span: "jit_block_contains_addr b a \<longleftrightarrow> a \<in> block_span b"
proof (cases "start_pc b = end_pc_exclusive b")
  case False
  let ?s = "start_pc b" and ?t = "end_pc_exclusive b"
  have "a - ?s < ?t - ?s \<longleftrightarrow> (\<exists>n. a = ?s + of_nat n \<and> n < unat (?t - ?s))"
  proof
    assume "a - ?s < ?t - ?s"
    then show "\<exists>n. a = ?s + of_nat n \<and> n < unat (?t - ?s)"
      by (intro exI [of _ "unat (a - ?s)"]) (simp add: word_less_nat_alt)
  next
    assume "\<exists>n. a = ?s + of_nat n \<and> n < unat (?t - ?s)"
    then obtain n where n: "a = ?s + of_nat n" "n < unat (?t - ?s)" by blast
    moreover have "n < 65536" using n(2) u16_bound [of "?t - ?s"] by simp
    ultimately show "a - ?s < ?t - ?s" by (simp add: word_less_nat_alt unat_of_nat)
  qed
  with False show ?thesis by (simp add: contains_span in_span_def block_span_def)
qed (simp add: block_span_def contains_span)

text \<open>
  C12. The four sweeps are exact: each takes the native code of the live blocks with a byte at the
  address, with a byte on the page, that start on the page, or whose physical bytes reach the
  physical address, and of no others, and leaves every reference count equal to the number of
  live blocks it should count. Only the physical sweep has an exception: it spares byte-tagged
  blocks at the top of the 64K physical space.
\<close>

theorem invalidation_exact:
  assumes "jit_inv j"
  shows "(\<forall>i b. live_block (jit_invalidate_blocks_for_addr a j) i b \<longleftrightarrow> live_block j i b \<and> a \<notin> block_span b) \<and>
    (\<forall>i b. live_block (jit_invalidate_blocks_for_page p j) i b \<longleftrightarrow> live_block j i b \<and> p \<notin> hi8 ` block_span b) \<and>
    (\<forall>i b. live_block (jit_invalidate_blocks_for_code_page p j) i b \<longleftrightarrow> live_block j i b \<and> hi8 (start_pc b) \<noteq> p) \<and>
    (\<forall>i b. live_block (jit_invalidate_blocks_for_phys_addr pa j) i b \<longleftrightarrow>
       live_block j i b \<and> (phys_reaches b pa \<longrightarrow> at_top b)) \<and>
    jit_inv (jit_invalidate_blocks_for_addr a j) \<and> jit_inv (jit_invalidate_blocks_for_page p j) \<and>
    jit_inv (jit_invalidate_blocks_for_code_page p j) \<and> jit_inv (jit_invalidate_blocks_for_phys_addr pa j)"
proof -
  have "(\<exists>x. jit_block_contains_addr b x \<and> hi8 x = p) \<longleftrightarrow> p \<in> hi8 ` block_span b" for b
    by (auto simp: contains_block_span)
  then show ?thesis
    using assms
    by (auto simp: inv_addr.live inv_page.live inv_code.live inv_phys.live overlaps_page_iff contains_block_span phys_match_iff
        inv_addr.keeps inv_page.keeps inv_code.keeps inv_phys.keeps)
qed

theorem invalidation_exact_witness:
  "live_block (jit_invalidate_blocks_for_addr 0x0202 sample_jit) 0x0200 sample_block \<and>
   \<not> live_block (jit_invalidate_blocks_for_addr 0x0201 sample_jit) 0x0200 sample_block \<and>
   \<not> live_block (jit_invalidate_blocks_for_code_page 2 sample_jit) 0x0200 sample_block"
  using invalidation_exact [OF sample_jit_inv, of "0x0202" 2 0] invalidation_exact [OF sample_jit_inv, of "0x0201" 2 0]
  by (simp add: sample_jit_live contains_block_span [symmetric])
    (simp add: sample_block_def jit_block_new_def jit_block_contains_addr_def hi8_def)

text \<open>
  C38. The physical sweep misses a block whose bytes end at the top of the physical 64K space:
  its 16-bit end address wraps to 0, so a write through another virtual address to a byte the
  reference counts say it covers leaves its native code in place.
\<close>

theorem phys_sweep_misses_top_block:
  assumes "jit_inv j" "live_block j i b" "mmu_phys_byte_cov b"
    and "unat (mmu_phys_start b) + unat (jit_block_len b) = 65536"
  shows "live_block (jit_invalidate_blocks_for_phys_addr pa j) i b"
proof -
  have "mmu_phys_start b + jit_block_len b = 0"
    using assms(4) by (simp add: word_unat_eq_iff unat_word_ariths)
  with assms show ?thesis by (simp add: inv_phys.live jit_phys_match_def)
qed

definition sample_top_block :: jit_block where
  "sample_top_block = sample_block\<lparr>mmu_phys_page_valid := True, mmu_phys_page := 0xFF,
     mmu_phys_byte_cov := True, mmu_phys_start := 0xFFFE\<rparr>"

definition sample_top_jit :: rk65c02_jit where
  "sample_top_jit = jit_publish sample_top_block
     (jit_backend_create\<lparr>blocks := (blocks jit_backend_create)(0x0200 := Some sample_top_block)\<rparr>)"

lemma sample_top_inv: "jit_inv sample_top_jit" "live_block sample_top_jit 0x0200 sample_top_block"
proof -
  show "jit_inv sample_top_jit"
    unfolding sample_top_jit_def
    by (rule publish_inv [OF create_inv(1)])
      (simp_all add: live_block_def sample_top_block_def sample_block_def jit_backend_create_def)
  show "live_block sample_top_jit 0x0200 sample_top_block"
    by (simp add: sample_top_jit_def live_block_def jit_publish_def Let_def jit_backend_create_def
        sample_top_block_def sample_block_def)
qed

theorem phys_sweep_misses_top_block_witness:
  "jit_phys_covers sample_top_block 0xFFFF \<and>
   live_block (jit_invalidate_blocks_for_phys_addr 0xFFFF sample_top_jit) 0x0200 sample_top_block"
  using phys_sweep_misses_top_block [OF sample_top_inv, of "0xFFFF"]
  by (simp add: sample_top_block_def sample_block_def jit_block_len_def jit_block_new_def jit_phys_covers_def)

end
