(* ===== verification/RamMachine.thy ===== *)
theory RamMachine
  imports Exec Samples
begin

text \<open>
  The machine most programs run on: MMU off, no JIT, 64K of RAM. On it the layers below
  refine a plain array of bytes, \<open>mem\<close>: guest reads return its elements and guest writes
  update it. The instruction properties are stated over this view.
\<close>

section \<open>Memory as an array\<close>

definition plain :: "'h emu \<Rightarrow> bool" where
  "plain e \<longleftrightarrow> mem_read_1_fn e = MEM_DIRECT \<and> mem_write_1_fn e = MEM_DIRECT \<and> jit e = None"

definition ram_machine :: "'h emu \<Rightarrow> bool" where
  "ram_machine e \<longleftrightarrow> plain e \<and> full_ram (bus e)"

definition mem :: "'h emu \<Rightarrow> u16 \<Rightarrow> u8" where
  "mem e a = cell_val (bus e) (the (bus_cell (bus e) a))"

definition poke :: "u16 \<Rightarrow> u8 \<Rightarrow> 'h emu \<Rightarrow> 'h emu" where
  "poke a v e = e\<lparr>bus := set_cell (bus e) (the (bus_cell (bus e) a)) v\<rparr>"

lemma read_plain:
  "plain e \<Longrightarrow> bus_cell (bus e) a = Some c \<Longrightarrow> rk65c02_mem_read_1 H a e = Ret (cell_val (bus e) c) e"
  "plain e \<Longrightarrow> bus_cell (bus e) a = Some c \<Longrightarrow> rk65c02_mem_fetch_1 H a e = Ret (cell_val (bus e) c) e"
  by (simp_all add: plain_def rk65c02_mem_read_1_def rk65c02_mem_fetch_1_def rk65c02_mem_read_direct_def
      bus_read_cell)

lemma write_plain:
  "plain e \<Longrightarrow> bus_cell (bus e) a = Some c \<Longrightarrow>
     rk65c02_mem_write_1 H a v e = Ret () (e\<lparr>bus := set_cell (bus e) c v\<rparr>)"
  by (simp add: plain_def rk65c02_mem_write_1_def rk65c02_mem_write_direct_def bus_write_cell)

lemma ram_cell: "ram_machine e \<Longrightarrow> bus_cell (bus e) a = Some (the (bus_cell (bus e) a))"
  by (simp add: ram_machine_def full_ram_def)

lemma ram_read [simp]:
  "ram_machine e \<Longrightarrow> rk65c02_mem_read_1 H a e = Ret (mem e a) e"
  "ram_machine e \<Longrightarrow> rk65c02_mem_fetch_1 H a e = Ret (mem e a) e"
  using ram_cell [of e a] read_plain [of e a _ H] by (auto simp: ram_machine_def mem_def)

lemma ram_write [simp]: "ram_machine e \<Longrightarrow> rk65c02_mem_write_1 H a v e = Ret () (poke a v e)"
  using ram_cell [of e a] write_plain [of e a _ H v] by (auto simp: ram_machine_def poke_def)

lemma ram_poke [simp]: "ram_machine (poke a v e) = ram_machine e"
  by (simp add: ram_machine_def poke_def plain_def full_ram_def)

lemma mem_poke [simp]: "ram_machine e \<Longrightarrow> mem (poke a v e) = (mem e)(a := v)"
proof
  fix x
  assume r: "ram_machine e"
  have "inj (bus_cell (bus e))" using r by (simp add: ram_machine_def full_ram_def)
  then have "the (bus_cell (bus e) x) = the (bus_cell (bus e) a) \<longleftrightarrow> x = a"
    by (metis injD ram_cell [OF r])
  then show "mem (poke a v e) x = ((mem e)(a := v)) x" by (simp add: mem_def poke_def)
qed

text \<open>Register and control fields do not matter to memory, and memory does not matter to them.\<close>

lemma ram_fields [simp]:
  "ram_machine (regs_update f e) = ram_machine e" "ram_machine (state_update s e) = ram_machine e"
  "ram_machine (stopreason_update r e) = ram_machine e" "ram_machine (irq_update q e) = ram_machine e"
  "mem (regs_update f e) = mem e" "mem (state_update s e) = mem e"
  "mem (stopreason_update r e) = mem e" "mem (irq_update q e) = mem e"
  by (auto simp: ram_machine_def plain_def mem_def)

lemma poke_fields [simp]:
  "regs (poke a v e) = regs e" "state (poke a v e) = state e" "irq (poke a v e) = irq e"
  "stopreason (poke a v e) = stopreason e" "mmu_fault_reexec (poke a v e) = mmu_fault_reexec e"
  "bps_head (poke a v e) = bps_head e" "trace (poke a v e) = trace e"
  "runtime_disassembly (poke a v e) = runtime_disassembly e"
  by (simp_all add: poke_def)

lemma set_fields [simp]:
  "regs (set_PC v e) = (regs e)\<lparr>rPC := v\<rparr>" "regs (set_A a e) = (regs e)\<lparr>rA := a\<rparr>"
  "regs (set_X a e) = (regs e)\<lparr>rX := a\<rparr>" "regs (set_Y a e) = (regs e)\<lparr>rY := a\<rparr>"
  "regs (set_SP a e) = (regs e)\<lparr>rSP := a\<rparr>" "regs (set_P a e) = (regs e)\<lparr>rP := a\<rparr>"
  "mem (set_PC v e) = mem e" "ram_machine (set_PC v e) = ram_machine e"
  "mem (set_A a e) = mem e" "ram_machine (set_A a e) = ram_machine e"
  "mem (set_X a e) = mem e" "ram_machine (set_X a e) = ram_machine e"
  "mem (set_Y a e) = mem e" "ram_machine (set_Y a e) = ram_machine e"
  "mem (set_SP a e) = mem e" "ram_machine (set_SP a e) = ram_machine e"
  "mem (set_P a e) = mem e" "ram_machine (set_P a e) = ram_machine e"
  by (simp_all add: set_PC_def set_A_def set_X_def set_Y_def set_SP_def set_P_def)

text \<open>The same laws as a byte store, for accesses that do not fault.\<close>

definition cpu_read :: "'h host \<Rightarrow> 'h emu \<Rightarrow> u16 \<Rightarrow> u8 \<times> 'h emu" where
  "cpu_read H e a =
     (case rk65c02_mem_read_1 H a e of Ret v e' \<Rightarrow> (v, e') | Longjmp e' \<Rightarrow> (0, e') | Abort \<Rightarrow> (0, e))"

definition cpu_write :: "'h host \<Rightarrow> 'h emu \<Rightarrow> u16 \<Rightarrow> u8 \<Rightarrow> 'h emu" where
  "cpu_write H e a v =
     (case rk65c02_mem_write_1 H a v e of Ret _ e' \<Rightarrow> e' | Longjmp e' \<Rightarrow> e' | Abort \<Rightarrow> e)"

definition cpu_cell :: "'h emu \<Rightarrow> u16 \<Rightarrow> (devid \<times> u16) option" where
  "cpu_cell e a = (if plain e then bus_cell (bus e) a else None)"

interpretation cpu_ram: byte_store "cpu_read H" "cpu_write H" cpu_cell for H
proof
  fix s :: "'a emu" and a c v a' c'
  assume "cpu_cell s a = Some c"
  then have s: "plain s" "bus_cell (bus s) a = Some c" by (simp_all add: cpu_cell_def split: if_splits)
  then have w: "cpu_write H s a v = s\<lparr>bus := set_cell (bus s) c v\<rparr>"
    by (simp add: cpu_write_def write_plain)
  show "snd (cpu_read H s a) = s" using s by (simp add: cpu_read_def read_plain)
  have p: "plain (s\<lparr>bus := set_cell (bus s) c v\<rparr>)" using s by (simp add: plain_def)
  then show "cpu_cell (cpu_write H s a v) = cpu_cell s" using s by (simp add: w cpu_cell_def fun_eq_iff)
  assume "cpu_cell s a' = Some c'"
  with s have c': "bus_cell (bus s) a' = Some c'" by (simp add: cpu_cell_def)
  with s p show "fst (cpu_read H (cpu_write H s a v) a') = (if c' = c then v else fst (cpu_read H s a'))"
    by (simp add: w cpu_read_def read_plain)
qed

section \<open>One instruction\<close>

text \<open>Nothing asks for attention before the next instruction.\<close>

definition quiet :: "'h emu \<Rightarrow> bool" where
  "quiet e \<longleftrightarrow> \<not> (irq e \<and> \<not> flag P_IRQ_DISABLE e) \<and> rPC (regs e) \<notin> set (bps_head e) \<and>
     \<not> runtime_disassembly e \<and> \<not> trace e"

definition insn_at :: "'h host \<Rightarrow> (u16 \<Rightarrow> u8) \<Rightarrow> u16 \<Rightarrow> instruction" where
  "insn_at H m a =
     (let n = mode_operands (mode (instruction_decode (m a))); u = h_uninit H
      in \<lparr>opcode = m a, op1 = (if n \<ge> 1 then m (a + 1) else op1 u),
          op2 = (if n \<ge> 2 then m (a + 2) else op2 u)\<rparr>)"

lemma mode_operands_le: "mode_operands md \<le> 2"
  by (simp add: mode_operands_def split: addressing.split)

lemma ram_fetch [simp]:
  "ram_machine e \<Longrightarrow> instruction_fetch_emu H a e = Ret (insn_at H (mem e) a) e"
  using mode_operands_le [of "mode (instruction_decode (mem e a))"]
  by (auto simp: instruction_fetch_emu_def insn_at_def Let_def)

lemma exec_quiet:
  assumes "ram_machine e" "quiet e"
  shows "rk65c02_exec H e =
     (let i = insn_at H (mem e) (rPC (regs e)); idf = instruction_decode (opcode i) in
      andthen (emul_dispatch H idf i e) (\<lambda>_ e'.
        let e' = exec_advance idf e' in
        Ret () (if trace e' then debug_trace_savestate (rPC (regs e)) i e' else e')))"
  using assms
  by (auto simp: rk65c02_exec_def quiet_def debug_PC_is_breakpoint_def list_ex_iff Let_def)

end
