(* ===== verification/Alu.thy ===== *)
theory Alu
  imports RamMachine
begin

text \<open>
  Arithmetic and logic: what the handlers of \<open>emulation.c\<close> compute. Flags are read as bits of
  the status register; the statements are about whole handlers, with the operand the addressing
  mode delivers as a premise.
\<close>

section \<open>The status register as bits\<close>

lemma and_flag [simp]:
  fixes p :: u8
  shows "p AND P_CARRY = 0 \<longleftrightarrow> \<not> bit p 0" "p AND P_ZERO = 0 \<longleftrightarrow> \<not> bit p 1"
    "p AND P_IRQ_DISABLE = 0 \<longleftrightarrow> \<not> bit p 2" "p AND P_DECIMAL = 0 \<longleftrightarrow> \<not> bit p 3"
    "p AND P_BREAK = 0 \<longleftrightarrow> \<not> bit p 4" "p AND P_UNDEFINED = 0 \<longleftrightarrow> \<not> bit p 5"
    "p AND P_SIGN_OVERFLOW = 0 \<longleftrightarrow> \<not> bit p 6" "p AND P_NEGATIVE = 0 \<longleftrightarrow> \<not> bit p 7"
  subgoal using and_exp_eq_0_iff_not_bit [of p 0] by (simp del: and_exp_eq_0_iff_not_bit)
  subgoal using and_exp_eq_0_iff_not_bit [of p 1] by (simp del: and_exp_eq_0_iff_not_bit)
  subgoal using and_exp_eq_0_iff_not_bit [of p 2] by (simp del: and_exp_eq_0_iff_not_bit)
  subgoal using and_exp_eq_0_iff_not_bit [of p 3] by (simp del: and_exp_eq_0_iff_not_bit)
  subgoal using and_exp_eq_0_iff_not_bit [of p 4] by (simp del: and_exp_eq_0_iff_not_bit)
  subgoal using and_exp_eq_0_iff_not_bit [of p 5] by (simp del: and_exp_eq_0_iff_not_bit)
  subgoal using and_exp_eq_0_iff_not_bit [of p 6] by (simp del: and_exp_eq_0_iff_not_bit)
  subgoal using and_exp_eq_0_iff_not_bit [of p 7] by (simp del: and_exp_eq_0_iff_not_bit)
  done

lemma bit_pow: "k < 8 \<Longrightarrow> bit (2 ^ k :: u8) n \<longleftrightarrow> n = k"
  by (auto simp: bit_exp_iff)

lemma bit_flags:
  "bit P_CARRY n \<longleftrightarrow> n = 0" "bit P_ZERO n \<longleftrightarrow> n = 1" "bit P_IRQ_DISABLE n \<longleftrightarrow> n = 2"
  "bit P_DECIMAL n \<longleftrightarrow> n = 3" "bit P_BREAK n \<longleftrightarrow> n = 4" "bit P_UNDEFINED n \<longleftrightarrow> n = 5"
  "bit P_SIGN_OVERFLOW n \<longleftrightarrow> n = 6" "bit P_NEGATIVE n \<longleftrightarrow> n = 7"
  using bit_pow [of 0 n] bit_pow [of 1 n] bit_pow [of 2 n] bit_pow [of 3 n] bit_pow [of 4 n]
    bit_pow [of 5 n] bit_pow [of 6 n] bit_pow [of 7 n]
  by (simp_all only: power_0 power_one_right) simp_all

lemma bit_flag_put [simp]:
  "n < 8 \<Longrightarrow> bit (rP (regs (flag_put m c e))) n \<longleftrightarrow> (if bit m n then c else bit (rP (regs e)) n)"
  by (auto simp: flag_put_def flag_set_def flag_clear_def set_P_def bit_or_iff bit_and_iff bit_not_iff)

lemma status_zn_put: "status_zn v e = flag_put P_NEGATIVE (bit v 7) (flag_put P_ZERO (v = 0) e)"
  by (simp add: status_zn_def instruction_status_adjust_zero_def instruction_status_adjust_negative_def
      flag_put_def)

lemma bit_status_zn [simp]:
  "n < 8 \<Longrightarrow> bit (rP (regs (status_zn v e))) n \<longleftrightarrow>
     (if n = 1 then v = 0 else if n = 7 then bit v 7 else bit (rP (regs e)) n)"
  by (simp only: status_zn_put bit_flag_put bit_flags) auto

text \<open>Flag updates touch nothing but P.\<close>

lemma flag_put_regs [simp]:
  "rA (regs (flag_put m c e)) = rA (regs e)" "rX (regs (flag_put m c e)) = rX (regs e)"
  "rY (regs (flag_put m c e)) = rY (regs e)" "rSP (regs (flag_put m c e)) = rSP (regs e)"
  "rPC (regs (flag_put m c e)) = rPC (regs e)"
  by (simp_all add: flag_put_def flag_set_def flag_clear_def set_P_def)

lemma bit_set_A [simp]: "rP (regs (set_A v e)) = rP (regs e)"
  by (simp add: set_A_def)

section \<open>Sums and differences of bytes\<close>

lemma odd_div_128: "n < 256 \<Longrightarrow> odd (n div 128) \<longleftrightarrow> 128 \<le> (n :: nat)"
proof (cases "n < 128")
  case False
  moreover assume "n < 256"
  ultimately have "n div 128 = 1" by (simp add: div_nat_eqI)
  with False show ?thesis by simp
qed simp

lemma bit7_u8: "bit (x :: u8) 7 \<longleftrightarrow> 128 \<le> unat x"
proof -
  have "bit x 7 \<longleftrightarrow> bit (unat x) 7" by (simp add: bit_unsigned_iff)
  also have "\<dots> \<longleftrightarrow> odd (unat x div 128)" by (simp add: bit_iff_odd)
  also have "\<dots> \<longleftrightarrow> 128 \<le> unat x" by (rule odd_div_128 [OF u8_bound])
  finally show ?thesis .
qed

lemma bit7_u16: "bit (x :: u16) 7 \<longleftrightarrow> 128 \<le> unat x mod 256"
proof -
  have "bit x 7 \<longleftrightarrow> bit (lo8 x) 7" by (simp add: bits)
  then show ?thesis by (simp add: bit7_u8 unat_lo8)
qed

lemma sint_u8: "sint (x :: u8) = int (unat x) - (if bit x 7 then 256 else 0)"
proof -
  have "int (unat x) < 256" using u8_bound [of x] by linarith
  then have "take_bit 8 (uint x) = uint x" by (simp add: take_bit_int_eq_self)
  have "sint x = signed_take_bit 7 (uint x)" by (simp add: sint_uint)
  also have "\<dots> = uint x - (if bit x 7 then 256 else 0)"
    by (simp add: signed_take_bit_eq_take_bit_minus bit_uint_iff \<open>take_bit 8 (uint x) = uint x\<close>)
  finally show ?thesis by simp
qed

lemma sint_neg: "sint (x :: u8) < 0 \<longleftrightarrow> bit x 7"
  using u8_bound [of x] by (simp add: sint_u8 bit7_u8 del: of_nat_unat)

lemma overflow_bit:
  "(ucast (a :: u8) XOR r) AND (m XOR r) AND (0x80 :: u16) = 0 \<longleftrightarrow> \<not> (bit a 7 \<noteq> bit r 7 \<and> bit m 7 \<noteq> bit r 7)"
proof -
  let ?x = "(ucast a XOR r) AND (m XOR r)"
  have "?x AND 2 ^ 7 = 0 \<longleftrightarrow> \<not> bit ?x 7" by (rule and_exp_eq_0_iff_not_bit)
  then show ?thesis by (simp add: and.assoc bit_and_iff bit_xor_iff bit_unsigned_iff)
qed

lemma bit_ucast_8_16 [simp]: "bit (ucast (m :: u8) :: u16) n \<longleftrightarrow> bit m n"
  by (auto simp: bit_unsigned_iff dest: bit_imp_le_length)

lemma adc_unat: "unat (ucast (a :: u8) + ucast (m :: u8) + of_bool c :: u16) = unat a + unat m + of_bool c"
  using u8_bound [of a] u8_bound [of m] by (cases c) (simp_all add: unat_word_ariths)

lemma signed_overflow_nat:
  fixes x y :: nat and c :: bool
  defines "s \<equiv> x + y + of_bool c"
  assumes "x < 256" "y < 256"
  shows "(128 \<le> x) \<noteq> (128 \<le> s mod 256) \<and> (128 \<le> y) \<noteq> (128 \<le> s mod 256) \<longleftrightarrow>
     int x - (if 128 \<le> x then 256 else 0) + (int y - (if 128 \<le> y then 256 else 0)) + of_bool c \<notin> {-128..127}"
proof -
  have s: "s mod 256 = (if s < 256 then s else s - 256)"
    using assms by (cases c) (simp_all add: mod_if)
  show ?thesis
    unfolding s using assms by (cases c) auto
qed

lemma signed_overflow_add:
  fixes a m :: u8 and c :: bool
  defines "s \<equiv> unat a + unat m + of_bool c"
  shows "bit a 7 \<noteq> (128 \<le> s mod 256) \<and> bit m 7 \<noteq> (128 \<le> s mod 256) \<longleftrightarrow>
     sint a + sint m + of_bool c \<notin> {-128..127}"
  unfolding s_def sint_u8 bit7_u8 by (rule signed_overflow_nat [OF u8_bound u8_bound])

section \<open>ADC and SBC, binary\<close>

text \<open>Only A and P change, and of P only carry, zero, overflow and negative.\<close>

definition alu_frame :: "'h emu \<Rightarrow> 'h emu \<Rightarrow> bool" where
  "alu_frame e e' \<longleftrightarrow>
     e' = e\<lparr>regs := (regs e)\<lparr>rA := rA (regs e'), rP := rP (regs e')\<rparr>\<rparr> \<and>
     map (bit (rP (regs e'))) [2, 3, 4, 5] = map (bit (rP (regs e))) [2, 3, 4, 5]"

lemma bits_below_8 [simp]:
  "bit P_CARRY n \<longleftrightarrow> n = 0" "bit P_ZERO n \<longleftrightarrow> n = 1"
  "bit P_SIGN_OVERFLOW n \<longleftrightarrow> n = 6" "bit P_NEGATIVE n \<longleftrightarrow> n = 7" "bit P_DECIMAL n \<longleftrightarrow> n = 3"
  by (simp_all only: bit_flags)

declare bit_numeral_word_iff [simp del]

definition alu_result :: "u8 \<Rightarrow> bool \<Rightarrow> bool \<Rightarrow> 'h emu \<Rightarrow> 'h emu" where
  "alu_result r c v e = status_zn r (set_A r (flag_put P_CARRY c (flag_put P_SIGN_OVERFLOW v e)))"

lemma alu_result:
  "rA (regs (alu_result r c v e)) = r" "flag P_CARRY (alu_result r c v e) = c"
  "flag P_SIGN_OVERFLOW (alu_result r c v e) = v" "flag P_ZERO (alu_result r c v e) = (r = 0)"
  "flag P_NEGATIVE (alu_result r c v e) = bit r 7" "alu_frame e (alu_result r c v e)"
  by (simp_all add: alu_result_def alu_frame_def status_zn_put)
    (simp_all add: flag_put_def flag_set_def flag_clear_def set_P_def set_A_def)

lemma adc_binary_eq:
  assumes "instruction_data_read_1 H idf i e = Ret m e1" "\<not> flag P_DECIMAL e1"
  defines "res \<equiv> ucast (rA (regs e1)) + ucast m + of_bool (flag P_CARRY e1) :: u16"
  shows "emul_adc H idf i e = Ret () (alu_result (ucast res) (res > 0xFF)
      ((ucast (rA (regs e1)) XOR res) AND (ucast m XOR res) AND 0x80 \<noteq> 0) e1)"
  using assms by (simp add: emul_adc_def alu_result_def Let_def)

lemma unat_ucast_16_8: "unat (ucast (r :: u16) :: u8) = unat r mod 256"
  by (simp add: unsigned_ucast_eq take_bit_eq_mod)

text \<open>
  C14. Binary addition: outside decimal mode ADC leaves the 9-bit sum of A, the operand and the
  carry in A and the carry flag, sets overflow exactly when the sum of the signed values does
  not fit in a byte, zero and negative from the result, and changes nothing else.
\<close>

theorem adc_binary:
  assumes "instruction_data_read_1 H idf i e = Ret m e1" "\<not> flag P_DECIMAL e1"
  shows "\<exists>e2. emul_adc H idf i e = Ret () e2 \<and> alu_frame e1 e2 \<and>
    unat (rA (regs e2)) + 256 * of_bool (flag P_CARRY e2) =
      unat (rA (regs e1)) + unat m + of_bool (flag P_CARRY e1) \<and>
    (flag P_SIGN_OVERFLOW e2 \<longleftrightarrow>
      sint (rA (regs e1)) + sint m + of_bool (flag P_CARRY e1) \<notin> {-128..127}) \<and>
    (flag P_ZERO e2 \<longleftrightarrow> rA (regs e2) = 0) \<and> (flag P_NEGATIVE e2 \<longleftrightarrow> sint (rA (regs e2)) < 0)"
proof -
  let ?a = "rA (regs e1)" and ?c = "flag P_CARRY e1"
  define res where "res = (ucast ?a + ucast m + of_bool ?c :: u16)"
  let ?e2 = "alu_result (ucast res) (res > 0xFF) ((ucast ?a XOR res) AND (ucast m XOR res) AND 0x80 \<noteq> 0) e1"
  have u: "unat res = unat ?a + unat m + of_bool ?c" unfolding res_def by (rule adc_unat)
  have carry: "res > 0xFF \<longleftrightarrow> 256 \<le> unat res" by (simp add: word_less_nat_alt) linarith
  have le: "unat res < 512" using u8_bound [of ?a] u8_bound [of m] by (cases ?c) (simp_all add: u)
  have sum: "unat (ucast res :: u8) + 256 * of_bool (res > 0xFF) = unat res"
    using le by (auto simp: carry unat_ucast_16_8 mod_if)
  have v: "(ucast ?a XOR res) AND (ucast m XOR res) AND 0x80 \<noteq> 0 \<longleftrightarrow>
      sint ?a + sint m + of_bool ?c \<notin> {-128..127}"
    unfolding overflow_bit bit_ucast_8_16 bit7_u16 [of res] u not_not by (rule signed_overflow_add)
  have "emul_adc H idf i e = Ret () ?e2" unfolding res_def by (rule adc_binary_eq [OF assms])
  then show ?thesis using sum u v sint_neg by (intro exI [of _ ?e2]) (simp only: alu_result simp_thms)
qed

theorem adc_binary_witness:
  "\<exists>e2. emul_adc sample_host (instruction_decode 0x69) \<lparr>opcode = 0x69, op1 = 0x50, op2 = 0\<rparr>
        (set_A 0x50 (sample_emu (\<lambda>_. 0) 0)) = Ret () e2 \<and>
     rA (regs e2) = 0xA0 \<and> \<not> flag P_CARRY e2 \<and> flag P_SIGN_OVERFLOW e2"
proof -
  let ?e = "set_A 0x50 (sample_emu (\<lambda>_. 0) 0)"
  have "instruction_data_read_1 sample_host (instruction_decode 0x69) \<lparr>opcode = 0x69, op1 = 0x50, op2 = 0\<rparr> ?e
      = Ret 0x50 ?e"
    by (simp add: instruction_data_read_1_def instruction_decode_def instrs_def row_def)
  from adc_binary [OF this] obtain e2 where
    "emul_adc sample_host (instruction_decode 0x69) \<lparr>opcode = 0x69, op1 = 0x50, op2 = 0\<rparr> ?e = Ret () e2"
    "unat (rA (regs e2)) + 256 * of_bool (flag P_CARRY e2) = 160" "flag P_SIGN_OVERFLOW e2"
    by (auto simp: set_A_def)
  moreover from this(2) have "\<not> flag P_CARRY e2 \<and> unat (rA (regs e2)) = 160"
    by (cases "flag P_CARRY e2") auto
  ultimately show ?thesis by (auto simp: word_unat_eq_iff)
qed

text \<open>Subtraction is addition of the complement; the borrow shows in the high byte.\<close>

lemma unat_not_u8: "unat (NOT m :: u8) = 255 - unat m"
proof -
  have "NOT m = - 1 - m" by (simp add: not_eq_complement)
  moreover have "unat (- 1 - m) = unat (- 1 :: u8) - unat m" by (rule unat_sub) simp
  ultimately show ?thesis by (simp add: unsigned_minus_1_eq_mask mask_eq_exp_minus_1)
qed

lemma sint_not: "sint (NOT m :: u8) = - sint m - 1"
  using u8_bound [of m] by (auto simp: sint_u8 bit7_u8 unat_not_u8 of_nat_diff simp del: of_nat_unat)

lemma sbc_unat:
  fixes a m :: u8 and c :: bool
  defines "res \<equiv> ucast a - ucast m - of_bool (\<not> c) :: u16"
  shows "int (unat (ucast res :: u8)) = (int (unat a) - int (unat m) - of_bool (\<not> c)) mod 256"
    and "hi8 res = 0 \<longleftrightarrow> 0 \<le> int (unat a) - int (unat m) - of_bool (\<not> c)"
    and "unat res mod 256 = (unat a + unat (NOT m) + of_bool c) mod 256"
proof -
  let ?d = "int (unat a) - int (unat m) - of_bool (\<not> c)"
  have "uint res = (uint (ucast a :: u16) - uint (ucast m :: u16) - of_bool (\<not> c)) mod 65536"
    by (cases c) (simp_all add: res_def uint_word_ariths mod_simps)
  moreover have "uint (ucast x :: u16) = int (unat x)" for x :: u8
    using unat_ucast_8_16 [of x] by (metis of_nat_unat)
  ultimately have r: "int (unat res) = ?d mod 65536" by simp
  show "int (unat (ucast res :: u8)) = ?d mod 256"
    by (simp add: unat_ucast_16_8 zmod_int r mod_mod_cancel del: of_nat_unat)
  have b: "- 256 \<le> ?d" "?d < 256"
    using u8_bound [of a] u8_bound [of m] by (cases c; simp del: of_nat_unat)+
  have "hi8 res = 0 \<longleftrightarrow> unat res < 256" by (simp add: word_unat_eq_iff unat_hi8 div_eq_0_iff)
  also have "\<dots> \<longleftrightarrow> ?d mod 65536 < 256" using r by linarith
  also have "\<dots> \<longleftrightarrow> 0 \<le> ?d"
  proof (cases "0 \<le> ?d")
    case False
    then have "?d mod 65536 = ?d + 65536" using b by (intro int_mod_pos_eq [where q = "-1"]) simp_all
    with False b show ?thesis by simp
  qed (use b in simp)
  finally show "hi8 res = 0 \<longleftrightarrow> 0 \<le> ?d" .
  have "int (unat a + unat (NOT m) + of_bool c) = ?d + 256"
    using u8_bound [of m] by (cases c) (simp_all add: unat_not_u8 of_nat_diff del: of_nat_unat)
  then have "int ((unat a + unat (NOT m) + of_bool c) mod 256) = ?d mod 256"
    by (simp only: zmod_int of_nat_numeral mod_add_self2)
  moreover have "int (unat res mod 256) = ?d mod 256" by (simp add: zmod_int r mod_mod_cancel del: of_nat_unat)
  ultimately show "unat res mod 256 = (unat a + unat (NOT m) + of_bool c) mod 256" by linarith
qed

lemma high_byte_zero: "(res :: u16) AND 0xFF00 = 0 \<longleftrightarrow> hi8 res = 0"
proof -
  have m: "(0xFF00 :: u16) = NOT (mask 8)" by (simp add: mask_eq_exp_minus_1 not_eq_complement)
  have "bit (res AND 0xFF00) n \<longleftrightarrow> 8 \<le> n \<and> bit res n" for n
    unfolding m by (auto simp: bit_simps dest: bit_imp_le_length)
  then have "res AND 0xFF00 = 0 \<longleftrightarrow> (\<forall>n < 16. 8 \<le> n \<longrightarrow> \<not> bit res n)" by (auto simp: bit_eq_iff)
  also have "\<dots> \<longleftrightarrow> hi8 res = 0"
  proof
    assume z: "hi8 res = 0"
    show "\<forall>n < 16. 8 \<le> n \<longrightarrow> \<not> bit res n"
    proof (intro allI impI notI)
      fix n :: nat
      assume "n < 16" "8 \<le> n" "bit res n"
      then have "bit (hi8 res) (n - 8)" by (simp add: bits)
      with z show False by simp
    qed
  qed (rule bit_word_eqI, auto simp: bits)
  finally show ?thesis .
qed

lemma sbc_binary_eq:
  assumes "instruction_data_read_1 H idf i e = Ret m e1" "\<not> flag P_DECIMAL e1"
  defines "res \<equiv> ucast (rA (regs e1)) - ucast m - of_bool (\<not> flag P_CARRY e1) :: u16"
  shows "emul_sbc H idf i e = Ret () (alu_result (ucast res) (hi8 res = 0)
      ((ucast (rA (regs e1)) XOR res) AND ((0xFF - ucast m) XOR res) AND 0x80 \<noteq> 0) e1)"
  using assms by (simp add: emul_sbc_def alu_result_def Let_def high_byte_zero)

text \<open>
  C15. Binary subtraction: outside decimal mode SBC leaves the difference of A, the operand and
  the borrow modulo 256 in A, sets carry exactly when there is no borrow, overflow exactly when
  the signed difference does not fit in a byte, zero and negative from the result, and changes
  nothing else.
\<close>

theorem sbc_binary:
  assumes "instruction_data_read_1 H idf i e = Ret m e1" "\<not> flag P_DECIMAL e1"
  shows "\<exists>e2. emul_sbc H idf i e = Ret () e2 \<and> alu_frame e1 e2 \<and>
    (let d = int (unat (rA (regs e1))) - int (unat m) - of_bool (\<not> flag P_CARRY e1) in
      int (unat (rA (regs e2))) = d mod 256 \<and> (flag P_CARRY e2 \<longleftrightarrow> 0 \<le> d)) \<and>
    (flag P_SIGN_OVERFLOW e2 \<longleftrightarrow>
      sint (rA (regs e1)) - sint m - of_bool (\<not> flag P_CARRY e1) \<notin> {-128..127}) \<and>
    (flag P_ZERO e2 \<longleftrightarrow> rA (regs e2) = 0) \<and> (flag P_NEGATIVE e2 \<longleftrightarrow> sint (rA (regs e2)) < 0)"
proof -
  let ?a = "rA (regs e1)" and ?c = "flag P_CARRY e1"
  define res where "res = (ucast ?a - ucast m - of_bool (\<not> ?c) :: u16)"
  let ?v = "(ucast ?a XOR res) AND ((0xFF - ucast m) XOR res) AND 0x80 \<noteq> 0"
  let ?e2 = "alu_result (ucast res) (hi8 res = 0) ?v e1"
  note sub = sbc_unat [of ?a m ?c, folded res_def]
  have not: "(0xFF - ucast m :: u16) = ucast (NOT m)"
    using u8_bound [of m] by (simp add: word_unat_eq_iff unat_not_u8 unat_sub_if')
  have v: "?v \<longleftrightarrow> sint ?a - sint m - of_bool (\<not> ?c) \<notin> {-128..127}"
    using signed_overflow_add [of ?a "NOT m" ?c]
    unfolding overflow_bit not bit_ucast_8_16 bit7_u16 [of res] sub(3) not_not sint_not
    by (cases ?c) (simp_all add: algebra_simps)
  have "emul_sbc H idf i e = Ret () ?e2" unfolding res_def by (rule sbc_binary_eq [OF assms])
  then show ?thesis using sub v sint_neg unfolding Let_def
    by (intro exI [of _ ?e2]) (simp only: alu_result simp_thms)
qed

theorem sbc_binary_witness:
  "\<exists>e2. emul_sbc sample_host (instruction_decode 0xE9) \<lparr>opcode = 0xE9, op1 = 0x20, op2 = 0\<rparr>
        (set_P 0x21 (set_A 0x10 (sample_emu (\<lambda>_. 0) 0))) = Ret () e2 \<and>
     rA (regs e2) = 0xF0 \<and> \<not> flag P_CARRY e2 \<and> \<not> flag P_SIGN_OVERFLOW e2"
proof -
  let ?e = "set_P 0x21 (set_A 0x10 (sample_emu (\<lambda>_. 0) 0))"
  have "instruction_data_read_1 sample_host (instruction_decode 0xE9) \<lparr>opcode = 0xE9, op1 = 0x20, op2 = 0\<rparr> ?e
      = Ret 0x20 ?e"
    by (simp add: instruction_data_read_1_def instruction_decode_def instrs_def row_def)
  from sbc_binary [OF this] obtain e2 where
    "emul_sbc sample_host (instruction_decode 0xE9) \<lparr>opcode = 0xE9, op1 = 0x20, op2 = 0\<rparr> ?e = Ret () e2"
    "uint (rA (regs e2)) = 240" "\<not> flag P_CARRY e2" "\<not> flag P_SIGN_OVERFLOW e2"
    by (auto simp: bit_numeral_word_iff)
  then show ?thesis by (auto simp: word_uint_eq_iff)
qed

section \<open>Packed decimal\<close>

text \<open>The two decimal digits of a number as the nibbles of a byte.\<close>

definition bcd :: "nat \<Rightarrow> u8" where
  "bcd n = of_nat (16 * (n div 10) + n mod 10)"

fun bcd_digits :: "nat \<Rightarrow> nat" where
  "bcd_digits n = (if n = 0 then 0 else n mod 10 + 16 * bcd_digits (n div 10))"

declare bcd_digits.simps [simp del]

lemma digit_step:
  "unat (b + ucast (push_bit s (ucast (v mod 10) :: u32)) :: u8) mod 256 = (unat b + 2 ^ s * (unat (v :: u8) mod 10)) mod 256"
proof -
  define d where "d = (ucast (v mod 10) :: u32)"
  have d: "unat d = unat v mod 10"
    using u8_bound [of v] by (simp add: d_def unsigned_ucast_eq unat_mod take_bit_nat_eq_self)
  have "unat (push_bit s d) = take_bit LENGTH(32) (push_bit s (unat d))" by (rule unsigned_push_bit_eq)
  then have p: "unat (push_bit s d) = (2 ^ s * (unat v mod 10)) mod 2 ^ 32"
    by (simp add: d push_bit_eq_mult take_bit_eq_mod mult.commute)
  have "unat (ucast (push_bit s d) :: u8) = take_bit LENGTH(8) (unat (push_bit s d))" by (rule unsigned_ucast_eq)
  then have "unat (ucast (push_bit s d) :: u8) = (2 ^ s * (unat v mod 10)) mod 256"
    by (simp add: p take_bit_eq_mod mod_mod_cancel)
  then show ?thesis unfolding d_def [symmetric] by (simp add: unat_word_ariths mod_simps)
qed

lemma to_bcd_loop_digits: "unat (to_bcd_loop v s b) = (unat b + 2 ^ s * bcd_digits (unat v)) mod 256"
proof (induction v s b rule: to_bcd_loop.induct)
  case (1 v s b)
  show ?case
  proof (cases "v > 0")
    case True
    have "unat (to_bcd_loop v s b) =
        (unat (b + ucast (push_bit s (ucast (v mod 10) :: u32)) :: u8) + 2 ^ (s + 4) * bcd_digits (unat v div 10)) mod 256"
      using True 1 by (simp add: to_bcd_loop.simps [of v] Let_def unat_div)
    also have "\<dots> = (unat b + 2 ^ s * (unat v mod 10) + 2 ^ (s + 4) * bcd_digits (unat v div 10)) mod 256"
      by (subst mod_add_left_eq [symmetric], subst digit_step, simp add: mod_simps)
    also have "\<dots> = (unat b + 2 ^ s * bcd_digits (unat v)) mod 256"
      using True by (simp add: bcd_digits.simps [of "unat v"] word_less_nat_alt power_add algebra_simps)
    finally show ?thesis .
  next
    case False
    then have "v = 0" by (simp add: word_gt_0)
    then show ?thesis using u8_bound [of b] by (simp add: to_bcd_loop.simps [of 0] bcd_digits.simps [of 0])
  qed
qed

lemma unat_bcd: "unat (bcd n) = (16 * (n div 10) + n mod 10) mod 256"
  unfolding bcd_def unat_of_nat by simp

lemma to_bcd_eq: "to_bcd v = bcd (unat v mod 100)"
proof -
  let ?n = "unat v"
  have "bcd_digits ?n = ?n mod 10 + 16 * (?n div 10 mod 10) + 256 * bcd_digits (?n div 100)"
    using div_mult2_eq [of ?n 10 10]
    by (simp add: bcd_digits.simps [of ?n] bcd_digits.simps [of "?n div 10"] bcd_digits.simps [of 0] algebra_simps)
  then have "unat (to_bcd v) = (?n mod 10 + 16 * (?n div 10 mod 10)) mod 256"
    by (simp add: to_bcd_def to_bcd_loop_digits)
  moreover have "?n mod 100 div 10 = ?n div 10 mod 10" "?n mod 100 mod 10 = ?n mod 10"
    using mod_mult2_eq [of ?n 10 10] by (simp_all add: mod_mod_cancel)
  ultimately show ?thesis
    by (simp add: word_unat_eq_iff unat_bcd add.commute)
qed

lemma from_bcd_bcd:
  assumes "n < 100"
  shows "from_bcd (bcd n) = of_nat n"
proof -
  have d: "n div 10 < 10" using assms by simp
  have r: "n mod 10 < 16" by (rule less_trans [of _ 10]) simp_all
  have "unat (bcd n) = 16 * (n div 10) + n mod 10"
    using d by (simp add: unat_bcd)
  moreover have "unat (drop_bit 4 (bcd n)) = unat (bcd n) div 16"
    by (simp add: drop_bit_eq_div unat_div)
  moreover have "unat (0x0F AND bcd n) = unat (bcd n) mod 16"
  proof -
    have "(0x0F :: u8) = mask 4" by (simp add: mask_eq_exp_minus_1)
    then have "0x0F AND bcd n = take_bit 4 (bcd n)" by (simp only: take_bit_eq_mask and.commute)
    then show ?thesis by (simp add: take_bit_eq_mod unat_mod)
  qed
  moreover have "(16 * (n div 10) + n mod 10) div 16 = n div 10" "(16 * (n div 10) + n mod 10) mod 16 = n mod 10"
    using r by simp_all
  ultimately have "unat (from_bcd (bcd n)) = (10 * (n div 10) + n mod 10) mod 256"
    by (simp add: from_bcd_def unat_word_ariths mod_simps)
  with assms show ?thesis by (simp add: word_unat_eq_iff unat_of_nat)
qed

lemma unat_from_bcd: "n < 100 \<Longrightarrow> unat (from_bcd (bcd n)) = n"
  by (simp add: from_bcd_bcd unat_of_nat)

text \<open>
  C16. The BCD conversions are inverse: packing a number below 100 and unpacking it gives the
  number back, unpacking a byte whose nibbles are digits and packing it gives the byte back,
  and a number of 100 or more is packed modulo 100.
\<close>

theorem bcd_roundtrip:
  "from_bcd (to_bcd v) = of_nat (unat v mod 100) \<and>
   (n < 100 \<longrightarrow> to_bcd (from_bcd (bcd n)) = bcd n) \<and> to_bcd v = bcd (unat v mod 100)"
  by (simp add: to_bcd_eq from_bcd_bcd unat_of_nat)

theorem bcd_roundtrip_witness: "from_bcd (to_bcd 142) = 42 \<and> to_bcd (from_bcd (bcd 57)) = 0x57"
  using bcd_roundtrip [of 142 57, THEN conjunct1] bcd_roundtrip [of 142 57, THEN conjunct2, THEN conjunct1]
  by (simp add: bcd_def)

section \<open>ADC and SBC, decimal\<close>

lemma adc_decimal_eq:
  assumes "instruction_data_read_1 H idf i e = Ret m e1" "flag P_DECIMAL e1"
  defines "res \<equiv> ucast (from_bcd (rA (regs e1))) + ucast (from_bcd m) + of_bool (flag P_CARRY e1) :: u16"
  shows "emul_adc H idf i e = Ret () (alu_result (to_bcd (ucast res)) (res > 99)
      ((ucast (rA (regs e1)) XOR res) AND (ucast m XOR res) AND 0x80 \<noteq> 0) e1)"
  using assms by (simp add: emul_adc_def alu_result_def Let_def)

lemma sbc_decimal_eq:
  assumes "instruction_data_read_1 H idf i e = Ret m e1" "flag P_DECIMAL e1"
  defines "res \<equiv> ucast (from_bcd (rA (regs e1))) - ucast (from_bcd m) - of_bool (\<not> flag P_CARRY e1) :: u16"
  shows "emul_sbc H idf i e = Ret () (alu_result (sbc_bcd_val res) (\<not> (res > 99 \<or> hi8 res \<noteq> 0))
      ((ucast (rA (regs e1)) XOR res) AND ((0xFF - ucast m) XOR res) AND 0x80 \<noteq> 0) e1)"
  using assms by (simp add: emul_sbc_def alu_result_def Let_def high_byte_zero)

lemma sbc_decimal_val:
  fixes x y :: nat and c :: bool
  assumes "x < 100" "y < 100"
  defines "d \<equiv> int x - int y - of_bool (\<not> c)"
    and "res \<equiv> ucast (from_bcd (bcd x)) - ucast (from_bcd (bcd y)) - of_bool (\<not> c) :: u16"
  shows "sbc_bcd_val res = bcd (nat (d mod 100))" and "\<not> (res > 99 \<or> hi8 res \<noteq> 0) \<longleftrightarrow> 0 \<le> d"
proof -
  have d: "- 100 \<le> d" "d < 100" using assms by (cases c; simp)+
  have "res = word_of_int d"
    using assms by (cases c) (simp_all add: from_bcd_bcd unsigned_of_nat take_bit_nat_eq_self)
  then have s: "sint res = d" and u: "uint res = d mod 65536"
    using d by (simp_all add: signed_of_int signed_take_bit_int_eq_self unsigned_of_int take_bit_eq_mod)
  have "to_bcd (word_of_int (d mod 100)) = bcd (nat (d mod 100))"
  proof -
    have "unat (word_of_int (d mod 100) :: u8) = nat (d mod 100)"
      by (simp add: unsigned_of_int unat_eq_nat_uint take_bit_int_eq_self)
    then show ?thesis by (simp add: to_bcd_eq nat_less_iff)
  qed
  moreover have "c_rem (d + 100) 100 = d mod 100" "\<not> d mod 100 < 0"
    using d pos_mod_sign [of 100 d] by (simp_all only: c_rem_def mod_add_self2) simp_all
  ultimately show "sbc_bcd_val res = bcd (nat (d mod 100))" by (simp only: sbc_bcd_val_def s Let_def if_False)
  have m: "d mod 65536 = (if 0 \<le> d then d else d + 65536)"
    using d by (auto intro: int_mod_pos_eq [where q = "-1"])
  have "hi8 res \<noteq> 0 \<longrightarrow> 99 < unat res"
    using div_less [of "unat res" 256] by (auto simp: word_unat_eq_iff unat_hi8 not_less)
  then have "\<not> (res > 99 \<or> hi8 res \<noteq> 0) \<longleftrightarrow> unat res \<le> 99" by (auto simp: word_less_nat_alt)
  moreover have "int (unat res) = d mod 65536" using u by simp
  ultimately show "\<not> (res > 99 \<or> hi8 res \<noteq> 0) \<longleftrightarrow> 0 \<le> d" 
    using d by (simp only: m split: if_splits; simp only: simp_thms; linarith)
qed

text \<open>
  C13. Decimal addition and subtraction: on packed-decimal operands ADC leaves the sum modulo
  100, packed, with carry for a sum of 100 or more, and SBC the difference modulo 100, packed,
  with carry for no borrow; zero and negative follow the packed result and nothing else changes.
\<close>

theorem decimal_arithmetic:
  assumes "instruction_data_read_1 H idf i e = Ret (bcd y) e1" "flag P_DECIMAL e1"
    and "rA (regs e1) = bcd x" "x < 100" "y < 100"
  shows "(\<exists>e2. emul_adc H idf i e = Ret () e2 \<and> alu_frame e1 e2 \<and>
      (let s = x + y + of_bool (flag P_CARRY e1) in
        rA (regs e2) = bcd (s mod 100) \<and> (flag P_CARRY e2 \<longleftrightarrow> 100 \<le> s)) \<and>
      (flag P_ZERO e2 \<longleftrightarrow> rA (regs e2) = 0) \<and> (flag P_NEGATIVE e2 \<longleftrightarrow> bit (rA (regs e2)) 7)) \<and>
    (\<exists>e2. emul_sbc H idf i e = Ret () e2 \<and> alu_frame e1 e2 \<and>
      (let d = int x - int y - of_bool (\<not> flag P_CARRY e1) in
        rA (regs e2) = bcd (nat (d mod 100)) \<and> (flag P_CARRY e2 \<longleftrightarrow> 0 \<le> d)) \<and>
      (flag P_ZERO e2 \<longleftrightarrow> rA (regs e2) = 0) \<and> (flag P_NEGATIVE e2 \<longleftrightarrow> bit (rA (regs e2)) 7))"
proof -
  let ?c = "flag P_CARRY e1"
  let ?add = "ucast (from_bcd (bcd x)) + ucast (from_bcd (bcd y)) + of_bool ?c :: u16"
  have u: "unat ?add = x + y + of_bool ?c"
    using adc_unat [of "from_bcd (bcd x)" "from_bcd (bcd y)" ?c] assms(4,5) by (simp add: unat_from_bcd)
  have s: "x + y + of_bool ?c < 200" using assms(4,5) by (cases ?c) simp_all
  have add: "to_bcd (ucast ?add) = bcd ((x + y + of_bool ?c) mod 100)" "?add > 99 \<longleftrightarrow> 100 \<le> x + y + of_bool ?c"
    using s u by (simp_all add: to_bcd_eq unat_ucast_16_8 word_less_nat_alt) linarith
  note sub = sbc_decimal_val [OF assms(4,5), of ?c]
  note eqs = adc_decimal_eq [OF assms(1,2)] sbc_decimal_eq [OF assms(1,2)]
  show ?thesis unfolding eqs Let_def assms(3) add sub
    by (rule conjI; rule exI, rule conjI, rule refl, simp only: alu_result simp_thms)
qed

theorem decimal_arithmetic_witness:
  "\<exists>e2. emul_adc sample_host (instruction_decode 0x69) \<lparr>opcode = 0x69, op1 = 0x58, op2 = 0\<rparr>
        (set_P 0x28 (set_A 0x46 (sample_emu (\<lambda>_. 0) 0))) = Ret () e2 \<and>
     rA (regs e2) = 0x04 \<and> flag P_CARRY e2"
proof -
  let ?e = "set_P 0x28 (set_A 0x46 (sample_emu (\<lambda>_. 0) 0))"
  have "instruction_data_read_1 sample_host (instruction_decode 0x69) \<lparr>opcode = 0x69, op1 = 0x58, op2 = 0\<rparr> ?e
      = Ret (bcd 58) ?e"
    by (simp add: instruction_data_read_1_def instruction_decode_def instrs_def row_def bcd_def)
  from decimal_arithmetic [OF this, of 46] show ?thesis
    by (auto simp: Let_def bcd_def bit_numeral_word_iff)
qed

text \<open>
  C17. In decimal mode the helpers that native code calls do what the interpreter's handlers do:
  \<open>rk65c02_do_adc_bcd\<close> and \<open>rk65c02_do_sbc_bcd\<close> on the operand give the state ADC and SBC
  give.
\<close>

theorem bcd_helpers_equal_handlers:
  assumes "instruction_data_read_1 H idf i e = Ret m e1" "flag P_DECIMAL e1"
  shows "emul_adc H idf i e = Ret () (rk65c02_do_adc_bcd m e1) \<and>
    emul_sbc H idf i e = Ret () (rk65c02_do_sbc_bcd m e1)"
  using assms
  by (simp add: emul_adc_def emul_sbc_def rk65c02_do_adc_bcd_def rk65c02_do_sbc_bcd_def Let_def)

theorem bcd_helpers_equal_handlers_witness:
  "emul_adc sample_host (instruction_decode 0x69) \<lparr>opcode = 0x69, op1 = 0x58, op2 = 0\<rparr>
      (set_P 0x28 (sample_emu (\<lambda>_. 0) 0)) = Ret () (rk65c02_do_adc_bcd 0x58 (set_P 0x28 (sample_emu (\<lambda>_. 0) 0)))"
  using bcd_helpers_equal_handlers [of sample_host "instruction_decode 0x69" "\<lparr>opcode = 0x69, op1 = 0x58, op2 = 0\<rparr>"
      "set_P 0x28 (sample_emu (\<lambda>_. 0) 0)" "0x58" "set_P 0x28 (sample_emu (\<lambda>_. 0) 0)"]
  by (simp add: instruction_data_read_1_def instruction_decode_def instrs_def row_def bit_numeral_word_iff)

end
