(* ===== verification/Cpu.thy ===== *)
theory Cpu
  imports Alu ExecFrame
begin

text \<open>
  Control flow and the stack: subroutine calls, interrupts, branches, and what instructions do
  to the program counter and the status register, on a machine whose memory is RAM.
\<close>

declare bit_numeral_word_iff [simp del]

section \<open>Decoding\<close>

lemmas decode_simps = instruction_decode_def instrs_def row_def mode_operands_def instruction_modify_pc_def

text \<open>Register writes leave the control fields alone.\<close>

lemma set_control [simp]:
  "trace (set_A v e) = trace e" "trace (set_X v e) = trace e" "trace (set_Y v e) = trace e"
  "trace (set_SP v e) = trace e" "trace (set_PC w e) = trace e" "trace (set_P v e) = trace e"
  "mmu_fault_reexec (set_A v e) = mmu_fault_reexec e" "mmu_fault_reexec (set_X v e) = mmu_fault_reexec e"
  "mmu_fault_reexec (set_Y v e) = mmu_fault_reexec e" "mmu_fault_reexec (set_SP v e) = mmu_fault_reexec e"
  "mmu_fault_reexec (set_PC w e) = mmu_fault_reexec e" "mmu_fault_reexec (set_P v e) = mmu_fault_reexec e"
  by (simp_all add: set_A_def set_X_def set_Y_def set_SP_def set_PC_def set_P_def)

text \<open>One undisturbed instruction is its handler, then the move of the program counter.\<close>

lemma exec_ram:
  assumes "ram_machine e" "quiet e" "\<not> mmu_fault_reexec e" "mem e (rPC (regs e)) = opc"
    and "emul_dispatch H (instruction_decode opc) (insn_at H (mem e) (rPC (regs e))) e = Ret () e'"
    and "trace e' = trace e" "mmu_fault_reexec e' = mmu_fault_reexec e"
  shows "rk65c02_exec H e = Ret () (if instruction_modify_pc (instruction_decode opc) then e'
      else program_counter_increment (instruction_decode opc) e')"
proof -
  have "\<not> trace e" using assms(2) by (simp add: quiet_def)
  moreover have "opcode (insn_at H (mem e) (rPC (regs e))) = opc"
    using assms(4) by (simp add: insn_at_def Let_def)
  ultimately show ?thesis
    using assms by (simp add: exec_quiet exec_advance_def Let_def program_counter_increment_def)
qed

lemma sample_ram [simp]: "ram_machine (sample_emu f pc)" "mem (sample_emu f pc) = f" "quiet (sample_emu f pc)"
proof -
  show "ram_machine (sample_emu f pc)" "quiet (sample_emu f pc)"
    by (simp_all add: ram_machine_def plain_def sample_full_ram quiet_def)
  have "mem (sample_emu f pc) a = f a" for a
    using ram_read(2) [OF \<open>ram_machine (sample_emu f pc)\<close>, of undefined a] by (simp add: sample_fetch_1)
  then show "mem (sample_emu f pc) = f" by (rule ext)
qed

section \<open>Branches\<close>

text \<open>The conditional branches: opcode, the status bit tested, and the value that branches.\<close>

definition branches :: "(u8 \<times> nat \<times> bool) list" where
  "branches = [(0x90, 0, False), (0xB0, 0, True), (0xF0, 1, True), (0xD0, 1, False),
     (0x30, 7, True), (0x10, 7, False), (0x70, 6, True), (0x50, 6, False)]"

lemma branch_row:
  assumes "(opc, n, v) \<in> set branches"
  shows "emul_dispatch H (instruction_decode opc) i e =
      Ret () (set_PC (rPC (regs e) + 2 + (if bit (rP (regs e)) n = v then scast (op1 i) else 0)) e)"
    and "instruction_modify_pc (instruction_decode opc)" "mode_operands (mode (instruction_decode opc)) = 1"
  using assms
  by (auto simp: branches_def decode_simps emul_dispatch_def emul_bcc_def emul_bcs_def emul_beq_def
      emul_bne_def emul_bmi_def emul_bpl_def emul_bvs_def emul_bvc_def program_counter_branch_def
      program_counter_increment_def set_PC_def add.assoc)

text \<open>
  C24. A conditional branch moves the program counter past itself, plus the signed operand when
  its status bit has the value it tests for, wrapping at 64K; nothing else changes.
\<close>

theorem branch_semantics:
  assumes "ram_machine e" "quiet e" "\<not> mmu_fault_reexec e"
    and "(mem e (rPC (regs e)), n, v) \<in> set branches"
  shows "rk65c02_exec H e = Ret () (set_PC (rPC (regs e) + 2 +
      (if bit (rP (regs e)) n = v then scast (mem e (rPC (regs e) + 1)) else 0)) e)"
proof -
  have "\<not> trace e" using assms(2) by (simp add: quiet_def)
  then show ?thesis
    using assms(3)
    by (simp add: exec_quiet [OF assms(1,2)] insn_at_def Let_def exec_advance_def branch_row [OF assms(4)])
qed

theorem branch_semantics_witness:
  "\<exists>e'. rk65c02_exec sample_host (sample_emu (\<lambda>a. if a = 0x0200 then 0xD0 else 0xFC) 0x0200) = Ret () e' \<and>
     rPC (regs e') = 0x01FE"
  using branch_semantics [of "sample_emu (\<lambda>a. if a = 0x0200 then 0xD0 else 0xFC) 0x0200" 1 False sample_host]
  by (simp add: branches_def bit_numeral_word_iff)

section \<open>The stack\<close>

abbreviation stack_addr :: "u8 \<Rightarrow> u16" where
  "stack_addr sp \<equiv> STACK_START + ucast sp"

lemma ucast_8_16_eq [simp]: "(ucast (x :: u8) :: u16) = ucast y \<longleftrightarrow> x = y"
  using unat_ucast_8_16 [of x] unat_ucast_8_16 [of y] by (metis word_unat_eq_iff)

lemma byte_pred [simp]: "(x :: u8) - 1 = x \<longleftrightarrow> False" "x = x - 1 \<longleftrightarrow> False"
  by (simp_all add: eq_diff_eq)

lemma ram_push [simp]:
  "ram_machine e \<Longrightarrow> stack_push H v e =
     Ret () (set_SP (rSP (regs e) - 1) (poke (stack_addr (rSP (regs e))) v e))"
  by (simp add: stack_push_def set_SP_def)

lemma ram_pop [simp]:
  "ram_machine e \<Longrightarrow> stack_pop H e =
     Ret (mem e (stack_addr (rSP (regs e) + 1))) (set_SP (rSP (regs e) + 1) e)"
  by (simp add: stack_pop_def set_SP_def Let_def)

text \<open>
  C22. Calls and returns balance: JSR jumps to its operand with the address of its last byte on
  the stack, and an RTS executed later with the same stack pointer and those two bytes intact
  continues at the instruction after the JSR with the stack pointer the caller had.
\<close>

theorem call_return:
  assumes "ram_machine e" "quiet e" "\<not> mmu_fault_reexec e" "mem e (rPC (regs e)) = 0x20"
  shows "\<exists>e1. rk65c02_exec H e = Ret () e1 \<and> ram_machine e1 \<and>
    rPC (regs e1) = join8 (mem e (rPC (regs e) + 1)) (mem e (rPC (regs e) + 2)) \<and>
    rSP (regs e1) = rSP (regs e) - 2 \<and>
    mem e1 = (mem e)(stack_addr (rSP (regs e)) := hi8 (rPC (regs e) + 2),
                     stack_addr (rSP (regs e) - 1) := lo8 (rPC (regs e) + 2)) \<and>
    (\<forall>e2. ram_machine e2 \<and> quiet e2 \<and> \<not> mmu_fault_reexec e2 \<and> mem e2 (rPC (regs e2)) = 0x60 \<and>
       rSP (regs e2) = rSP (regs e1) \<and>
       mem e2 (stack_addr (rSP (regs e))) = mem e1 (stack_addr (rSP (regs e))) \<and>
       mem e2 (stack_addr (rSP (regs e) - 1)) = mem e1 (stack_addr (rSP (regs e) - 1)) \<longrightarrow>
       rk65c02_exec H e2 = Ret () (set_SP (rSP (regs e)) (set_PC (rPC (regs e) + 3) e2)))"
proof -
  let ?pc = "rPC (regs e)" and ?sp = "rSP (regs e)"
  define e1 where "e1 = set_PC (join8 (mem e (?pc + 1)) (mem e (?pc + 2)))
      (set_SP (?sp - 2) (poke (stack_addr (?sp - 1)) (lo8 (?pc + 2))
        (set_SP (?sp - 1) (poke (stack_addr ?sp) (hi8 (?pc + 2)) e))))"
  have "rk65c02_exec H e = Ret () e1"
    using assms exec_ram [OF assms, of H e1]
    by (simp add: insn_at_def Let_def decode_simps emul_dispatch_def emul_jsr_def join8_plus e1_def)
  moreover have "rk65c02_exec H e2 = Ret () (set_SP ?sp (set_PC (?pc + 3) e2))"
    if "ram_machine e2" "quiet e2" "\<not> mmu_fault_reexec e2" "mem e2 (rPC (regs e2)) = 0x60"
      "rSP (regs e2) = ?sp - 2" "mem e2 (stack_addr ?sp) = hi8 (?pc + 2)"
      "mem e2 (stack_addr (?sp - 1)) = lo8 (?pc + 2)" for e2
    using that exec_ram [OF that(1-4), of H "set_PC (?pc + 2) (set_SP ?sp e2)"]
    by (simp add: decode_simps emul_dispatch_def emul_rts_def join8_def [symmetric]
        program_counter_increment_def)
      (simp add: set_PC_def set_SP_def)
  ultimately show ?thesis using assms(1) by (intro exI [of _ e1]) (simp add: e1_def)
qed

theorem call_return_witness:
  "\<exists>e1. rk65c02_exec sample_host (sample_emu (\<lambda>a. if a = 0x0200 then 0x20 else 0x03) 0x0200) = Ret () e1 \<and>
     rPC (regs e1) = 0x0303 \<and> rSP (regs e1) = 0xFD \<and> mem e1 0x01FF = 0x02 \<and> mem e1 0x01FE = 0x02"
  using call_return [of "sample_emu (\<lambda>a. if a = 0x0200 then 0x20 else 0x03) 0x0200" sample_host]
  by (auto simp: hi8_def lo8_def join8_def)

lemma stack_not_vector [simp]:
  "0xFFFE = stack_addr sp \<longleftrightarrow> False" "0xFFFF = stack_addr sp \<longleftrightarrow> False"
proof -
  have "unat (stack_addr sp) < 512" using u8_bound [of sp] by (simp add: unat_word_ariths)
  then show "0xFFFE = stack_addr sp \<longleftrightarrow> False" "0xFFFF = stack_addr sp \<longleftrightarrow> False"
    by (auto simp del: unat_ucast_8_16)
qed

lemma ram_irq:
  assumes "ram_machine e"
  defines "sp \<equiv> rSP (regs e)"
  shows "\<exists>e1. rk65c02_irq H e = Ret () e1 \<and> ram_machine e1 \<and> \<not> irq e1 \<and>
    regs e1 = (regs e)\<lparr>rPC := join8 (mem e VECTOR_IRQ) (mem e (VECTOR_IRQ + 1)), rSP := sp - 3,
      rP := (rP (regs e) OR P_IRQ_DISABLE) AND NOT P_DECIMAL AND NOT P_BREAK\<rparr> \<and>
    mem e1 = (mem e)(stack_addr sp := hi8 (rPC (regs e)), stack_addr (sp - 1) := lo8 (rPC (regs e)),
      stack_addr (sp - 2) := rP (regs e))"
  using assms
  by (simp add: rk65c02_irq_def Let_def flag_set_def flag_clear_def join8_def [symmetric] and.assoc)

text \<open>
  C23. Interrupt entry and return: taking an interrupt pushes PC and P, masks further ones,
  clears decimal mode and the request line and continues at the vector; an RTI executed later
  with the same stack pointer and those three bytes intact resumes at the interrupted address
  with the caller's stack pointer and status, break bit clear and bit 5 set.
\<close>

theorem interrupt_return:
  assumes "ram_machine e"
  shows "\<exists>e1. rk65c02_irq H e = Ret () e1 \<and> ram_machine e1 \<and> \<not> irq e1 \<and>
    rPC (regs e1) = join8 (mem e 0xFFFE) (mem e 0xFFFF) \<and> rSP (regs e1) = rSP (regs e) - 3 \<and>
    flag P_IRQ_DISABLE e1 \<and> \<not> flag P_DECIMAL e1 \<and>
    (\<forall>e2. ram_machine e2 \<and> quiet e2 \<and> \<not> mmu_fault_reexec e2 \<and> mem e2 (rPC (regs e2)) = 0x40 \<and>
       rSP (regs e2) = rSP (regs e1) \<and>
       (\<forall>k \<in> {0, 1, 2}. mem e2 (stack_addr (rSP (regs e) - k)) = mem e1 (stack_addr (rSP (regs e) - k))) \<longrightarrow>
       rk65c02_exec H e2 = Ret () (set_PC (rPC (regs e)) (set_SP (rSP (regs e))
         (set_P ((rP (regs e) OR P_UNDEFINED) AND NOT P_BREAK) e2))))"
proof -
  let ?pc = "rPC (regs e)" and ?sp = "rSP (regs e)" and ?p = "rP (regs e)"
  from ram_irq [OF assms, of H] obtain e1 where e1: "rk65c02_irq H e = Ret () e1" "ram_machine e1" "\<not> irq e1"
    "regs e1 = (regs e)\<lparr>rPC := join8 (mem e VECTOR_IRQ) (mem e (VECTOR_IRQ + 1)), rSP := ?sp - 3,
      rP := (?p OR P_IRQ_DISABLE) AND NOT P_DECIMAL AND NOT P_BREAK\<rparr>"
    "mem e1 = (mem e)(stack_addr ?sp := hi8 ?pc, stack_addr (?sp - 1) := lo8 ?pc, stack_addr (?sp - 2) := ?p)"
    by blast
  have "rk65c02_exec H e2 = Ret () (set_PC ?pc (set_SP ?sp (set_P ((?p OR P_UNDEFINED) AND NOT P_BREAK) e2)))"
    if "ram_machine e2" "quiet e2" "\<not> mmu_fault_reexec e2" "mem e2 (rPC (regs e2)) = 0x40"
      "rSP (regs e2) = ?sp - 3" "mem e2 (stack_addr ?sp) = hi8 ?pc"
      "mem e2 (stack_addr (?sp - 1)) = lo8 ?pc" "mem e2 (stack_addr (?sp - 2)) = ?p" for e2
    using that exec_ram [OF that(1-4), of H
        "set_PC ?pc (set_SP ?sp (set_SP (?sp - 1) (set_P ((?p OR P_UNDEFINED) AND NOT P_BREAK) (set_SP (?sp - 2) e2))))"]
    by (simp add: decode_simps emul_dispatch_def emul_rti_def join8_def [symmetric])
      (simp add: set_PC_def set_SP_def set_P_def)
  with e1 show ?thesis by (intro exI [of _ e1]) (simp add: bit_and_iff bit_or_iff bit_not_iff bit_numeral_word_iff)
qed

theorem interrupt_return_witness:
  "\<exists>e1. rk65c02_irq sample_host (sample_emu (\<lambda>_. 0x12) 0x0345) = Ret () e1 \<and>
     rPC (regs e1) = 0x1212 \<and> rSP (regs e1) = 0xFC \<and> flag P_IRQ_DISABLE e1"
  using interrupt_return [of "sample_emu (\<lambda>_. 0x12) 0x0345" sample_host]
  by (auto simp: join8_def)

section \<open>Straight-line code\<close>

text \<open>Nothing but the program counter's value matters here: no trace, no pending re-execution.\<close>

definition calm :: "u16 \<Rightarrow> 'h emu \<Rightarrow> bool" where
  "calm pc e \<longleftrightarrow> ram_machine e \<and> rPC (regs e) = pc \<and> \<not> trace e \<and> \<not> mmu_fault_reexec e \<and>
     on_stop e = None \<and> \<not> in_jit_run e"

lemma calm_fields [simp]:
  "ram_machine (stop_requested_update f e) = ram_machine e"
  "on_stop (poke a v e) = on_stop e" "in_jit_run (poke a v e) = in_jit_run e"
  by (simp_all add: ram_machine_def plain_def poke_def)

interpretation line: data_inv "calm pc" "\<lambda>_. False" H for pc H
  by unfold_locales
    (auto simp: calm_def register_defs rk65c02_panic_def emu_stop_error_def Let_def
      rk65c02_maybe_call_on_stop_def)

text \<open>Row \<open>n\<close> of the table is the row of opcode \<open>n\<close>.\<close>

lemma decode_opcode: "id_opcode (instruction_decode opc) = opc"
proof -
  have "list_all (\<lambda>i. id_opcode (instrs ! i) = of_nat i) [0..<256]"
    by (simp add: upt_rec instrs_def row_def)
  then have "id_opcode (instrs ! unat opc) = of_nat (unat opc)" using u8_bound [of opc] by (simp add: list_all_iff)
  then show ?thesis by (simp add: instruction_decode_def)
qed

text \<open>The rows that do not claim the program counter have handlers that leave it alone, but for RTS.\<close>

lemma line_rows:
  assumes "\<not> instruction_modify_pc (instruction_decode opc)" "opc \<noteq> 0x60"
  shows "\<exists>f. emul (instruction_decode opc) = Some f \<and> \<not> pc_handler f"
proof -
  have "list_all (\<lambda>r. \<not> modify_pc r \<and> id_opcode r \<noteq> 0x60 \<longrightarrow> (\<exists>f. emul r = Some f \<and> \<not> pc_handler f)) instrs"
    by (simp add: instrs_def row_def pc_handler_def)
  from decode_all [OF this, of opc] assms show ?thesis
    by (simp add: decode_opcode instruction_modify_pc_def)
qed

text \<open>
  C25. Straight-line code: an instruction whose table row does not modify the program counter,
  RTS apart, always completes and moves the program counter on by the size in its row, which is
  the number of bytes the fetch read; memory stays RAM.
\<close>

theorem straight_line_pc:
  assumes "calm pc e" "quiet e" "\<not> instruction_modify_pc (instruction_decode (mem e pc))" "mem e pc \<noteq> 0x60"
  shows "\<exists>e'. rk65c02_exec H e = Ret () e' \<and> calm (pc + ucast (isize (instruction_decode (mem e pc)))) e' \<and>
    unat (isize (instruction_decode (mem e pc))) = 1 + mode_operands (mode (instruction_decode (mem e pc)))"
proof -
  let ?idf = "instruction_decode (mem e pc)" and ?i = "insn_at H (mem e) pc"
  from line_rows [OF assms(3,4)] obtain f where f: "emul ?idf = Some f" "\<not> pc_handler f" by blast
  from line.holds_data_emul [OF assms(1) f(2), of H ?idf ?i]
  obtain e1 where e1: "emul_dispatch H ?idf ?i e = Ret () e1" "calm pc e1"
    by (cases "emul_call f H ?idf ?i e") (auto simp: line.holds_def emul_dispatch_def f(1))
  have e: "ram_machine e" "\<not> mmu_fault_reexec e" "rPC (regs e) = pc" "\<not> trace e"
    using assms(1) by (simp_all add: calm_def)
  have "rk65c02_exec H e = Ret () (program_counter_increment ?idf e1)"
    using exec_ram [OF e(1) assms(2) e(2), of "mem e pc" H e1] e e1 assms(3) by (simp add: calm_def)
  moreover have "calm (pc + ucast (isize ?idf)) (program_counter_increment ?idf e1)"
    using e1(2) by (simp add: calm_def program_counter_increment_def)
  moreover have "unat (isize ?idf) = 1 + mode_operands (mode ?idf)"
    using f by (auto simp: isize_mode pc_handler_def)
  ultimately show ?thesis by blast
qed

theorem straight_line_pc_witness:
  "\<exists>e'. rk65c02_exec sample_host (sample_emu (\<lambda>_. 0xA9) 0x0200) = Ret () e' \<and> rPC (regs e') = 0x0202"
  using straight_line_pc [of "0x0200" "sample_emu (\<lambda>_. 0xA9) 0x0200" sample_host]
  by (auto simp: calm_def decode_simps)

section \<open>The status register\<close>

definition status_ok :: "'h emu \<Rightarrow> bool" where
  "status_ok e \<longleftrightarrow> \<not> in_jit_run e \<and> bit (rP (regs e)) 5 \<and> \<not> bit (rP (regs e)) 4"

text \<open>A host whose callbacks leave the registers and the run flag alone.\<close>

definition plain_host :: "'h host \<Rightarrow> bool" where
  "plain_host H \<longleftrightarrow> host_keeps in_jit_run H \<and> host_keeps regs H"

lemma kept_outside:
  assumes "post (\<lambda>_ e'. \<not> in_jit_run e') (\<lambda>_. False) m" "regs_view.kept (regs e) m"
  shows "post (\<lambda>_ e'. \<not> in_jit_run e' \<and> regs e' = regs e) (\<lambda>_. False) m"
  using assms by (cases m) simp_all

lemma access_registers:
  assumes "plain_host H" "\<not> in_jit_run e"
  shows "post (\<lambda>_ e'. \<not> in_jit_run e' \<and> regs e' = regs e) (\<lambda>_. False) (rk65c02_mem_fetch_1 H a e)"
    and "post (\<lambda>_ e'. \<not> in_jit_run e' \<and> regs e' = regs e) (\<lambda>_. False) (rk65c02_mem_read_1 H a e)"
    and "post (\<lambda>_ e'. \<not> in_jit_run e' \<and> regs e' = regs e) (\<lambda>_. False) (rk65c02_mem_write_1 H a v e)"
    and "post (\<lambda>_ e'. \<not> in_jit_run e' \<and> regs e' = regs e) (\<lambda>_. False) (rk65c02_panic H e)"
  using assms unfolding plain_host_def rk65c02_panic_def
  by (auto intro!: kept_outside access_outside stop_error_outside regs_view.kept_fetch_1
      regs_view.kept_read_1 regs_view.kept_write_1 regs_view.kept_stop_error)

lemma post_imp:
  "m \<noteq> Abort \<Longrightarrow> (A \<Longrightarrow> post (\<lambda>_. J) (\<lambda>_. False) m) \<Longrightarrow> post (\<lambda>_ e. A \<longrightarrow> J e) (\<lambda>_. \<not> A) m"
  by (cases m) auto

lemma status_kept:
  "post (\<lambda>_ e'. \<not> in_jit_run e' \<and> regs e' = regs e) (\<lambda>_. False) m \<Longrightarrow> status_ok e \<Longrightarrow>
     post (\<lambda>_. status_ok) (\<lambda>_. False) m"
  by (cases m) (simp_all add: status_ok_def)

lemma status_access:
  assumes "plain_host H" "status_ok e"
  shows "post (\<lambda>_. status_ok) (\<lambda>_. False) (rk65c02_mem_fetch_1 H a e)"
    "post (\<lambda>_. status_ok) (\<lambda>_. False) (rk65c02_mem_read_1 H a e)"
    "post (\<lambda>_. status_ok) (\<lambda>_. False) (rk65c02_mem_write_1 H a v e)"
    "post (\<lambda>_. status_ok) (\<lambda>_. False) (rk65c02_panic H e)"
proof -
  have "\<not> in_jit_run e" using assms(2) by (simp add: status_ok_def)
  note kept = access_registers [OF assms(1) this, THEN status_kept, OF assms(2)]
  show "post (\<lambda>_. status_ok) (\<lambda>_. False) (rk65c02_mem_fetch_1 H a e)"
    "post (\<lambda>_. status_ok) (\<lambda>_. False) (rk65c02_mem_read_1 H a e)"
    "post (\<lambda>_. status_ok) (\<lambda>_. False) (rk65c02_mem_write_1 H a v e)"
    "post (\<lambda>_. status_ok) (\<lambda>_. False) (rk65c02_panic H e)"
    by (rule kept)+
qed

lemma status_updates:
  assumes "status_ok e"
  shows "status_ok (set_A v e)" "status_ok (set_X v e)" "status_ok (set_Y v e)" "status_ok (set_SP v e)"
    "status_ok (set_PC w e)" "m \<in> status_flags \<Longrightarrow> status_ok (flag_set m e)"
    "m \<in> status_flags \<Longrightarrow> status_ok (flag_clear m e)" "status_ok (flag_clear P_BREAK e)"
    "status_ok (set_P ((v OR P_UNDEFINED) AND NOT P_BREAK) e)"
  using assms
  by (auto simp: status_ok_def register_defs status_flags_def bit_or_iff bit_and_iff bit_not_iff
      bit_flags simp del: bit_numeral_word_iff)

lemma status_irq [simp]: "status_ok (irq_update f e) = status_ok e"
  by (simp add: status_ok_def)

text \<open>Interrupt entry clears the break bit that BRK sets for the byte it pushes.\<close>

lemma push_keeps:
  assumes "plain_host H" "\<not> in_jit_run e" "bit (rP (regs e)) 5"
  shows "post (\<lambda>_ e'. \<not> in_jit_run e' \<and> bit (rP (regs e')) 5) (\<lambda>_. False) (stack_push H v e)"
  unfolding stack_push_def
  by (rule post_seq [OF access_registers(3) [OF assms(1,2)]]) (use assms(3) in simp)

lemma irq_status:
  assumes "plain_host H" "\<not> in_jit_run e" "bit (rP (regs e)) 5"
  shows "post (\<lambda>_. status_ok) (\<lambda>_. False) (rk65c02_irq H e)"
proof -
  have clear: "status_ok (flag_clear P_BREAK (flag_clear P_DECIMAL (flag_set P_IRQ_DISABLE s)))"
    if "\<not> in_jit_run s" "bit (rP (regs s)) 5" for s :: "'a emu"
    using that by (simp add: status_ok_def register_defs bit_or_iff bit_and_iff bit_not_iff bit_flags)
  note seq = push_keeps [OF assms(1), THEN post_seq] status_access(2) [OF assms(1), THEN post_seq]
  show ?thesis
    unfolding rk65c02_irq_def Let_def using assms(2,3)
    by (auto intro!: seq clear status_updates(5) simp: status_updates(5))
qed

lemma brk_status:
  assumes "plain_host H" "status_ok e"
  shows "post (\<lambda>_. status_ok) (\<lambda>_. False) (emul_brk H idf i e)"
  unfolding emul_brk_def Let_def
  by (rule irq_status [OF assms(1)])
    (use assms(2) in \<open>auto simp: status_ok_def set_PC_def flag_set_def set_P_def bit_or_iff\<close>)

lemma brk_total: "emul_brk H idf i e \<noteq> Abort"
  using total.I_brk [of H idf i e] by auto

interpretation status: cpu_inv "\<lambda>e. plain_host H \<longrightarrow> status_ok e" "\<lambda>_. \<not> plain_host H" H for H
proof
  fix e :: "'a emu" and a v idf i
  assume e: "plain_host H \<longrightarrow> status_ok e"
  show "post (\<lambda>_ e. plain_host H \<longrightarrow> status_ok e) (\<lambda>_. \<not> plain_host H) (rk65c02_mem_fetch_1 H a e)"
    by (rule post_imp [OF access_total(1)]) (use e in \<open>simp add: status_access\<close>)
  show "post (\<lambda>_ e. plain_host H \<longrightarrow> status_ok e) (\<lambda>_. \<not> plain_host H) (rk65c02_mem_read_1 H a e)"
    by (rule post_imp [OF access_total(2)]) (use e in \<open>simp add: status_access\<close>)
  show "post (\<lambda>_ e. plain_host H \<longrightarrow> status_ok e) (\<lambda>_. \<not> plain_host H) (rk65c02_mem_write_1 H a v e)"
    by (rule post_imp [OF access_total(3)]) (use e in \<open>simp add: status_access\<close>)
  show "post (\<lambda>_ e. plain_host H \<longrightarrow> status_ok e) (\<lambda>_. \<not> plain_host H) (rk65c02_panic H e)"
    by (rule post_imp) (use e in \<open>simp_all add: status_access, simp add: rk65c02_panic_def stop_error_total\<close>)
  show "post (\<lambda>_ e. plain_host H \<longrightarrow> status_ok e) (\<lambda>_. \<not> plain_host H) (emul_brk H idf i e)"
    by (rule post_imp [OF brk_total]) (use e in \<open>simp add: brk_status\<close>)
  show "plain_host H \<longrightarrow> status_ok (set_P ((v OR P_UNDEFINED) AND NOT P_BREAK) e)"
    using e by (blast intro: status_updates)
qed (simp_all add: status_updates, simp_all add: status_ok_def)

text \<open>
  C20. The status register keeps its shape: outside native code, and with a host whose callbacks
  leave the registers alone, executing an instruction or entering an interrupt always returns,
  never unwinds, and leaves bit 5 set and the break bit clear if they were so before.
\<close>

theorem status_register_shape:
  assumes "plain_host H" "status_ok e"
  shows "\<exists>e'. rk65c02_exec H e = Ret () e' \<and> status_ok e'"
  using status.post_exec [of H e] assms by (cases "rk65c02_exec H e") auto

theorem status_register_shape_witness:
  "\<exists>e'. rk65c02_exec sample_host (sample_emu (\<lambda>_. 0x28) 0x0200) = Ret () e' \<and> status_ok e'"
  using status_register_shape [of sample_host "sample_emu (\<lambda>_. 0x28) 0x0200"]
  by (simp add: plain_host_def status_ok_def bit_numeral_word_iff)

section \<open>Comparisons, shifts and bit instructions\<close>

lemma compare_flags:
  fixes r v :: u8 and e :: "'h emu"
  defines "e2 \<equiv> (if r < v then flag_clear P_CARRY (status_zn (r - v) e) else flag_set P_CARRY (status_zn (r - v) e))"
  shows "e2 = set_P (rP (regs e2)) e" "flag P_CARRY e2 \<longleftrightarrow> v \<le> r" "flag P_ZERO e2 \<longleftrightarrow> r = v"
    "flag P_NEGATIVE e2 \<longleftrightarrow> bit (r - v) 7"
    "map (bit (rP (regs e2))) [2, 3, 4, 5, 6] = map (bit (rP (regs e))) [2, 3, 4, 5, 6]"
proof -
  have e2: "e2 = flag_put P_CARRY (v \<le> r) (status_zn (r - v) e)"
    by (auto simp: e2_def flag_put_def)
  show "e2 = set_P (rP (regs e2)) e"
    by (simp add: e2 status_zn_put) (simp add: flag_put_def flag_set_def flag_clear_def set_P_def)
  show "flag P_CARRY e2 \<longleftrightarrow> v \<le> r" "flag P_ZERO e2 \<longleftrightarrow> r = v" "flag P_NEGATIVE e2 \<longleftrightarrow> bit (r - v) 7"
    "map (bit (rP (regs e2))) [2, 3, 4, 5, 6] = map (bit (rP (regs e))) [2, 3, 4, 5, 6]"
    by (simp_all add: e2)
qed

text \<open>
  C26. Comparisons: CMP, CPX and CPY set carry exactly when the register is at least the operand
  as an unsigned number, zero exactly when they are equal, negative from the difference, and
  change no other flag and no other state.
\<close>

theorem compare_semantics:
  assumes "instruction_data_read_1 H idf i e = Ret m e1"
    and "(f, r) \<in> {(emul_cmp H, rA (regs e1)), (emul_cpx H, rX (regs e1)), (emul_cpy H, rY (regs e1))}"
  shows "\<exists>e2. f idf i e = Ret () e2 \<and> e2 = set_P (rP (regs e2)) e1 \<and>
    (flag P_CARRY e2 \<longleftrightarrow> unat m \<le> unat r) \<and> (flag P_ZERO e2 \<longleftrightarrow> r = m) \<and>
    (flag P_NEGATIVE e2 \<longleftrightarrow> bit (r - m) 7) \<and>
    map (bit (rP (regs e2))) [2, 3, 4, 5, 6] = map (bit (rP (regs e1))) [2, 3, 4, 5, 6]"
proof -
  let ?e2 = "if r < m then flag_clear P_CARRY (status_zn (r - m) e1) else flag_set P_CARRY (status_zn (r - m) e1)"
  have "f idf i e = Ret () ?e2"
    using assms by (auto simp: emul_cmp_def emul_cpx_def emul_cpy_def status_zn_put Let_def)
  with compare_flags [where r = r and v = m and e = e1] show ?thesis
    unfolding word_le_nat_alt by blast
qed

theorem compare_semantics_witness:
  "\<exists>e2. emul_cpx sample_host (instruction_decode 0xE0) \<lparr>opcode = 0xE0, op1 = 0x10, op2 = 0\<rparr>
        (set_X 0x90 (sample_emu (\<lambda>_. 0) 0)) = Ret () e2 \<and> flag P_CARRY e2 \<and> flag P_NEGATIVE e2"
proof -
  let ?e = "set_X 0x90 (sample_emu (\<lambda>_. 0) 0)"
  have "instruction_data_read_1 sample_host (instruction_decode 0xE0) \<lparr>opcode = 0xE0, op1 = 0x10, op2 = 0\<rparr> ?e
      = Ret 0x10 ?e"
    by (simp add: instruction_data_read_1_def decode_simps)
  from compare_semantics [OF this, of "emul_cpx sample_host" "0x90"] show ?thesis
    by (auto simp: bit_numeral_word_iff)
qed

lemma asl_word: "unat (push_bit 1 (v :: u8)) + 256 * of_bool (bit v 7) = 2 * unat v"
proof -
  have "unat (push_bit 1 v) = (2 * unat v) mod 256"
    by (simp add: unat_word_ariths mult.commute)
  then show ?thesis using u8_bound [of v] by (auto simp: bit7_u8 mod_if)
qed

lemma rol_word:
  "unat (if c then push_bit 1 v OR 1 else push_bit 1 (v :: u8) AND NOT 1) + 256 * of_bool (bit v 7) =
     2 * unat v + of_bool c"
proof -
  have "push_bit 1 v AND NOT 1 = push_bit 1 v"
    by (rule bit_word_eqI) (auto simp only: bit_and_iff bit_not_iff bit_push_bit_iff bit_1_iff possible_bit_word)
  moreover have "push_bit 1 v OR 1 = push_bit 1 v + 1" by (simp add: or_one_eq)
  moreover have "unat (push_bit 1 v + 1) = unat (push_bit 1 v) + 1"
  proof -
    have "even (unat (push_bit 1 v))" using asl_word [of v] by (metis even_add even_mult_iff even_numeral)
    then have "unat (push_bit 1 v) \<noteq> 255" by auto
    then show ?thesis using u8_bound [of "push_bit 1 v"] by (simp add: unat_word_ariths)
  qed
  ultimately show ?thesis using asl_word [of v] by simp
qed

lemma lsr_word: "2 * unat (drop_bit 1 (v :: u8)) + of_bool (bit v 0) = unat v"
proof -
  have "unat (drop_bit 1 v) = unat v div 2" by (simp add: drop_bit_eq_div unat_div)
  moreover have "bit v 0 \<longleftrightarrow> odd (unat v)" 
    by (metis bit_0 bit_unsigned_iff possible_bit_0)
  ultimately show ?thesis by simp
qed

lemma ror_word:
  "2 * unat (if c then drop_bit 1 v OR 0x80 else drop_bit 1 (v :: u8) AND NOT 0x80) + of_bool (bit v 0) =
     unat v + 256 * of_bool c"
proof -
  have h: "\<not> bit (drop_bit 1 v) 7" using bit_imp_le_length [of v 8] by (auto simp: bit_drop_bit_eq)
  have "drop_bit 1 v AND NOT 0x80 = drop_bit 1 v"
    using h by (intro bit_word_eqI) (auto simp only: bit_and_iff bit_not_iff bit_flags possible_bit_word)
  moreover have "drop_bit 1 v OR 0x80 = drop_bit 1 v + 0x80"
    using h by (intro disjunctive_add_eq_or [symmetric] bit_word_eqI) (auto simp: bit_and_iff bit_flags)
  moreover have "unat (drop_bit 1 v + 0x80) = unat (drop_bit 1 v) + 128"
    using h by (simp add: bit7_u8 unat_word_ariths)
  ultimately show ?thesis using lsr_word [of v] by simp
qed

lemma shift_accumulator:
  fixes e :: "'h emu"
  assumes "mode idf = ACCUMULATOR"
  defines "rotl \<equiv> \<lambda>c v :: u8. if c then push_bit 1 v OR 1 else push_bit 1 v AND NOT 1"
    and "rotr \<equiv> \<lambda>c v :: u8. if c then drop_bit 1 v OR 0x80 else drop_bit 1 v AND NOT 0x80"
    and "upd \<equiv> \<lambda>c v. set_A v (status_zn v (flag_put P_CARRY c e))"
  shows "emul_asl H idf i e = Ret () (upd (bit (rA (regs e)) 7) (push_bit 1 (rA (regs e))))"
    "emul_lsr H idf i e = Ret () (upd (bit (rA (regs e)) 0) (drop_bit 1 (rA (regs e))))"
    "emul_rol H idf i e = Ret () (upd (bit (rA (regs e)) 7) (rotl (flag P_CARRY e) (rA (regs e))))"
    "emul_ror H idf i e = Ret () (upd (bit (rA (regs e)) 0) (rotr (flag P_CARRY e) (rA (regs e))))"
  using assms(1)
  by (simp_all add: emul_asl_def emul_lsr_def emul_rol_def emul_ror_def instruction_data_read_1_def
      instruction_data_write_1_def Let_def upd_def rotl_def rotr_def set_A_def)

lemma shift_spec:
  assumes "mode idf = ACCUMULATOR"
  shows "\<exists>e1. emul_asl H idf i e = Ret () e1 \<and>
      unat (rA (regs e1)) + 256 * of_bool (flag P_CARRY e1) = 2 * unat (rA (regs e))"
    and "\<exists>e1. emul_lsr H idf i e = Ret () e1 \<and>
      2 * unat (rA (regs e1)) + of_bool (flag P_CARRY e1) = unat (rA (regs e))"
    and "\<exists>e1. emul_rol H idf i e = Ret () e1 \<and>
      unat (rA (regs e1)) + 256 * of_bool (flag P_CARRY e1) = 2 * unat (rA (regs e)) + of_bool (flag P_CARRY e)"
    and "\<exists>e1. emul_ror H idf i e = Ret () e1 \<and>
      2 * unat (rA (regs e1)) + of_bool (flag P_CARRY e1) = unat (rA (regs e)) + 256 * of_bool (flag P_CARRY e)"
proof -
  have upd: "rA (regs (set_A v (status_zn v (flag_put P_CARRY c e)))) = v"
    "flag P_CARRY (set_A v (status_zn v (flag_put P_CARRY c e))) = c" for v c
    by (simp_all add: set_A_def)
  note eqs = shift_accumulator [OF assms, of H i e]
  show "\<exists>e1. emul_asl H idf i e = Ret () e1 \<and>
      unat (rA (regs e1)) + 256 * of_bool (flag P_CARRY e1) = 2 * unat (rA (regs e))"
    unfolding eqs by (intro exI conjI, rule refl, unfold upd, rule asl_word)
  show "\<exists>e1. emul_lsr H idf i e = Ret () e1 \<and>
      2 * unat (rA (regs e1)) + of_bool (flag P_CARRY e1) = unat (rA (regs e))"
    unfolding eqs by (intro exI conjI, rule refl, unfold upd, rule lsr_word)
  show "\<exists>e1. emul_rol H idf i e = Ret () e1 \<and>
      unat (rA (regs e1)) + 256 * of_bool (flag P_CARRY e1) = 2 * unat (rA (regs e)) + of_bool (flag P_CARRY e)"
    unfolding eqs by (intro exI conjI, rule refl, unfold upd, rule rol_word)
  show "\<exists>e1. emul_ror H idf i e = Ret () e1 \<and>
      2 * unat (rA (regs e1)) + of_bool (flag P_CARRY e1) = unat (rA (regs e)) + 256 * of_bool (flag P_CARRY e)"
    unfolding eqs by (intro exI conjI, rule refl, unfold upd, rule ror_word)
qed

text \<open>
  C27. Shifts and rotates of the accumulator are 9-bit shifts through the carry: ASL and ROL
  double A, ROL adding the old carry, LSR and ROR halve it, ROR with the old carry above; the
  bit shifted out is the new carry. A rotate followed by the opposite one restores A and carry.
\<close>

theorem shift_arithmetic:
  assumes "mode idf = ACCUMULATOR"
  shows "(\<exists>e1. emul_asl H idf i e = Ret () e1 \<and>
      unat (rA (regs e1)) + 256 * of_bool (flag P_CARRY e1) = 2 * unat (rA (regs e))) \<and>
    (\<exists>e1. emul_lsr H idf i e = Ret () e1 \<and>
      2 * unat (rA (regs e1)) + of_bool (flag P_CARRY e1) = unat (rA (regs e))) \<and>
    (\<exists>e1 e2. emul_rol H idf i e = Ret () e1 \<and> emul_ror H idf i e1 = Ret () e2 \<and>
      unat (rA (regs e1)) + 256 * of_bool (flag P_CARRY e1) = 2 * unat (rA (regs e)) + of_bool (flag P_CARRY e) \<and>
      rA (regs e2) = rA (regs e) \<and> flag P_CARRY e2 = flag P_CARRY e) \<and>
    (\<exists>e1 e2. emul_ror H idf i e = Ret () e1 \<and> emul_rol H idf i e1 = Ret () e2 \<and>
      2 * unat (rA (regs e1)) + of_bool (flag P_CARRY e1) = unat (rA (regs e)) + 256 * of_bool (flag P_CARRY e) \<and>
      rA (regs e2) = rA (regs e) \<and> flag P_CARRY e2 = flag P_CARRY e)"
proof -
  note spec = shift_spec [OF assms]
  have low: "a = b \<and> c = d" if "2 * unat (a :: u8) + of_bool c = 2 * unat (b :: u8) + of_bool d" for a b c d
    using that by (cases c; cases d) (auto simp: word_unat_eq_iff, presburger+)
  have high: "a = b \<and> c = d" if "unat (a :: u8) + 256 * of_bool c = unat (b :: u8) + 256 * of_bool d" for a b c d
    using that u8_bound [of a] u8_bound [of b] by (cases c; cases d) (auto simp: word_unat_eq_iff)
  from spec(3) [of H i e] obtain l1 where l1: "emul_rol H idf i e = Ret () l1"
    "unat (rA (regs l1)) + 256 * of_bool (flag P_CARRY l1) = 2 * unat (rA (regs e)) + of_bool (flag P_CARRY e)" by blast
  from spec(4) [of H i l1] obtain l2 where l2: "emul_ror H idf i l1 = Ret () l2"
    "2 * unat (rA (regs l2)) + of_bool (flag P_CARRY l2) = unat (rA (regs l1)) + 256 * of_bool (flag P_CARRY l1)" by blast
  from spec(4) [of H i e] obtain r1 where r1: "emul_ror H idf i e = Ret () r1"
    "2 * unat (rA (regs r1)) + of_bool (flag P_CARRY r1) = unat (rA (regs e)) + 256 * of_bool (flag P_CARRY e)" by blast
  from spec(3) [of H i r1] obtain r2 where r2: "emul_rol H idf i r1 = Ret () r2"
    "unat (rA (regs r2)) + 256 * of_bool (flag P_CARRY r2) = 2 * unat (rA (regs r1)) + of_bool (flag P_CARRY r1)" by blast
  from spec(1,2) [of H i e] l1 l2(1) low [OF trans [OF l2(2) l1(2)]] r1 r2(1) high [OF trans [OF r2(2) r1(2)]]
  show ?thesis by blast
qed

theorem shift_arithmetic_witness:
  "\<exists>e1 e2. emul_rol sample_host (instruction_decode 0x2A) \<lparr>opcode = 0x2A, op1 = 0, op2 = 0\<rparr>
        (set_A 0x81 (sample_emu (\<lambda>_. 0) 0)) = Ret () e1 \<and>
     emul_ror sample_host (instruction_decode 0x2A) \<lparr>opcode = 0x2A, op1 = 0, op2 = 0\<rparr> e1 = Ret () e2 \<and>
     unat (rA (regs e1)) + 256 * of_bool (flag P_CARRY e1) = 0x102 \<and> rA (regs e2) = 0x81"
proof -
  have "mode (instruction_decode 0x2A) = ACCUMULATOR" by (simp add: decode_simps)
  from shift_arithmetic [OF this, of sample_host "\<lparr>opcode = 0x2A, op1 = 0, op2 = 0\<rparr>"
      "set_A 0x81 (sample_emu (\<lambda>_. 0) 0)"]
  show ?thesis by (elim conjE exE) (auto simp: bit_numeral_word_iff)
qed

lemma zp_access:
  assumes "ram_machine e" "mode idf \<in> {ZP, ZPR}"
  shows "instruction_data_read_1 H idf i e = Ret (mem e (ucast (op1 i))) e"
    "instruction_data_write_1 H idf i v e = Ret () (poke (ucast (op1 i)) v e)"
  using assms by (auto simp: instruction_data_read_1_def instruction_data_write_1_def instruction_data_address_def)

text \<open>
  C28. The bit instructions agree: RMBk and SMBk change exactly bit k of their zero-page byte, to
  0 and 1, and nothing else; after RMBk, BBRk on that byte branches and BBSk falls through, and
  after SMBk the other way round.
\<close>

theorem bit_instructions:
  assumes "ram_machine e" "k < 8" "mode idf = ZP" "mode idf' = ZPR" "isize idf' = 3" "op1 i' = op1 i"
  shows "\<forall>b. \<exists>e1. (if b then emul_smb k H idf i e else emul_rmb k H idf i e) = Ret () e1 \<and>
    regs e1 = regs e \<and> ram_machine e1 \<and> (\<forall>x. x \<noteq> ucast (op1 i) \<longrightarrow> mem e1 x = mem e x) \<and>
    (\<forall>n < 8. bit (mem e1 (ucast (op1 i))) n \<longleftrightarrow> (if n = k then b else bit (mem e (ucast (op1 i))) n)) \<and>
    emul_bbr k H idf' i' e1 = Ret () (set_PC (rPC (regs e) + 3 + (if b then 0 else scast (op2 i'))) e1) \<and>
    emul_bbs k H idf' i' e1 = Ret () (set_PC (rPC (regs e) + 3 + (if b then scast (op2 i') else 0)) e1)"
proof (rule allI)
  fix b
  let ?a = "ucast (op1 i) :: u16"
  let ?v = "if b then mem e ?a OR push_bit k 1 else mem e ?a AND NOT (push_bit k 1)"
  let ?e1 = "poke ?a ?v e"
  have bits: "n < 8 \<Longrightarrow> bit ?v n \<longleftrightarrow> (if n = k then b else bit (mem e ?a) n)" for n
    using assms(2) by (auto simp: bit_or_iff bit_and_iff bit_not_iff bit_pow)
  have exec: "(if b then emul_smb k H idf i e else emul_rmb k H idf i e) = Ret () ?e1"
    using assms by (simp add: emul_smb_def emul_rmb_def zp_access)
  have "emul_bbr k H idf' i' ?e1 = Ret () (set_PC (rPC (regs e) + 3 + (if b then 0 else scast (op2 i'))) ?e1)"
    "emul_bbs k H idf' i' ?e1 = Ret () (set_PC (rPC (regs e) + 3 + (if b then scast (op2 i') else 0)) ?e1)"
    using assms bits [OF assms(2)]
    by (simp_all add: emul_bbr_def emul_bbs_def zp_access and_exp_eq_0_iff_not_bit program_counter_increment_def)
      (auto simp: set_PC_def algebra_simps)
  with exec bits assms(1) show "\<exists>e1. (if b then emul_smb k H idf i e else emul_rmb k H idf i e) = Ret () e1 \<and>
    regs e1 = regs e \<and> ram_machine e1 \<and> (\<forall>x. x \<noteq> ?a \<longrightarrow> mem e1 x = mem e x) \<and>
    (\<forall>n < 8. bit (mem e1 ?a) n \<longleftrightarrow> (if n = k then b else bit (mem e ?a) n)) \<and>
    emul_bbr k H idf' i' e1 = Ret () (set_PC (rPC (regs e) + 3 + (if b then 0 else scast (op2 i'))) e1) \<and>
    emul_bbs k H idf' i' e1 = Ret () (set_PC (rPC (regs e) + 3 + (if b then scast (op2 i') else 0)) e1)"
    by (intro exI [of _ ?e1]) simp
qed

theorem bit_instructions_witness:
  "\<exists>e1. emul_smb 3 sample_host (instruction_decode 0xB7) \<lparr>opcode = 0xB7, op1 = 0x40, op2 = 0\<rparr>
        (sample_emu (\<lambda>_. 0) 0x0200) = Ret () e1 \<and> bit (mem e1 0x40) 3 \<and>
     emul_bbs 3 sample_host (instruction_decode 0xBF) \<lparr>opcode = 0xBF, op1 = 0x40, op2 = 0x10\<rparr> e1 =
       Ret () (set_PC 0x0213 e1)"
  using bit_instructions [of "sample_emu (\<lambda>_. 0) 0x0200" 3 "instruction_decode 0xB7" "instruction_decode 0xBF"
      "\<lparr>opcode = 0xBF, op1 = 0x40, op2 = 0x10\<rparr>" "\<lparr>opcode = 0xB7, op1 = 0x40, op2 = 0\<rparr>" sample_host,
      THEN spec [of _ True]]
  by (auto simp: decode_simps)

end
