(* ===== verification/MmuProps.thy ===== *)
theory MmuProps
  imports JitProps Cpu
begin

text \<open>
  What address translation promises: accesses that succeed were allowed and in range, the TLB
  is invisible for a host whose mapping is by page, ending an update makes it so again for the
  new mapping, and a failed access reports the fault and stops the machine.
\<close>

declare bit_numeral_word_iff [simp del]

section \<open>Page mappings\<close>

text \<open>
  A mapping by page: for each virtual page whether it is mapped, its physical base (aligned to
  a page), its permissions and the fault code of an unmapped one.
\<close>

record page_map =
  pm_ok :: "u8 \<Rightarrow> bool"
  pm_base :: "u8 \<Rightarrow> u32"
  pm_perms :: "u8 \<Rightarrow> u8"
  pm_code :: "u8 \<Rightarrow> u16"

definition pm_wf :: "page_map \<Rightarrow> bool" where
  "pm_wf m \<longleftrightarrow> (\<forall>p. pm_base m p AND 0xFF = 0)"

definition pm_addr :: "page_map \<Rightarrow> u16 \<Rightarrow> u32" where
  "pm_addr m va = pm_base m (hi8 va) OR ucast (va AND 0x00FF)"

text \<open>The host's translate callback answers from the mapping and touches nothing.\<close>

definition translates :: "'h host \<Rightarrow> 'h emu \<Rightarrow> page_map \<Rightarrow> bool" where
  "translates H e m \<longleftrightarrow>
     (\<exists>f. mmu_translate e = Some f \<and>
       (\<forall>va acc s. \<exists>nf. h_mmu_translate H f (mmu_translate_ctx e) va acc s =
          (\<lparr>res_ok = pm_ok m (hi8 va), res_paddr = pm_addr m va, res_perms = pm_perms m (hi8 va),
            res_fault_code = pm_code m (hi8 va), res_no_fill_tlb = nf\<rparr>, s)))"

text \<open>What a translation of \<open>va\<close> should give.\<close>

definition pm_lookup :: "page_map \<Rightarrow> u16 \<Rightarrow> u8 \<Rightarrow> u16 + u32" where
  "pm_lookup m va perm =
     (if \<not> pm_ok m (hi8 va) then Inl (pm_code m (hi8 va))
      else if pm_perms m (hi8 va) AND perm \<noteq> perm then Inl FAULT_PERM
      else if unat (pm_addr m va) \<ge> RK65C02_PHYS_MAX then Inl FAULT_RANGE
      else Inr (pm_addr m va))"

text \<open>The live TLB entries agree with the mapping.\<close>

definition tlb_coherent :: "page_map \<Rightarrow> 'h emu \<Rightarrow> bool" where
  "tlb_coherent m e \<longleftrightarrow>
     (\<forall>p. tlb_hit e p \<longrightarrow> pm_ok m p \<and> te_ppage_base (mmu_tlb e p) = pm_base m p \<and>
        te_perms (mmu_tlb e p) = pm_perms m p \<and>
        (\<forall>va. hi8 va = p \<longrightarrow> unat (pm_addr m va) < RK65C02_PHYS_MAX))"

lemma bit_low_u32: "bit (0xFF :: u32) n \<longleftrightarrow> n < 8"
proof -
  have "(0xFF :: u32) = mask 8" by (simp add: mask_eq_exp_minus_1)
  then have "bit (0xFF :: u32) n \<longleftrightarrow> bit (mask 8 :: u32) n" by (rule arg_cong)
  then show ?thesis by (simp only: bit_mask_iff) auto
qed

lemma bit_page_u32: "bit (0xFFFFFF00 :: u32) n \<longleftrightarrow> 8 \<le> n \<and> n < 32"
proof -
  have "(0xFFFFFF00 :: u32) = NOT (mask 8)" by (simp add: mask_eq_exp_minus_1 not_eq_complement)
  then have "bit (0xFFFFFF00 :: u32) n \<longleftrightarrow> bit (NOT (mask 8) :: u32) n" by (rule arg_cong)
  then show ?thesis by (simp only: bit_not_iff bit_mask_iff possible_bit_word) auto
qed

lemma bit_offset: "bit (ucast (va AND 0x00FF :: u16) :: u32) n \<longleftrightarrow> n < 8 \<and> bit va n"
  by (auto simp: bit_unsigned_iff bit_and_iff bit_mask8_u16)

lemma aligned_bit:
  assumes "pm_wf m" "n < 8"
  shows "\<not> bit (pm_base m p) n"
proof -
  have "\<not> bit (pm_base m p AND 0xFF) n" using assms(1) by (simp add: pm_wf_def)
  with assms(2) show ?thesis by (simp add: bit_and_iff bit_low_u32)
qed

lemma bit_pm_addr:
  "pm_wf m \<Longrightarrow> bit (pm_addr m va) n \<longleftrightarrow> (if n < 8 then bit va n else bit (pm_base m (hi8 va)) n)"
  by (auto simp: pm_addr_def bit_or_iff bit_offset aligned_bit)

lemma pm_addr_offset: "pm_wf m \<Longrightarrow> pm_addr m va AND 0xFF = ucast (va AND 0xFF)"
  by (rule bit_word_eqI) (auto simp: bit_and_iff bit_pm_addr bit_low_u32 bit_offset)

lemma pm_addr_page: "pm_wf m \<Longrightarrow> pm_addr m va AND 0xFFFFFF00 = pm_base m (hi8 va)"
  by (rule bit_word_eqI) (auto simp: bit_and_iff bit_pm_addr bit_page_u32 aligned_bit not_less)

lemma in_range: "unat (x :: u32) < 16777216 \<longleftrightarrow> (\<forall>n < 32. 24 \<le> n \<longrightarrow> \<not> bit x n)"
proof -
  have "unat x < 2 ^ 24 \<longleftrightarrow> take_bit 24 x = x"
    by (simp add: word_unat_eq_iff unsigned_take_bit_eq take_bit_nat_eq_self_iff)
  also have "\<dots> \<longleftrightarrow> (\<forall>n < 32. 24 \<le> n \<longrightarrow> \<not> bit x n)"
    by (auto simp: bit_eq_iff bit_take_bit_iff not_less[symmetric])
  finally show ?thesis by simp
qed

lemma pm_page_range:
  assumes "pm_wf m" "hi8 va = hi8 va'" "unat (pm_addr m va) < RK65C02_PHYS_MAX"
  shows "unat (pm_addr m va') < RK65C02_PHYS_MAX"
  using assms by (simp add: in_range bit_pm_addr)

lemma ex3I: "P a b c \<Longrightarrow> \<exists>x y z. P x y z"
  by blast

lemma coherent_counters [simp]:
  "tlb_coherent m (mmu_tlb_hits_update f e) = tlb_coherent m e"
  "tlb_coherent m (mmu_tlb_misses_update f e) = tlb_coherent m e"
  by (simp_all add: tlb_coherent_def tlb_hit_def)

lemma coherent_fill:
  assumes "pm_wf m" "tlb_coherent m e" "pm_ok m (hi8 va)" "unat (pm_addr m va) < RK65C02_PHYS_MAX"
  shows "tlb_coherent m (e\<lparr>mmu_tlb := (mmu_tlb e)(hi8 va :=
      \<lparr>te_valid = True, te_vpage = hi8 va, te_ppage_base = pm_addr m va AND 0xFFFFFF00,
       te_perms = pm_perms m (hi8 va), te_epoch = mmu_epoch e\<rparr>)\<rparr>)"
  using assms pm_page_range [OF assms(1) _ assms(4)]
  by (auto simp: tlb_coherent_def tlb_hit_def pm_addr_page)

lemma tlb_lookup:
  assumes "pm_wf m" "translates H e m" "tlb_coherent m e"
  shows "\<exists>t h k. rk65c02_mmu_translate_addr H va acc perm e =
      (pm_lookup m va perm, e\<lparr>mmu_tlb := t, mmu_tlb_hits := h, mmu_tlb_misses := k\<rparr>) \<and>
    tlb_coherent m (e\<lparr>mmu_tlb := t, mmu_tlb_hits := h, mmu_tlb_misses := k\<rparr>)"
proof (cases "tlb_hit e (hi8 va)")
  case True
  with assms(3) have hit: "pm_ok m (hi8 va)" "te_ppage_base (mmu_tlb e (hi8 va)) = pm_base m (hi8 va)"
    "te_perms (mmu_tlb e (hi8 va)) = pm_perms m (hi8 va)" "unat (pm_addr m va) < RK65C02_PHYS_MAX"
    by (simp_all add: tlb_coherent_def)
  with True assms(3) show ?thesis
    by (intro ex3I [of _ "mmu_tlb e" "mmu_tlb_hits e + 1" "mmu_tlb_misses e"])
      (simp add: rk65c02_mmu_translate_addr_def Let_def pm_lookup_def pm_addr_def)
next
  case False
  from assms(2) obtain f where f: "mmu_translate e = Some f"
    and all: "\<forall>va acc s. \<exists>nf. h_mmu_translate H f (mmu_translate_ctx e) va acc s =
      (\<lparr>res_ok = pm_ok m (hi8 va), res_paddr = pm_addr m va, res_perms = pm_perms m (hi8 va),
        res_fault_code = pm_code m (hi8 va), res_no_fill_tlb = nf\<rparr>, s)"
    unfolding translates_def by blast
  from all obtain nf where nf:
    "h_mmu_translate H f (mmu_translate_ctx e) va acc (e\<lparr>mmu_tlb_misses := mmu_tlb_misses e + 1\<rparr>) =
      (\<lparr>res_ok = pm_ok m (hi8 va), res_paddr = pm_addr m va, res_perms = pm_perms m (hi8 va),
        res_fault_code = pm_code m (hi8 va), res_no_fill_tlb = nf\<rparr>, e\<lparr>mmu_tlb_misses := mmu_tlb_misses e + 1\<rparr>)"
    by blast
  have tr: "rk65c02_mmu_translate_addr H va acc perm e = (let e = e\<lparr>mmu_tlb_misses := mmu_tlb_misses e + 1\<rparr> in
      if \<not> pm_ok m (hi8 va) then (Inl (pm_code m (hi8 va)), e)
      else if pm_perms m (hi8 va) AND perm \<noteq> perm then (Inl FAULT_PERM, e)
      else if unat (pm_addr m va) \<ge> RK65C02_PHYS_MAX then (Inl FAULT_RANGE, e)
      else if mmu_tlb_enabled e \<and> \<not> nf then
        (Inr (pm_addr m va), e\<lparr>mmu_tlb := (mmu_tlb e)(hi8 va :=
          \<lparr>te_valid = True, te_vpage = hi8 va, te_ppage_base = pm_addr m va AND 0xFFFFFF00,
           te_perms = pm_perms m (hi8 va), te_epoch = mmu_epoch e\<rparr>)\<rparr>)
      else (Inr (pm_addr m va), e))"
    using False f nf by (simp add: rk65c02_mmu_translate_addr_def Let_def pm_addr_offset [OF assms(1)])
  show ?thesis
  proof (cases "pm_ok m (hi8 va) \<and> pm_perms m (hi8 va) AND perm = perm \<and>
      unat (pm_addr m va) < RK65C02_PHYS_MAX \<and> mmu_tlb_enabled e \<and> \<not> nf")
    case True
    let ?t = "(mmu_tlb e)(hi8 va :=
      \<lparr>te_valid = True, te_vpage = hi8 va, te_ppage_base = pm_addr m va AND 0xFFFFFF00,
       te_perms = pm_perms m (hi8 va), te_epoch = mmu_epoch e\<rparr>)"
    have "tlb_coherent m (e\<lparr>mmu_tlb := ?t\<rparr>)" using True by (intro coherent_fill assms) simp_all
    with True show ?thesis
      unfolding tr
      by (intro ex3I [of _ ?t "mmu_tlb_hits e" "mmu_tlb_misses e + 1"])
        (simp add: Let_def pm_lookup_def)
  next
    case False
    with assms(3) show ?thesis
      unfolding tr
      by (intro ex3I [of _ "mmu_tlb e" "mmu_tlb_hits e" "mmu_tlb_misses e + 1"])
        (auto simp: Let_def pm_lookup_def)
  qed
qed

text \<open>
  C9. The TLB is invisible: with a mapping by page and a coherent TLB, a translation gives what
  the mapping says - the fault code of an unmapped page, a permission or range fault, or the
  physical address - and leaves the TLB coherent and everything but it and its counters alone.
\<close>

theorem tlb_transparent:
  assumes "pm_wf m" "translates H e m" "tlb_coherent m e"
  shows "\<exists>t h k. rk65c02_mmu_translate_addr H va acc perm e =
      (pm_lookup m va perm, e\<lparr>mmu_tlb := t, mmu_tlb_hits := h, mmu_tlb_misses := k\<rparr>) \<and>
    tlb_coherent m (e\<lparr>mmu_tlb := t, mmu_tlb_hits := h, mmu_tlb_misses := k\<rparr>)"
  by (rule tlb_lookup [OF assms])

text \<open>The mapping of the sample host: every page to itself, with all permissions.\<close>

definition sample_map :: page_map where
  "sample_map = \<lparr>pm_ok = (\<lambda>_. True), pm_base = (\<lambda>p. push_bit 8 (ucast p)), pm_perms = (\<lambda>_. 7),
     pm_code = (\<lambda>_. 0)\<rparr>"

definition sample_mmu :: "(u16 \<Rightarrow> u8) \<Rightarrow> u16 \<Rightarrow> unit emu" where
  "sample_mmu f pc = snd (rk65c02_mmu_set (Some 0) 0 None 0 True False (sample_emu f pc))"

lemma sample_map_wf: "pm_wf sample_map"
  unfolding pm_wf_def
  by (intro allI bit_word_eqI)
    (auto simp: sample_map_def bit_and_iff bit_push_bit_iff bit_low_u32)

lemma sample_map_addr [simp]: "pm_addr sample_map va = ucast va"
  by (rule bit_word_eqI)
    (use bit_imp_le_length [of va] in \<open>fastforce simp: sample_map_def pm_addr_def bit_or_iff bit_push_bit_iff
      bit_unsigned_iff bit_hi8 bit_and_iff bit_mask8_u16 not_less\<close>)

lemma sample_mmu_fields [simp]:
  "mmu_translate (sample_mmu f pc) = Some 0" "mmu_translate_ctx (sample_mmu f pc) = 0"
  "mmu_enabled (sample_mmu f pc) = True" "mmu_tlb (sample_mmu f pc) = (\<lambda>_. tlb_zero)"
  "mem_read_1_fn (sample_mmu f pc) = MEM_MMU" "mem_write_1_fn (sample_mmu f pc) = MEM_MMU"
  "jit (sample_mmu f pc) = None" "bus (sample_mmu f pc) = sample_bus f"
  "in_jit_run (sample_mmu f pc) = False" "mmu_fault (sample_mmu f pc) = None"
  by (simp_all add: sample_mmu_def rk65c02_mmu_set_def Let_def rk65c02_mmu_refresh_accessors_def
      rk65c02_mmu_tlb_flush_def)

lemma sample_mmu_map: "translates sample_host (sample_mmu f pc) sample_map"
  unfolding translates_def
  by (rule exI [of _ 0]) (simp add: sample_host_def sample_map_def sample_map_addr [unfolded sample_map_def] exI [of Not False])

lemma empty_coherent: "mmu_tlb e = (\<lambda>_. tlb_zero) \<Longrightarrow> tlb_coherent m e"
  by (simp add: tlb_coherent_def tlb_hit_def tlb_zero_def)

theorem tlb_transparent_witness:
  "fst (rk65c02_mmu_translate_addr sample_host 0x1234 MMU_WRITE MMU_PERM_W (sample_mmu (\<lambda>_. 0) 0)) = Inr 0x1234"
  using tlb_transparent [OF sample_map_wf sample_mmu_map [of "\<lambda>_. 0" 0] empty_coherent, of "0x1234" MMU_WRITE MMU_PERM_W]
  by (auto simp: pm_lookup_def) (simp_all add: sample_map_def)

section \<open>Changing the mapping\<close>

lemma end_update_fold_mode [simp]:
  "mmu_tlb_enabled (fold mmu_end_update_page ps e) = mmu_tlb_enabled e"
  "mmu_epoch (fold mmu_end_update_page ps e) = mmu_epoch e"
  by (induction ps arbitrary: e)
    (simp_all add: mmu_end_update_page_def Let_def rk65c02_mmu_tlb_flush_vpage_def
      rk65c02_jit_invalidate_code_vpage_def jit_invalidate_deferred_def split: option.split)

lemma coherent_mode [simp]:
  "tlb_coherent m (rk65c02_mmu_refresh_accessors e) = tlb_coherent m e"
  "tlb_coherent m (e\<lparr>mmu_changed_all := a, mmu_changed_vpage := f\<rparr>) = tlb_coherent m e"
  "tlb_coherent m (e\<lparr>mmu_update_pending := a\<rparr>) = tlb_coherent m e"
  by (simp_all add: tlb_coherent_def tlb_hit_def rk65c02_mmu_refresh_accessors_def)

text \<open>
  C10. The update protocol keeps the TLB invisible across a change of mapping: when every page
  on which the new mapping differs from the old one has been marked, ending the update leaves a
  TLB coherent with the new mapping.
\<close>

theorem end_update_coherent:
  assumes "tlb_coherent m e" "mmu_enabled e" "mmu_update_pending e"
    and "\<And>p. \<not> mmu_changed_all e \<Longrightarrow> \<not> mmu_changed_vpage e p \<Longrightarrow>
      pm_ok m' p = pm_ok m p \<and> pm_base m' p = pm_base m p \<and> pm_perms m' p = pm_perms m p"
  shows "tlb_coherent m' (rk65c02_mmu_end_update e)"
proof (cases "mmu_changed_all e")
  case True
  with assms(2,3) show ?thesis
    by (simp add: rk65c02_mmu_end_update_def Let_def)
      (simp add: rk65c02_mmu_tlb_flush_def empty_coherent rk65c02_jit_invalidate_all_def
        jit_invalidate_deferred_def split: option.split)
next
  case False
  let ?e = "e\<lparr>mmu_update_pending := False\<rparr>"
  have "tlb_coherent m' (fold mmu_end_update_page [0..<256] ?e)"
    using assms(1) assms(4) [OF False]
    by (auto simp: tlb_coherent_def tlb_hit_def end_update_fold_tlb u8_indices pm_addr_def)
  with False assms(2,3) show ?thesis by (simp add: rk65c02_mmu_end_update_def Let_def)
qed

text \<open>Two pages are in the TLB; the mapping of page 2 changes.\<close>

definition sample_entry :: "'h emu \<Rightarrow> u8 \<Rightarrow> tlb_entry" where
  "sample_entry e p = \<lparr>te_valid = True, te_vpage = p, te_ppage_base = pm_base sample_map p, te_perms = 7, te_epoch = mmu_epoch e\<rparr>"

definition sample_tlb :: "unit emu \<Rightarrow> unit emu" where
  "sample_tlb e = e\<lparr>mmu_tlb := (\<lambda>p. if p = 2 \<or> p = 3 then sample_entry e p else tlb_zero)\<rparr>"

lemma sample_tlb_coherent: "tlb_coherent sample_map (sample_tlb e)"
proof -
  have "unat va < RK65C02_PHYS_MAX" for va :: u16 using u16_bound [of va] by simp
  then show ?thesis
    by (simp add: tlb_coherent_def tlb_hit_def sample_tlb_def sample_entry_def tlb_zero_def) (simp add: sample_map_def)
qed

theorem end_update_coherent_witness:
  "tlb_coherent (sample_map\<lparr>pm_base := (pm_base sample_map)(2 := 0x30000)\<rparr>)
     (rk65c02_mmu_end_update (rk65c02_mmu_mark_changed_vpage 2
        (rk65c02_mmu_begin_update (sample_tlb (sample_mmu (\<lambda>_. 0) 0)))))"
proof (rule end_update_coherent [of sample_map])
  show "tlb_coherent sample_map (rk65c02_mmu_mark_changed_vpage 2 (rk65c02_mmu_begin_update (sample_tlb (sample_mmu (\<lambda>_. 0) 0))))"
    using sample_tlb_coherent [of "sample_mmu (\<lambda>_. 0) 0"]
    by (auto simp: rk65c02_mmu_mark_changed_vpage_def rk65c02_mmu_begin_update_def rk65c02_mmu_refresh_accessors_def Let_def
        tlb_coherent_def tlb_hit_def)
qed (auto simp: rk65c02_mmu_mark_changed_vpage_def rk65c02_mmu_begin_update_def sample_tlb_def
      rk65c02_mmu_refresh_accessors_def Let_def split: if_splits)

section \<open>Faults\<close>

text \<open>A machine that accesses memory through the mapping, outside native code, with no JIT.\<close>

definition mapped :: "'h host \<Rightarrow> page_map \<Rightarrow> 'h emu \<Rightarrow> bool" where
  "mapped H m e \<longleftrightarrow> pm_wf m \<and> translates H e m \<and> tlb_coherent m e \<and> mem_read_1_fn e = MEM_MMU \<and>
     mem_write_1_fn e = MEM_MMU \<and> jit e = None \<and> \<not> in_jit_run e \<and> mmu_fault e = None \<and> on_stop e = None"

text \<open>The state after a failed access.\<close>

definition faulted :: "u16 \<Rightarrow> mmu_access \<Rightarrow> u16 \<Rightarrow> 'h emu \<Rightarrow> 'h emu" where
  "faulted va acc c e = e\<lparr>mmu_last_fault_addr := va, mmu_last_fault_access := acc,
     mmu_last_fault_code := c, mmu_fault_reexec := True, use_jit := False, state := STOPPED,
     stopreason := EMUERROR, stop_requested := False\<rparr>"

text \<open>The TLB and its counters moved on.\<close>

definition tlb_moved :: "'h emu \<Rightarrow> 'h emu \<Rightarrow> bool" where
  "tlb_moved e e' \<longleftrightarrow> (\<exists>t h k. e' = e\<lparr>mmu_tlb := t, mmu_tlb_hits := h, mmu_tlb_misses := k\<rparr>)"

lemma mapped_translate:
  assumes "mapped H m e"
  obtains e' where "rk65c02_mmu_translate_addr H va acc perm e = (pm_lookup m va perm, e')"
    "tlb_moved e e'" "mapped H m e'"
proof -
  from assms have "pm_wf m" "translates H e m" "tlb_coherent m e" by (simp_all add: mapped_def)
  note * = tlb_lookup [OF this, of va acc perm]
  from * obtain t h k where
    "rk65c02_mmu_translate_addr H va acc perm e =
      (pm_lookup m va perm, e\<lparr>mmu_tlb := t, mmu_tlb_hits := h, mmu_tlb_misses := k\<rparr>)"
    "tlb_coherent m (e\<lparr>mmu_tlb := t, mmu_tlb_hits := h, mmu_tlb_misses := k\<rparr>)" by blast
  with assms show thesis
    by (intro that [of "e\<lparr>mmu_tlb := t, mmu_tlb_hits := h, mmu_tlb_misses := k\<rparr>"])
      (auto simp: mapped_def tlb_moved_def translates_def)
qed

lemma fault_stops:
  assumes "mapped H m e"
  shows "rk65c02_mmu_fault H va acc c e = Ret () (faulted va acc c e)"
  using assms
  by (simp add: rk65c02_mmu_fault_def emu_stop_error_def Let_def mapped_def faulted_def
      rk65c02_maybe_call_on_stop_def)

lemma mapped_faulted [simp]: "mapped H m (faulted va acc c e) = mapped H m e"
  by (simp add: mapped_def faulted_def translates_def tlb_coherent_def tlb_hit_def)

lemma fetch_fault:
  assumes "mapped H m e" "pm_lookup m va MMU_PERM_X = Inl c"
  obtains e' where "rk65c02_mem_fetch_1 H va e = Ret 0xFF (faulted va MMU_FETCH c e')"
    "tlb_moved e e'" "mapped H m e'"
proof (rule mapped_translate [OF assms(1), of va MMU_FETCH MMU_PERM_X], unfold assms(2))
  fix e'
  assume "rk65c02_mmu_translate_addr H va MMU_FETCH MMU_PERM_X e = (Inl c, e')" "tlb_moved e e'" and m: "mapped H m e'"
  moreover have "jit (faulted va MMU_FETCH c e') = None" using m by (simp add: mapped_def faulted_def)
  ultimately show thesis
    using assms(1)
    by (intro that [of e']) (simp_all add: rk65c02_mem_fetch_1_def rk65c02_mem_read_mmu_def fault_stops [OF m] mapped_def)
qed

lemma read_fault:
  assumes "mapped H m e" "pm_lookup m va MMU_PERM_R = Inl c"
  obtains e' where "rk65c02_mem_read_1 H va e = Ret 0xFF (faulted va MMU_READ c e')"
    "tlb_moved e e'" "mapped H m e'"
proof (rule mapped_translate [OF assms(1), of va MMU_READ MMU_PERM_R], unfold assms(2))
  fix e'
  assume "rk65c02_mmu_translate_addr H va MMU_READ MMU_PERM_R e = (Inl c, e')" "tlb_moved e e'" and m: "mapped H m e'"
  moreover have "jit (faulted va MMU_READ c e') = None" using m by (simp add: mapped_def faulted_def)
  ultimately show thesis
    using assms(1)
    by (intro that [of e']) (simp_all add: rk65c02_mem_read_1_def rk65c02_mem_read_mmu_def fault_stops [OF m] mapped_def)
qed

lemma write_fault:
  assumes "mapped H m e" "pm_lookup m va MMU_PERM_W = Inl c"
  obtains e' where "rk65c02_mem_write_1 H va v e = Ret () (faulted va MMU_WRITE c e')"
    "tlb_moved e e'" "mapped H m e'"
proof (rule mapped_translate [OF assms(1), of va MMU_WRITE MMU_PERM_W], unfold assms(2))
  fix e'
  assume "rk65c02_mmu_translate_addr H va MMU_WRITE MMU_PERM_W e = (Inl c, e')" "tlb_moved e e'" and m: "mapped H m e'"
  moreover have "jit (faulted va MMU_WRITE c e') = None" using m by (simp add: mapped_def faulted_def)
  ultimately show thesis
    using assms(1)
    by (intro that [of e']) (simp_all add: rk65c02_mem_write_1_def rk65c02_mem_write_mmu_def fault_stops [OF m] mapped_def)
qed

lemma fetch_mapped:
  assumes "mapped H m e" "pm_lookup m va MMU_PERM_X = Inr pa" "unat pa < RK65C02_BUS_SIZE"
    and "bus_read_1 (h_dev H) (bus e) (ucast pa) = (v, bus e)"
  obtains e' where "rk65c02_mem_fetch_1 H va e = Ret v e'" "tlb_moved e e'" "mapped H m e'"
proof (rule mapped_translate [OF assms(1), of va MMU_FETCH MMU_PERM_X], unfold assms(2))
  fix e'
  assume tr: "rk65c02_mmu_translate_addr H va MMU_FETCH MMU_PERM_X e = (Inr pa, e')" "tlb_moved e e'" "mapped H m e'"
  then have "bus e' = bus e" by (auto simp: tlb_moved_def)
  moreover from this have "e'\<lparr>bus := bus e\<rparr> = e'" by simp
  ultimately show thesis
    using tr assms by (intro that [of e']) (simp_all add: rk65c02_mem_fetch_1_def rk65c02_mem_read_mmu_def mapped_def)
qed

lemma read_mapped:
  assumes "mapped H m e" "pm_lookup m va MMU_PERM_R = Inr pa" "unat pa < RK65C02_BUS_SIZE"
    and "bus_read_1 (h_dev H) (bus e) (ucast pa) = (v, bus e)"
  obtains e' where "rk65c02_mem_read_1 H va e = Ret v e'" "tlb_moved e e'" "mapped H m e'"
proof (rule mapped_translate [OF assms(1), of va MMU_READ MMU_PERM_R], unfold assms(2))
  fix e'
  assume tr: "rk65c02_mmu_translate_addr H va MMU_READ MMU_PERM_R e = (Inr pa, e')" "tlb_moved e e'" "mapped H m e'"
  then have "bus e' = bus e" by (auto simp: tlb_moved_def)
  moreover from this have "e'\<lparr>bus := bus e\<rparr> = e'" by simp
  ultimately show thesis
    using tr assms by (intro that [of e']) (simp_all add: rk65c02_mem_read_1_def rk65c02_mem_read_mmu_def mapped_def)
qed

lemma tlb_moved_trans: "tlb_moved e e' \<Longrightarrow> tlb_moved e' e'' \<Longrightarrow> tlb_moved e e''"
  by (auto simp: tlb_moved_def) blast

lemma tlb_moved_fields:
  assumes "tlb_moved e e'"
  shows "regs e' = regs e" "bus e' = bus e" "state e' = state e" "trace e' = trace e"
  using assms by (auto simp: tlb_moved_def)

text \<open>
  C19. A failed access is reported and harmless: the read or fetch yields 0xFF, the write does
  nothing; the address, access and code of the fault are recorded, the machine stops with an
  error and falls back to the interpreter; registers, bus and devices are as before.
\<close>

theorem mmu_fault_reported:
  assumes "mapped H m e"
  shows "(\<forall>c. pm_lookup m va MMU_PERM_X = Inl c \<longrightarrow>
      (\<exists>e'. rk65c02_mem_fetch_1 H va e = Ret 0xFF (faulted va MMU_FETCH c e') \<and> tlb_moved e e')) \<and>
    (\<forall>c. pm_lookup m va MMU_PERM_R = Inl c \<longrightarrow>
      (\<exists>e'. rk65c02_mem_read_1 H va e = Ret 0xFF (faulted va MMU_READ c e') \<and> tlb_moved e e')) \<and>
    (\<forall>c. pm_lookup m va MMU_PERM_W = Inl c \<longrightarrow>
      (\<exists>e'. rk65c02_mem_write_1 H va v e = Ret () (faulted va MMU_WRITE c e') \<and> tlb_moved e e'))"
  by (intro conjI allI impI; (erule fetch_fault [OF assms] | erule read_fault [OF assms] | erule write_fault [OF assms]); blast)

text \<open>A machine whose host maps nothing.\<close>

definition void_host :: "unit host" where
  "void_host = sample_host\<lparr>h_mmu_translate := (\<lambda>_ _ va _ e.
     (\<lparr>res_ok = False, res_paddr = ucast va, res_perms = 7, res_fault_code = 0x55, res_no_fill_tlb = False\<rparr>, e))\<rparr>"

definition void_map :: page_map where
  "void_map = sample_map\<lparr>pm_ok := (\<lambda>_. False), pm_code := (\<lambda>_. 0x55)\<rparr>"

lemma void_mapped: "mapped void_host void_map (sample_mmu f pc)"
proof -
  have "pm_addr void_map va = ucast va" for va
    using sample_map_addr [of va] by (simp add: void_map_def pm_addr_def)
  then have "translates void_host (sample_mmu f pc) void_map"
    unfolding translates_def
    by (intro exI [of _ 0]) (simp add: void_host_def void_map_def sample_map_def exI [of Not False])
  moreover have "pm_wf void_map" using sample_map_wf by (simp add: pm_wf_def void_map_def)
  moreover have "on_stop (sample_mmu f pc) = None"
    by (simp add: sample_mmu_def rk65c02_mmu_set_def Let_def rk65c02_mmu_refresh_accessors_def
        rk65c02_mmu_tlb_flush_def)
  ultimately show ?thesis by (simp add: mapped_def empty_coherent)
qed

theorem mmu_fault_reported_witness:
  "\<exists>e'. rk65c02_mem_write_1 void_host 0x1234 9 (sample_mmu (\<lambda>_. 0) 0) = Ret () e' \<and>
     state e' = STOPPED \<and> stopreason e' = EMUERROR \<and> mmu_last_fault_addr e' = 0x1234 \<and>
     mmu_last_fault_code e' = 0x55 \<and> bus e' = sample_bus (\<lambda>_. 0)"
  using mmu_fault_reported [OF void_mapped [of "\<lambda>_. 0" 0], of "0x1234" 9]
  by (auto simp: pm_lookup_def tlb_moved_fields faulted_def void_map_def)

section \<open>Faulting instructions\<close>

text \<open>
  The byte the mapping makes visible at \<open>va\<close> to an access with permission \<open>perm\<close>, when it comes
  from the bus and reading it has no side effect.
\<close>

definition visible :: "'h host \<Rightarrow> page_map \<Rightarrow> 'h bus \<Rightarrow> u8 \<Rightarrow> u16 \<Rightarrow> u8 \<Rightarrow> bool" where
  "visible H m b perm va v \<longleftrightarrow>
     (\<exists>pa. pm_lookup m va perm = Inr pa \<and> unat pa < RK65C02_BUS_SIZE \<and>
        bus_read_1 (h_dev H) b (ucast pa) = (v, b))"

lemma fetch_byte:
  assumes "mapped H m e" "visible H m (bus e) MMU_PERM_X va v"
  obtains e' where "rk65c02_mem_fetch_1 H va e = Ret v e'" "tlb_moved e e'" "mapped H m e'"
  using assms(2) fetch_mapped [OF assms(1)] unfolding visible_def by metis

lemma read_byte:
  assumes "mapped H m e" "visible H m (bus e) MMU_PERM_R va v"
  obtains e' where "rk65c02_mem_read_1 H va e = Ret v e'" "tlb_moved e e'" "mapped H m e'"
  using assms(2) read_mapped [OF assms(1)] unfolding visible_def by metis

lemma fetch_operands:
  assumes "mapped H m e" "visible H m (bus e) MMU_PERM_X pc opc" "visible H m (bus e) MMU_PERM_X (pc + 1) o1"
    "mode_operands (mode (instruction_decode opc)) = 1 \<or>
     mode_operands (mode (instruction_decode opc)) = 2 \<and> visible H m (bus e) MMU_PERM_X (pc + 2) o2"
  obtains i e' where "instruction_fetch_emu H pc e = Ret i e'" "tlb_moved e e'" "mapped H m e'"
    "opcode i = opc" "op1 i = o1" "mode_operands (mode (instruction_decode opc)) = 2 \<Longrightarrow> op2 i = o2"
proof -
  from fetch_byte [OF assms(1,2)] obtain e1 where
    1: "rk65c02_mem_fetch_1 H pc e = Ret opc e1" "tlb_moved e e1" "mapped H m e1" by blast
  with fetch_byte [of H m e1 "pc + 1" o1] assms(3) obtain e2 where
    2: "rk65c02_mem_fetch_1 H (pc + 1) e1 = Ret o1 e2" "tlb_moved e1 e2" "mapped H m e2"
    by (auto simp: tlb_moved_fields)
  show thesis
  proof (cases "mode_operands (mode (instruction_decode opc)) = 1")
    case True
    with 1 2 show thesis
      by (intro that [of "(h_uninit H)\<lparr>opcode := opc, op1 := o1\<rparr>" e2])
        (auto simp: instruction_fetch_emu_def Let_def intro: tlb_moved_trans)
  next
    case False
    with fetch_byte [of H m e2 "pc + 2" o2] assms(4) 1 2 obtain e3 where
      3: "rk65c02_mem_fetch_1 H (pc + 2) e2 = Ret o2 e3" "tlb_moved e2 e3" "mapped H m e3"
      by (auto simp: tlb_moved_fields)
    from 1 2 3 False assms(4) show thesis
      by (intro that [of "(h_uninit H)\<lparr>opcode := opc, op1 := o1, op2 := o2\<rparr>" e3])
        (auto simp: instruction_fetch_emu_def Let_def intro: tlb_moved_trans)
  qed
qed

text \<open>
  The address a store writes, by the rules of the 65C02: zero-page arithmetic is modulo 256,
  a pointer's two bytes \<open>lo\<close> and \<open>hi\<close> are consecutive in the zero page.
\<close>

definition store_target :: "addressing \<Rightarrow> u8 \<Rightarrow> u8 \<Rightarrow> u8 \<Rightarrow> u8 \<Rightarrow> reg_state \<Rightarrow> u16" where
  "store_target md o1 o2 lo hi r = of_nat (case md of
       ZP \<Rightarrow> unat o1
     | ZPX \<Rightarrow> (unat o1 + unat (rX r)) mod 256
     | ZPY \<Rightarrow> (unat o1 + unat (rY r)) mod 256
     | ABSOLUTE \<Rightarrow> unat o1 + 256 * unat o2
     | ABSOLUTEX \<Rightarrow> unat o1 + 256 * unat o2 + unat (rX r)
     | ABSOLUTEY \<Rightarrow> unat o1 + 256 * unat o2 + unat (rY r)
     | IZPY \<Rightarrow> unat lo + 256 * unat hi + unat (rY r)
     | _ \<Rightarrow> unat lo + 256 * unat hi)"

text \<open>Where the pointer of an indirect mode is.\<close>

definition store_pointer :: "addressing \<Rightarrow> u8 \<Rightarrow> reg_state \<Rightarrow> u8 option" where
  "store_pointer md o1 r = (case md of
       IZP \<Rightarrow> Some o1
     | IZPY \<Rightarrow> Some o1
     | IZPX \<Rightarrow> Some (o1 + rX r)
     | _ \<Rightarrow> None)"

lemma join8_of_nat: "join8 lo hi = of_nat (unat lo + 256 * unat hi)"
  using u8_bound [of lo] u8_bound [of hi] by (simp add: join8_plus [symmetric] word_unat_eq_iff unat_word_ariths unat_of_nat
      unsigned_ucast_eq take_bit_eq_mod push_bit_eq_mult)

lemma ucast_zp: "ucast (x + y :: u8) = (of_nat ((unat x + unat y) mod 256) :: u16)"
  by (simp add: word_unat_eq_iff unsigned_ucast_eq take_bit_eq_mod unat_word_ariths unat_of_nat)

lemma pointer_bytes:
  assumes "mapped H m e" "visible H m (bus e) MMU_PERM_R (ucast p) lo" "visible H m (bus e) MMU_PERM_R (ucast (p + 1)) hi"
  obtains e1 e' where "rk65c02_mem_read_1 H (ucast p) e = Ret lo e1" "rk65c02_mem_read_1 H (ucast (p + 1)) e1 = Ret hi e'"
    "regs e1 = regs e" "tlb_moved e e'" "mapped H m e'"
proof -
  from read_byte [OF assms(1,2)] obtain e1 where
    1: "rk65c02_mem_read_1 H (ucast p) e = Ret lo e1" "tlb_moved e e1" "mapped H m e1" by blast
  with read_byte [of H m e1 "ucast (p + 1)" hi] assms(3) obtain e2 where
    2: "rk65c02_mem_read_1 H (ucast (p + 1)) e1 = Ret hi e2" "tlb_moved e1 e2" "mapped H m e2"
    by (auto simp: tlb_moved_fields)
  from 1 2 show thesis by (intro that [of e1 e2]) (auto simp: tlb_moved_fields intro: tlb_moved_trans)
qed

lemma store_address:
  assumes "mapped H m e" "mode idf \<in> {ZP, ZPX, ZPY, ABSOLUTE, ABSOLUTEX, ABSOLUTEY, IZP, IZPX, IZPY}"
    and "\<And>p. store_pointer (mode idf) (op1 i) (regs e) = Some p \<Longrightarrow>
      visible H m (bus e) MMU_PERM_R (ucast p) lo \<and> visible H m (bus e) MMU_PERM_R (ucast (p + 1)) hi"
  obtains e' where "instruction_data_address H idf i e = Ret (store_target (mode idf) (op1 i) (op2 i) lo hi (regs e)) e'"
    "tlb_moved e e'" "mapped H m e'"
proof (cases "store_pointer (mode idf) (op1 i) (regs e)")
  case None
  have "tlb_moved e e" unfolding tlb_moved_def by (rule ex3I [of _ "mmu_tlb e" "mmu_tlb_hits e" "mmu_tlb_misses e"]) simp
  moreover from None assms(2)
  have "instruction_data_address H idf i e = Ret (store_target (mode idf) (op1 i) (op2 i) lo hi (regs e)) e"
    by (auto simp: store_pointer_def instruction_data_address_def store_target_def ucast_zp join8_plus join8_of_nat)
  ultimately show thesis using that assms(1) by blast
next
  case (Some p)
  with assms(3) pointer_bytes [OF assms(1), of p lo hi] obtain e1 e' where
    e': "rk65c02_mem_read_1 H (ucast p) e = Ret lo e1" "rk65c02_mem_read_1 H (ucast (p + 1)) e1 = Ret hi e'"
      "regs e1 = regs e" "tlb_moved e e'" "mapped H m e'" by blast
  from Some assms(2) have "instruction_data_address H idf i e = Ret (store_target (mode idf) (op1 i) (op2 i) lo hi (regs e)) e'"
    using e' by (auto simp: store_pointer_def instruction_data_address_def store_target_def join8_of_nat
        read_pointer_def tlb_moved_fields)
  with e' show thesis using that by blast
qed

text \<open>The stores to memory: STA, STX, STY and STZ in all their addressing modes.\<close>

definition store_opcodes :: "u8 list" where
  "store_opcodes = [0x85, 0x95, 0x8D, 0x9D, 0x99, 0x81, 0x91, 0x92, 0x86, 0x96, 0x8E, 0x84, 0x94, 0x8C, 0x64, 0x74, 0x9C, 0x9E]"

lemma store_modes:
  assumes "opc \<in> set store_opcodes"
  shows "mode (instruction_decode opc) \<in> {ZP, ZPX, ZPY, ABSOLUTE, ABSOLUTEX, ABSOLUTEY, IZP, IZPX, IZPY}"
    "\<not> instruction_modify_pc (instruction_decode opc)"
  using assms by (auto simp: store_opcodes_def decode_simps)

lemma store_dispatch:
  assumes "opc \<in> set store_opcodes"
  shows "\<exists>v. emul_dispatch H (instruction_decode opc) i e = instruction_data_write_1 H (instruction_decode opc) i v e"
  using assms
  by (auto simp: store_opcodes_def emul_dispatch_def decode_simps emul_sta_def emul_stx_def emul_sty_def emul_stz_def)

text \<open>
  C18. A store that faults can be restarted: for STA, STX, STY and STZ in every addressing
  mode, whose bytes can be fetched, whose pointer can be read if it has one and whose target may
  not be written, the interpreter stops with an error and leaves every register including PC,
  the bus and all devices as they were, so the next run executes the same instruction again. The
  machine has no JIT, fault callback or stop callback.
\<close>

theorem store_fault_restarts:
  assumes "mapped H m e" "quiet e" and "opc \<in> set store_opcodes" and "md = mode (instruction_decode opc)"
    and "visible H m (bus e) MMU_PERM_X (rPC (regs e)) opc" "visible H m (bus e) MMU_PERM_X (rPC (regs e) + 1) o1"
    and "md \<in> {ABSOLUTE, ABSOLUTEX, ABSOLUTEY} \<Longrightarrow> visible H m (bus e) MMU_PERM_X (rPC (regs e) + 2) o2"
    and "\<And>p. store_pointer md o1 (regs e) = Some p \<Longrightarrow>
      visible H m (bus e) MMU_PERM_R (ucast p) lo \<and> visible H m (bus e) MMU_PERM_R (ucast (p + 1)) hi"
    and "pm_lookup m (store_target md o1 o2 lo hi (regs e)) MMU_PERM_W = Inl c"
  shows "\<exists>e'. rk65c02_exec H e =
      Ret () ((faulted (store_target md o1 o2 lo hi (regs e)) MMU_WRITE c e')\<lparr>mmu_fault_reexec := False\<rparr>) \<and> tlb_moved e e'"
proof -
  let ?idf = "instruction_decode opc" and ?a = "store_target md o1 o2 lo hi (regs e)"
  note md = store_modes [OF assms(3)]
  have n: "mode_operands (mode ?idf) = 1 \<or> mode_operands (mode ?idf) = 2 \<and> visible H m (bus e) MMU_PERM_X (rPC (regs e) + 2) o2"
    using md(1) assms(4,7) by (auto simp: mode_operands_def)
  obtain i e1 where 1: "instruction_fetch_emu H (rPC (regs e)) e = Ret i e1" "tlb_moved e e1" "mapped H m e1" "opcode i = opc"
      "op1 i = o1" "mode_operands (mode ?idf) = 2 \<Longrightarrow> op2 i = o2"
    by (rule fetch_operands [OF assms(1,5,6) n]) blast
  have a: "store_target md (op1 i) (op2 i) lo hi (regs e1) = ?a"
    using 1 md(1) assms(4) by (auto simp: tlb_moved_fields store_target_def mode_operands_def)
  obtain e2 where 2: "instruction_data_address H ?idf i e1 = Ret ?a e2" "tlb_moved e1 e2" "mapped H m e2"
    using store_address [OF 1(3) md(1), of i lo hi] 1 assms(4,8) a by (auto simp: tlb_moved_fields)
  obtain v where v: "emul_dispatch H ?idf i e1 = instruction_data_write_1 H ?idf i v e1" using store_dispatch [OF assms(3)] by blast
  obtain e3 where 3: "rk65c02_mem_write_1 H ?a v e2 = Ret () (faulted ?a MMU_WRITE c e3)" "tlb_moved e2 e3"
    by (rule write_fault [OF 2(3) assms(9)])
  have "emul_dispatch H ?idf i e1 = Ret () (faulted ?a MMU_WRITE c e3)"
    using md(1) 2 3 v by (auto simp: instruction_data_write_1_def)
  moreover have "\<not> trace e3" using assms(2) 1 2 3 by (simp add: quiet_def tlb_moved_fields)
  ultimately have "rk65c02_exec H e = Ret () ((faulted ?a MMU_WRITE c e3)\<lparr>mmu_fault_reexec := False\<rparr>)"
    using assms(2) 1
    by (auto simp: rk65c02_exec_def quiet_def debug_PC_is_breakpoint_def list_ex_iff Let_def exec_advance_def faulted_def)
  with 1 2 3 show ?thesis by (blast intro: tlb_moved_trans)
qed

text \<open>A machine whose page 0x12 is read-only, about to execute STA $1234.\<close>

definition ro_host :: "unit host" where
  "ro_host = sample_host\<lparr>h_mmu_translate := (\<lambda>_ _ va _ e. (\<lparr>res_ok = True, res_paddr = ucast va,
     res_perms = (if hi8 va = 0x12 then 5 else 7), res_fault_code = 0, res_no_fill_tlb = False\<rparr>, e))\<rparr>"

definition ro_map :: page_map where
  "ro_map = sample_map\<lparr>pm_perms := (\<lambda>p. if p = 0x12 then 5 else 7)\<rparr>"

lemma ro_map_addr [simp]: "pm_addr ro_map va = ucast va"
  using sample_map_addr [of va] by (simp add: ro_map_def pm_addr_def)

lemma sample_mmu_quiet: "quiet (sample_mmu f pc)" "regs (sample_mmu f pc) = regs (sample_emu f pc)"
  "on_stop (sample_mmu f pc) = None"
  by (simp_all add: sample_mmu_def rk65c02_mmu_set_def Let_def rk65c02_mmu_refresh_accessors_def
      rk65c02_mmu_tlb_flush_def quiet_def)

lemma ro_mapped: "mapped ro_host ro_map (sample_mmu f pc)"
proof -
  have "translates ro_host (sample_mmu f pc) ro_map"
    unfolding translates_def
    by (rule exI [of _ 0]) (simp, simp add: ro_host_def ro_map_def sample_map_def exI [of Not False])
  moreover have "pm_wf ro_map" using sample_map_wf by (simp add: pm_wf_def ro_map_def)
  ultimately show ?thesis by (simp add: mapped_def empty_coherent sample_mmu_quiet)
qed

lemma ucast_16_32_16 [simp]: "ucast (ucast (va :: u16) :: u32) = va"
  by (rule bit_word_eqI) (auto simp: bit_unsigned_iff)

lemma ro_visible:
  assumes "hi8 va \<noteq> 0x12" "perm = MMU_PERM_X \<or> perm = MMU_PERM_R"
  shows "visible ro_host ro_map (sample_bus f) perm va (f va)"
  unfolding visible_def
  by (rule exI [of _ "ucast va"])
    (use assms u16_bound [of va] in \<open>auto simp: pm_lookup_def\<close>, use assms in \<open>auto simp: ro_map_def sample_map_def\<close>)

theorem store_fault_restarts_witness:
  "let f = (\<lambda>a. if a = 0x0200 then 0x92 else if a = 0x0201 then 0x40 else if a = 0x0040 then 0x34 else 0x12) in
   \<exists>e'. rk65c02_exec ro_host (sample_mmu f 0x0200) = Ret () e' \<and> rPC (regs e') = 0x0200 \<and>
     mmu_last_fault_addr e' = 0x1234 \<and> stopreason e' = EMUERROR \<and> bus e' = sample_bus f"
proof -
  let ?f = "\<lambda>a :: u16. if a = 0x0200 then 0x92 else if a = 0x0201 then 0x40 else if a = 0x0040 then 0x34 else 0x12 :: u8"
  have h: "hi8 0x0200 = 2" "hi8 0x0201 = 2" "hi8 0x40 = 0" "hi8 0x41 = 0" by (simp_all add: hi8_def)
  have md: "mode (instruction_decode 0x92) = IZP" by (simp add: decode_simps)
  have t: "store_target IZP 0x40 0 0x34 0x12 r = 0x1234" for r by (simp add: store_target_def)
  have l: "pm_lookup ro_map 0x1234 MMU_PERM_W = Inl FAULT_PERM" by (simp add: pm_lookup_def) (simp add: ro_map_def sample_map_def hi8_def)
  have "\<exists>e'. rk65c02_exec ro_host (sample_mmu ?f 0x0200) = Ret () ((faulted (store_target IZP 0x40 0 0x34 0x12
      (regs (sample_mmu ?f 0x0200))) MMU_WRITE FAULT_PERM e')
      \<lparr>mmu_fault_reexec := False\<rparr>) \<and> tlb_moved (sample_mmu ?f 0x0200) e'"
    using ro_visible [of "0x0200" MMU_PERM_X ?f] ro_visible [of "0x0201" MMU_PERM_X ?f]
      ro_visible [of "0x40" MMU_PERM_R ?f] ro_visible [of "0x41" MMU_PERM_R ?f] l
    by (intro store_fault_restarts [OF ro_mapped, where opc = "0x92"])
      (simp_all add: sample_mmu_quiet h md t store_opcodes_def store_pointer_def)
  then show ?thesis by (auto simp: Let_def faulted_def tlb_moved_fields sample_mmu_quiet t)
qed

text \<open>
  What an access that may fail yields: the dummy byte 0xFF when the mapping refuses it, the visible
  byte otherwise.
\<close>

definition yields :: "'h host \<Rightarrow> page_map \<Rightarrow> 'h bus \<Rightarrow> u8 \<Rightarrow> u16 \<Rightarrow> u8 \<Rightarrow> bool" where
  "yields H m b perm va v \<longleftrightarrow> (if isl (pm_lookup m va perm) then v = 0xFF else visible H m b perm va v)"

text \<open>The fault on record, and a machine stopped by a fault.\<close>

definition last_fault :: "'h emu \<Rightarrow> u16 \<times> mmu_access" where
  "last_fault e = (mmu_last_fault_addr e, mmu_last_fault_access e)"

definition fault_stopped :: "'h emu \<Rightarrow> bool" where
  "fault_stopped e \<longleftrightarrow> state e = STOPPED \<and> stopreason e = EMUERROR \<and> mmu_fault_reexec e"

definition fault_frame :: "'h host \<Rightarrow> page_map \<Rightarrow> 'h emu \<Rightarrow> 'h emu \<Rightarrow> bool" where
  "fault_frame H m e e' \<longleftrightarrow> mapped H m e' \<and> regs e' = regs e \<and> bus e' = bus e \<and> trace e' = trace e \<and>
     (fault_stopped e \<longrightarrow> fault_stopped e')"

lemma fault_frame_moved: "tlb_moved e e' \<Longrightarrow> mapped H m e' \<Longrightarrow> fault_frame H m e e' \<and> last_fault e' = last_fault e"
  by (auto simp: fault_frame_def tlb_moved_def fault_stopped_def last_fault_def)

lemma fault_frame_faulted:
  "tlb_moved e e' \<Longrightarrow> mapped H m e' \<Longrightarrow> fault_frame H m e (faulted va acc c e') \<and>
    fault_stopped (faulted va acc c e') \<and> last_fault (faulted va acc c e') = (va, acc)"
  by (simp add: fault_frame_def tlb_moved_fields) (simp add: fault_stopped_def last_fault_def faulted_def tlb_moved_fields)

lemma fetch_yields:
  assumes "mapped H m e" "yields H m (bus e) MMU_PERM_X va v"
  obtains e' where "rk65c02_mem_fetch_1 H va e = Ret v e'" "fault_frame H m e e'"
    "last_fault e' = (if isl (pm_lookup m va MMU_PERM_X) then (va, MMU_FETCH) else last_fault e)"
    "isl (pm_lookup m va MMU_PERM_X) \<Longrightarrow> fault_stopped e'"
proof (cases "pm_lookup m va MMU_PERM_X")
  case (Inl c)
  obtain e1 where "rk65c02_mem_fetch_1 H va e = Ret 0xFF (faulted va MMU_FETCH c e1)" "tlb_moved e e1" "mapped H m e1"
    by (rule fetch_fault [OF assms(1) Inl])
  with fault_frame_faulted [of e e1 H m va MMU_FETCH c] Inl assms(2) that show thesis by (simp add: yields_def)
next
  case (Inr pa)
  with assms(2) have "visible H m (bus e) MMU_PERM_X va v" by (simp add: yields_def)
  from fetch_byte [OF assms(1) this] obtain e1 where "rk65c02_mem_fetch_1 H va e = Ret v e1" "tlb_moved e e1" "mapped H m e1" .
  with fault_frame_moved [of e e1 H m] Inr that show thesis by simp
qed

lemma read_yields:
  assumes "mapped H m e" "yields H m (bus e) MMU_PERM_R va v"
  obtains e' where "rk65c02_mem_read_1 H va e = Ret v e'" "fault_frame H m e e'"
    "last_fault e' = (if isl (pm_lookup m va MMU_PERM_R) then (va, MMU_READ) else last_fault e)"
proof (cases "pm_lookup m va MMU_PERM_R")
  case (Inl c)
  obtain e1 where "rk65c02_mem_read_1 H va e = Ret 0xFF (faulted va MMU_READ c e1)" "tlb_moved e e1" "mapped H m e1"
    by (rule read_fault [OF assms(1) Inl])
  with fault_frame_faulted [of e e1 H m va MMU_READ c] Inl assms(2) that show thesis by (simp add: yields_def)
next
  case (Inr pa)
  with assms(2) have "visible H m (bus e) MMU_PERM_R va v" by (simp add: yields_def)
  from read_byte [OF assms(1) this] obtain e1 where "rk65c02_mem_read_1 H va e = Ret v e1" "tlb_moved e e1" "mapped H m e1" .
  with fault_frame_moved [of e e1 H m] Inr that show thesis by simp
qed

lemma fault_frame_trans: "fault_frame H m e e' \<Longrightarrow> fault_frame H m e' e'' \<Longrightarrow> fault_frame H m e e''"
  by (auto simp: fault_frame_def)

text \<open>A faulting opcode fetch gives BBS7, whose operands are fetched all the same.\<close>

lemma fetch_dummy:
  assumes "mapped H m e" "isl (pm_lookup m pc MMU_PERM_X)" "yields H m (bus e) MMU_PERM_X (pc + 1) o1"
    "yields H m (bus e) MMU_PERM_X (pc + 2) o2"
  obtains e' where "instruction_fetch_emu H pc e = Ret \<lparr>opcode = 0xFF, op1 = o1, op2 = o2\<rparr> e'"
    "fault_frame H m e e'" "fault_stopped e'"
    "last_fault e' = (if isl (pm_lookup m (pc + 2) MMU_PERM_X) then (pc + 2, MMU_FETCH)
       else if isl (pm_lookup m (pc + 1) MMU_PERM_X) then (pc + 1, MMU_FETCH) else (pc, MMU_FETCH))"
proof -
  have y: "yields H m (bus e) MMU_PERM_X pc 0xFF" using assms(2) by (simp add: yields_def)
  obtain e1 where 1: "rk65c02_mem_fetch_1 H pc e = Ret 0xFF e1" "fault_frame H m e e1" "last_fault e1 = (pc, MMU_FETCH)" "fault_stopped e1"
    by (rule fetch_yields [OF assms(1) y]) (use assms(2) in simp)
  then have m1: "mapped H m e1" and y1: "yields H m (bus e1) MMU_PERM_X (pc + 1) o1"
    using assms(3) by (simp_all add: fault_frame_def)
  obtain e2 where 2: "rk65c02_mem_fetch_1 H (pc + 1) e1 = Ret o1 e2" "fault_frame H m e1 e2"
      "last_fault e2 = (if isl (pm_lookup m (pc + 1) MMU_PERM_X) then (pc + 1, MMU_FETCH) else last_fault e1)"
    by (rule fetch_yields [OF m1 y1]) blast
  with 1 have m2: "mapped H m e2" and y2: "yields H m (bus e2) MMU_PERM_X (pc + 2) o2"
    using assms(4) by (simp_all add: fault_frame_def)
  obtain e3 where 3: "rk65c02_mem_fetch_1 H (pc + 2) e2 = Ret o2 e3" "fault_frame H m e2 e3"
      "last_fault e3 = (if isl (pm_lookup m (pc + 2) MMU_PERM_X) then (pc + 2, MMU_FETCH) else last_fault e2)"
    by (rule fetch_yields [OF m2 y2]) blast
  have "fault_stopped e3" using 1 2 3 by (simp add: fault_frame_def)
  with 1 2 3 show thesis
    by (intro that [of e3]) (auto simp: instruction_fetch_emu_def Let_def decode_simps intro: fault_frame_trans)
qed

text \<open>
  C37. A fetch that faults does not leave PC at the faulting instruction: the interpreter decodes
  the dummy byte 0xFF as BBS7, fetches its operands and executes it. PC moves on by three, and
  by the branch offset as well when bit 7 of the zero-page operand is set; the machine stops with
  an error, all else is unchanged, and the fault on record is the last of the accesses
  that failed and not, in general, the fetch.
\<close>

theorem fetch_fault_moves_pc:
  assumes "mapped H m e" "quiet e" and "pc = rPC (regs e)" and "isl (pm_lookup m pc MMU_PERM_X)"
    and "yields H m (bus e) MMU_PERM_X (pc + 1) o1" "yields H m (bus e) MMU_PERM_X (pc + 2) o2"
    and "yields H m (bus e) MMU_PERM_R (ucast o1) v"
  shows "\<exists>e'. rk65c02_exec H e = Ret () e' \<and>
    regs e' = (regs e)\<lparr>rPC := if bit v 7 then pc + 3 + scast o2 else pc + 3\<rparr> \<and> bus e' = bus e \<and>
    state e' = STOPPED \<and> stopreason e' = EMUERROR \<and>
    (mmu_last_fault_addr e', mmu_last_fault_access e') =
      (if isl (pm_lookup m (ucast o1) MMU_PERM_R) then (ucast o1, MMU_READ)
       else if isl (pm_lookup m (pc + 2) MMU_PERM_X) then (pc + 2, MMU_FETCH)
       else if isl (pm_lookup m (pc + 1) MMU_PERM_X) then (pc + 1, MMU_FETCH) else (pc, MMU_FETCH))"
proof -
  let ?i = "\<lparr>opcode = 0xFF, op1 = o1, op2 = o2\<rparr>" and ?pc' = "if bit v 7 then pc + 3 + scast o2 else pc + 3"
  obtain e1 where 1: "instruction_fetch_emu H pc e = Ret ?i e1" "fault_frame H m e e1" "fault_stopped e1"
    "last_fault e1 = (if isl (pm_lookup m (pc + 2) MMU_PERM_X) then (pc + 2, MMU_FETCH)
       else if isl (pm_lookup m (pc + 1) MMU_PERM_X) then (pc + 1, MMU_FETCH) else (pc, MMU_FETCH))"
    by (rule fetch_dummy [OF assms(1,4-6)])
  then have m1: "mapped H m e1" and y1: "yields H m (bus e1) MMU_PERM_R (ucast o1) v"
    using assms(7) by (simp_all add: fault_frame_def)
  obtain e2 where 2: "rk65c02_mem_read_1 H (ucast o1) e1 = Ret v e2" "fault_frame H m e1 e2"
      "last_fault e2 = (if isl (pm_lookup m (ucast o1) MMU_PERM_R) then (ucast o1, MMU_READ) else last_fault e1)"
    by (rule read_yields [OF m1 y1]) blast
  have e2: "regs e2 = regs e" "bus e2 = bus e" "fault_stopped e2" "\<not> trace e2"
    using 1 2 assms(2) by (simp_all add: fault_frame_def quiet_def)
  have "v AND 128 \<noteq> 0 \<longleftrightarrow> bit v 7" using bit_iff_and_push_bit_not_eq_0 [of v 7] by (simp add: push_bit_eq_mult)
  moreover have "emul (instruction_decode 0xFF) = Some (EMUL_BBS 7)" "mode (instruction_decode 0xFF) = ZPR"
    "isize (instruction_decode 0xFF) = 3" by (simp_all add: decode_simps)
  ultimately have "emul_dispatch H (instruction_decode 0xFF) ?i e1 = Ret () (set_PC ?pc' e2)"
    using 2 e2 assms(3) by (simp add: emul_dispatch_def emul_bbs_def instruction_data_read_1_def
        instruction_data_address_def program_counter_increment_def set_PC_def add.assoc add.commute [of 3])
  then have "rk65c02_exec H e = Ret () ((set_PC ?pc' e2)\<lparr>mmu_fault_reexec := False\<rparr>)"
    using assms(2,3) 1 e2
    by (auto simp: rk65c02_exec_def quiet_def debug_PC_is_breakpoint_def list_ex_iff Let_def exec_advance_def
        fault_stopped_def set_PC_def)
  with 1 2 e2 show ?thesis by (simp add: fault_stopped_def set_PC_def last_fault_def)
qed

text \<open>Nothing is mapped: PC moves by two, and the fault on record is a read of address 0xFF.\<close>

theorem fetch_fault_moves_pc_witness:
  "\<exists>e'. rk65c02_exec void_host (sample_mmu (\<lambda>_. 0xEA) 0x0200) = Ret () e' \<and> rPC (regs e') = 0x0202 \<and>
     mmu_last_fault_addr e' = 0x00FF \<and> mmu_last_fault_access e' = MMU_READ"
proof -
  have l: "isl (pm_lookup void_map va perm)" for va perm by (simp add: pm_lookup_def void_map_def)
  then have y: "yields void_host void_map b perm va 0xFF" for b perm va by (simp add: yields_def)
  show ?thesis
    using fetch_fault_moves_pc [OF void_mapped sample_mmu_quiet(1) refl l y y y, of "\<lambda>_. 0xEA" "0x0200"] l
    by (auto simp: sample_mmu_quiet bit_numeral_word_iff)
qed

end
