(* ===== verification/ExampleHosts.thy ===== *)
theory ExampleHosts
  imports MmuProps
begin

text \<open>
  The callbacks and devices of the example host programs under \<open>examples/\<close>. The structures of
  an example are its host memory (\<open>hostmem\<close> of the bus), \<open>D\<close> is the code of its own devices.
\<close>

declare bit_numeral_word_iff [simp del]

abbreviation MMU_PERM_RWX :: u8 where
  "MMU_PERM_RWX \<equiv> MMU_PERM_R OR MMU_PERM_W OR MMU_PERM_X"

text \<open>A translate callback's result structure, as the examples initialise it.\<close>

definition identity_result :: "u16 \<Rightarrow> mmu_result" where
  "identity_result vaddr =
     \<lparr>res_ok = True, res_paddr = ucast vaddr, res_perms = MMU_PERM_RWX, res_fault_code = 0, res_no_fill_tlb = False\<rparr>"

text \<open>\<open>begin_update\<close>, a mark for each page of a range, \<open>end_update\<close>.\<close>

definition remap_pages :: "u8 list \<Rightarrow> 'h emu \<Rightarrow> 'h emu" where
  "remap_pages ps e = rk65c02_mmu_end_update (fold rk65c02_mmu_mark_changed_vpage ps (rk65c02_mmu_begin_update e))"

section \<open>A page table in guest memory: \<open>mmu_pae.c\<close>\<close>

abbreviation PAGE_TABLE_PHYS :: u32 where
  "PAGE_TABLE_PHYS \<equiv> 0x0400"

abbreviation (input) PRESENT_BIT :: u32 where
  "PRESENT_BIT \<equiv> 1"

definition pae_translate :: "'h devhost \<Rightarrow> u16 \<Rightarrow> mmu_access \<Rightarrow> 'h emu \<Rightarrow> mmu_result \<times> 'h emu" where
  "pae_translate D vaddr access e =
     (let vpage = hi8 vaddr;
          entry_addr = PAGE_TABLE_PHYS + ucast vpage * 4;
          (b0, b) = bus_read_1 D (bus e) (ucast entry_addr);
          (b1, b) = bus_read_1 D b (ucast (entry_addr + 1));
          (b2, b) = bus_read_1 D b (ucast (entry_addr + 2));
          (b3, b) = bus_read_1 D b (ucast (entry_addr + 3));
          entry = ucast b0 OR push_bit 8 (ucast b1) OR push_bit 16 (ucast b2) OR push_bit 24 (ucast b3) :: u32;
          e = e\<lparr>bus := b\<rparr>
      in if entry AND PRESENT_BIT = 0
         then (\<lparr>res_ok = False, res_paddr = 0, res_perms = 0, res_fault_code = 1, res_no_fill_tlb = False\<rparr>, e)
         else (\<lparr>res_ok = True, res_paddr = (entry AND 0xFFFFFF00) OR ucast (vaddr AND 0xFF),
                res_perms = MMU_PERM_RWX, res_fault_code = 0, res_no_fill_tlb = False\<rparr>, e))"

definition install_page :: "'h devhost \<Rightarrow> u8 \<Rightarrow> u32 \<Rightarrow> 'h bus \<Rightarrow> 'h bus" where
  "install_page D vpage phys_base b =
     (let addr = PAGE_TABLE_PHYS + ucast vpage * 4;
          entry = (phys_base AND 0xFFFFFF00) OR PRESENT_BIT;
          b = bus_write_1 D b (ucast addr) (ucast entry);
          b = bus_write_1 D b (ucast (addr + 1)) (ucast (drop_bit 8 entry));
          b = bus_write_1 D b (ucast (addr + 2)) (ucast (drop_bit 16 entry))
      in bus_write_1 D b (ucast (addr + 3)) (ucast (drop_bit 24 entry)))"

text \<open>The branch of \<open>main\<close> that answers a fault of a page that is not present.\<close>

definition pae_demand_page :: "'h devhost \<Rightarrow> 'h emu \<Rightarrow> 'h emu" where
  "pae_demand_page D e =
     (let vpage = hi8 (mmu_last_fault_addr e);
          e = e\<lparr>bus := install_page D vpage (push_bit 8 (ucast vpage)) (bus e)\<rparr>
      in remap_pages [vpage] e)"

section \<open>Two tasks: \<open>mmu_multitasking.c\<close>\<close>

record task_state =
  current_task :: u8
  last_yield :: u8

abbreviation TASK_ENTRY :: u16 where
  "TASK_ENTRY \<equiv> 0x1000"

abbreviation YIELD_REG :: u16 where
  "YIELD_REG \<equiv> 0xFF00"

abbreviation CURRENT_TASK_REG :: u16 where
  "CURRENT_TASK_REG \<equiv> 0xFF01"

definition task_translate :: "task_state devhost \<Rightarrow> u16 \<Rightarrow> mmu_access \<Rightarrow> task_state emu \<Rightarrow> mmu_result \<times> task_state emu" where
  "task_translate D vaddr access e =
     (let r = identity_result vaddr in
      if vaddr < 0x4000 then
        (let e = (if vaddr = TASK_ENTRY
                  then (let (v, b) = bus_read_1 D (bus e) YIELD_REG in
                        e\<lparr>bus := b\<lparr>hostmem := (hostmem b)\<lparr>current_task := v AND 1\<rparr>\<rparr>\<rparr>)
                  else e)
         in (r\<lparr>res_paddr := (if current_task (hostmem (bus e)) = 0 then ucast vaddr else ucast vaddr + 0x4000),
               res_no_fill_tlb := True\<rparr>, e))
      else (r, e))"

definition task_tick :: "task_state devhost \<Rightarrow> task_state emu \<Rightarrow> task_state emu" where
  "task_tick D e =
     (let (v, b) = bus_read_1 D (bus e) YIELD_REG; e = e\<lparr>bus := b\<rparr> in
      if v = last_yield (hostmem b) then e
      else
        (let e = e\<lparr>bus := b\<lparr>hostmem := (hostmem b)\<lparr>last_yield := v\<rparr>\<rparr>\<rparr>;
             e = remap_pages (map of_nat [0..<0x40]) e
         in e\<lparr>bus := bus_write_1 D (bus e) CURRENT_TASK_REG (v AND 1)\<rparr>))"

section \<open>Three tasks in extended memory: \<open>tinyos.c\<close>\<close>

text \<open>\<open>struct task_state\<close>, what the console device printed and whether it has its \<open>config\<close>.\<close>

record tinyos_state =
  tinyos_task :: u8
  console_config :: bool
  console_out :: "(u8 option \<times> u8) list"

definition console_read_1 :: "u16 \<Rightarrow> tinyos_state \<Rightarrow> u8 \<times> tinyos_state" where
  "console_read_1 doff s = (0, s)"

definition console_write_1 :: "u16 \<Rightarrow> u8 \<Rightarrow> tinyos_state \<Rightarrow> tinyos_state" where
  "console_write_1 doff val s =
     s\<lparr>console_out := console_out s @ [(if console_config s then Some (tinyos_task s) else None, val)]\<rparr>"

definition tinyos_devices :: "tinyos_state devhost" where
  "tinyos_devices = \<lparr>hd_read_1 = (\<lambda>_ _. console_read_1), hd_write_1 = (\<lambda>_ _. console_write_1), hd_finish = (\<lambda>_ _ s. s)\<rparr>"

definition tinyos_translate :: "tinyos_state devhost \<Rightarrow> u16 \<Rightarrow> mmu_access \<Rightarrow> tinyos_state emu \<Rightarrow> mmu_result \<times> tinyos_state emu" where
  "tinyos_translate D vaddr access e =
     (let r = identity_result vaddr in
      if vaddr < 0x8000 then
        (let e = (if vaddr = TASK_ENTRY
                  then (let (v, b) = bus_read_1 D (bus e) YIELD_REG;
                            b = b\<lparr>hostmem := (hostmem b)\<lparr>tinyos_task := v mod 3\<rparr>\<rparr>
                        in e\<lparr>bus := bus_write_1 D b CURRENT_TASK_REG (tinyos_task (hostmem b))\<rparr>)
                  else e);
             t = tinyos_task (hostmem (bus e))
         in (r\<lparr>res_paddr := (if t = 0 then 0x10000 else if t = 1 then 0x18000 else if t = 2 then 0x20000 else 0x10000) + ucast vaddr,
               res_no_fill_tlb := True\<rparr>, e))
      else (r, e))"

text \<open>The sum \<open>current_task + 1\<close> is an \<open>int\<close> in C and does not wrap.\<close>

definition on_idle_wait :: "tinyos_state devhost \<Rightarrow> tinyos_state emu \<Rightarrow> tinyos_state emu" where
  "on_idle_wait D e =
     (let next = of_nat ((unat (tinyos_task (hostmem (bus e))) + 1) mod 3);
          b = bus_write_1 D (bus e) YIELD_REG next;
          b = bus_write_1 D b CURRENT_TASK_REG next;
          e = e\<lparr>bus := b\<lparr>hostmem := (hostmem b)\<lparr>tinyos_task := next\<rparr>\<rparr>\<rparr>
      in rk65c02_assert_irq (remap_pages (map of_nat [0..<0x80]) e))"

section \<open>A bank-switched cartridge: \<open>mmu_cart.c\<close>\<close>

record cart_state =
  current_bank :: u8
  last_bank_reg :: u8
  tick_count :: u32

abbreviation CART_WINDOW_START :: u16 where
  "CART_WINDOW_START \<equiv> 0x8000"

abbreviation PHYS_BANK_REG :: u16 where
  "PHYS_BANK_REG \<equiv> 0x5E00"

definition cart_translate :: "cart_state devhost \<Rightarrow> u16 \<Rightarrow> mmu_access \<Rightarrow> cart_state emu \<Rightarrow> mmu_result \<times> cart_state emu" where
  "cart_translate D vaddr access e =
     (let r = identity_result vaddr in
      if CART_WINDOW_START \<le> vaddr \<and> vaddr \<le> 0xBFFF then
        (let (reg, b) = bus_read_1 D (bus e) PHYS_BANK_REG;
             b = (if vaddr = CART_WINDOW_START
                  then b\<lparr>hostmem := (hostmem b)\<lparr>last_bank_reg := reg, current_bank := reg AND 1\<rparr>\<rparr> else b);
             e = e\<lparr>bus := b\<rparr>
         in (r\<lparr>res_paddr := ucast (vaddr - CART_WINDOW_START) + (if current_bank (hostmem b) = 0 then 0x10000 else 0x14000),
               res_no_fill_tlb := True\<rparr>, e))
      else if 0xC000 \<le> vaddr then (r\<lparr>res_paddr := ucast (0x4000 + (vaddr AND 0x3FFF))\<rparr>, e)
      else (r, e))"

definition cart_tick :: "cart_state devhost \<Rightarrow> cart_state emu \<Rightarrow> cart_state emu" where
  "cart_tick D e =
     (let (reg, b) = bus_read_1 D (bus e) PHYS_BANK_REG; e = e\<lparr>bus := b\<rparr> in
      if reg = last_bank_reg (hostmem b) then e
      else
        (let e = e\<lparr>bus := b\<lparr>hostmem := (hostmem b)\<lparr>last_bank_reg := reg\<rparr>\<rparr>\<rparr>;
             e = remap_pages (map of_nat [0x80..<0xC0]) e;
             b = bus e;
             e = e\<lparr>bus := b\<lparr>hostmem := (hostmem b)\<lparr>tick_count := tick_count (hostmem b) + 1\<rparr>\<rparr>\<rparr>
         in if tick_count (hostmem (bus e)) > 500000 then rk65c02_request_stop e else e))"

section \<open>A memory protection unit: \<open>mmu_mpu.c\<close>\<close>

record mpu_state =
  control :: u8
  r0_start :: u16
  r0_end :: u16
  r0_perms :: u8
  viol_addr :: u16
  viol_type :: u8

abbreviation MPU_MMIO_BASE :: u16 where
  "MPU_MMIO_BASE \<equiv> 0xFE00"

abbreviation (input) REG_CONTROL :: u16 where "REG_CONTROL \<equiv> 0"

abbreviation (input) REG_R0_PERMS :: u16 where "REG_R0_PERMS \<equiv> 5"

abbreviation (input) REG_CLEAR :: u16 where "REG_CLEAR \<equiv> 13"

definition mpu_device_read_1 :: "u16 \<Rightarrow> mpu_state \<Rightarrow> u8" where
  "mpu_device_read_1 doff s =
     (if doff = REG_CONTROL then control s
      else if doff = 1 then ucast (r0_start s)
      else if doff = 2 then ucast (drop_bit 8 (r0_start s))
      else if doff = 3 then ucast (r0_end s)
      else if doff = 4 then ucast (drop_bit 8 (r0_end s))
      else if doff = REG_R0_PERMS then r0_perms s
      else if doff = 10 then ucast (viol_addr s)
      else if doff = 11 then ucast (drop_bit 8 (viol_addr s))
      else if doff = 12 then viol_type s
      else 0)"

text \<open>The registers of the unit are in the host memory of \<open>e\<close>; \<open>attached\<close> is \<open>ctx->e != NULL\<close>.\<close>

definition mpu_put :: "(mpu_state \<Rightarrow> mpu_state) \<Rightarrow> mpu_state emu \<Rightarrow> mpu_state emu" where
  "mpu_put f e = e\<lparr>bus := (bus e)\<lparr>hostmem := f (hostmem (bus e))\<rparr>\<rparr>"

definition mpu_device_write_1 :: "bool \<Rightarrow> u16 \<Rightarrow> u8 \<Rightarrow> mpu_state emu \<Rightarrow> mpu_state emu" where
  "mpu_device_write_1 attached doff val e =
     (if doff = REG_CONTROL then mpu_put (\<lambda>s. s\<lparr>control := val\<rparr>) e
      else if doff = 1 then mpu_put (\<lambda>s. s\<lparr>r0_start := (r0_start s AND 0xFF00) OR ucast val\<rparr>) e
      else if doff = 2 then mpu_put (\<lambda>s. s\<lparr>r0_start := (r0_start s AND 0x00FF) OR push_bit 8 (ucast val)\<rparr>) e
      else if doff = 3 then mpu_put (\<lambda>s. s\<lparr>r0_end := (r0_end s AND 0xFF00) OR ucast val\<rparr>) e
      else if doff = 4 then mpu_put (\<lambda>s. s\<lparr>r0_end := (r0_end s AND 0x00FF) OR push_bit 8 (ucast val)\<rparr>) e
      else if doff = REG_R0_PERMS then
        (let e = mpu_put (\<lambda>s. s\<lparr>r0_perms := val\<rparr>) e in if attached then remap_pages [0x02] e else e)
      else if doff = REG_CLEAR then
        (let e = mpu_put (\<lambda>s. s\<lparr>viol_type := 0\<rparr>) e in if attached then rk65c02_deassert_irq e else e)
      else e)"

definition mpu_translate :: "u16 \<Rightarrow> mmu_access \<Rightarrow> mpu_state emu \<Rightarrow> mmu_result \<times> mpu_state emu" where
  "mpu_translate vaddr access e =
     (let s = hostmem (bus e); r = identity_result vaddr in
      if MPU_MMIO_BASE \<le> vaddr \<and> vaddr < MPU_MMIO_BASE + 16
      then (r\<lparr>res_perms := MMU_PERM_R OR MMU_PERM_W, res_no_fill_tlb := True\<rparr>, e)
      else if control s AND 1 = 0 then (r, e)
      else if r0_start s \<le> vaddr \<and> vaddr \<le> r0_end s then
        (let perm = (if r0_perms s AND 1 \<noteq> 0 then MMU_PERM_R else 0) OR (if r0_perms s AND 2 \<noteq> 0 then MMU_PERM_W else 0)
               OR (if r0_perms s AND 4 \<noteq> 0 then MMU_PERM_X else 0);
             r = r\<lparr>res_perms := perm\<rparr>
         in if access = MMU_FETCH \<and> perm AND MMU_PERM_X = 0 then (r\<lparr>res_ok := False, res_fault_code := 3\<rparr>, e)
            else if access = MMU_READ \<and> perm AND MMU_PERM_R = 0 then (r\<lparr>res_ok := False, res_fault_code := 1\<rparr>, e)
            else if access = MMU_WRITE \<and> perm AND MMU_PERM_W = 0 then (r\<lparr>res_ok := False, res_fault_code := 2\<rparr>, e)
            else (r, e))
      else (r, e))"


text \<open>\<open>tick_cap_cb\<close>, on the counter it is registered with.\<close>

definition tick_cap_cb :: "u32 \<Rightarrow> 'h emu \<Rightarrow> u32 \<times> 'h emu" where
  "tick_cap_cb n e = (if n = 0 then (n, rk65c02_request_stop e) else (n - 1, e))"

section \<open>The console of BASIC: \<open>msbasic_host.c\<close>\<close>

text \<open>The terminal is a list of characters to come, then end of file, and the list of those printed.\<close>

record msbasic_state =
  stub_code :: "u16 \<Rightarrow> u8"
  break_requested :: bool
  stdin_chars :: "u8 list"
  stdout_chars :: "u8 list"

definition sigint_handler :: "msbasic_state \<Rightarrow> msbasic_state" where
  "sigint_handler s = s\<lparr>break_requested := True\<rparr>"

definition tick_break :: "msbasic_state emu \<Rightarrow> msbasic_state emu" where
  "tick_break e = (if break_requested (hostmem (bus e)) then rk65c02_request_stop e else e)"

definition io_read_1 :: "u16 \<Rightarrow> msbasic_state \<Rightarrow> u8 \<times> msbasic_state" where
  "io_read_1 doff s =
     (if doff = 0 then
        (case stdin_chars s of
           [] \<Rightarrow> (0x0D, s\<lparr>break_requested := True\<rparr>)
         | c # cs \<Rightarrow> (if c = 0x0A then 0x0D else c, s\<lparr>stdin_chars := cs\<rparr>))
      else if doff = 1 then (if break_requested s then 1 else 0, s)
      else (stub_code s doff, s))"

definition io_write_1 :: "u16 \<Rightarrow> u8 \<Rightarrow> msbasic_state \<Rightarrow> msbasic_state" where
  "io_write_1 doff val s =
     (if doff = 0 then s\<lparr>stdout_chars := stdout_chars s @ [val]\<rparr>
      else s\<lparr>stub_code := (stub_code s)(doff := val)\<rparr>)"

text \<open>The guest never reads a line feed, and at the end of the input the next tick stops the machine.\<close>

lemma msbasic_input:
  "fst (io_read_1 0 s) \<noteq> 0x0A"
  "stdin_chars (hostmem (bus e)) = [] \<Longrightarrow>
     stop_requested (tick_break (e\<lparr>bus := (bus e)\<lparr>hostmem := snd (io_read_1 0 (hostmem (bus e)))\<rparr>\<rparr>))"
  by (simp_all add: io_read_1_def tick_break_def rk65c02_request_stop_def split: list.split)

section \<open>Remapping pages\<close>

lemma mark_fold:
  assumes "mmu_enabled e"
  shows "mmu_changed_vpage (fold rk65c02_mmu_mark_changed_vpage ps e) = (\<lambda>p. p \<in> set ps \<or> mmu_changed_vpage e p)"
    "mmu_enabled (fold rk65c02_mmu_mark_changed_vpage ps e)"
    "mmu_update_pending e \<Longrightarrow> mmu_update_pending (fold rk65c02_mmu_mark_changed_vpage ps e)"
    "mmu_changed_all (fold rk65c02_mmu_mark_changed_vpage ps e) = mmu_changed_all e"
    "mmu_tlb (fold rk65c02_mmu_mark_changed_vpage ps e) = mmu_tlb e" "bus (fold rk65c02_mmu_mark_changed_vpage ps e) = bus e"
    "mmu_translate (fold rk65c02_mmu_mark_changed_vpage ps e) = mmu_translate e"
    "mmu_fault (fold rk65c02_mmu_mark_changed_vpage ps e) = mmu_fault e"
    "in_jit_run (fold rk65c02_mmu_mark_changed_vpage ps e) = in_jit_run e" "on_stop (fold rk65c02_mmu_mark_changed_vpage ps e) = on_stop e"
  using assms
  by (induction ps arbitrary: e)
    (auto simp: rk65c02_mmu_mark_changed_vpage_def rk65c02_mmu_refresh_accessors_def Let_def)

lemma end_fold_fields [simp]:
  "bus (fold mmu_end_update_page ps e) = bus e" "mmu_translate (fold mmu_end_update_page ps e) = mmu_translate e"
  "mmu_fault (fold mmu_end_update_page ps e) = mmu_fault e" "in_jit_run (fold mmu_end_update_page ps e) = in_jit_run e"
  "on_stop (fold mmu_end_update_page ps e) = on_stop e"
  by (induction ps arbitrary: e)
    (simp_all add: mmu_end_update_page_def Let_def rk65c02_mmu_tlb_flush_vpage_def
      rk65c02_jit_invalidate_code_vpage_def jit_invalidate_deferred_def split: option.split)

text \<open>Remapping takes the TLB entries of exactly the pages it names.\<close>

lemma remap_pages_effect:
  assumes "mmu_enabled e"
  shows "bus (remap_pages ps e) = bus e" "mmu_translate (remap_pages ps e) = mmu_translate e"
    "te_valid (mmu_tlb (remap_pages ps e) p) \<longleftrightarrow> p \<notin> set ps \<and> te_valid (mmu_tlb e p)"
    "mmu_fault (remap_pages ps e) = mmu_fault e" "in_jit_run (remap_pages ps e) = in_jit_run e" "on_stop (remap_pages ps e) = on_stop e"
proof -
  define e1 where "e1 = rk65c02_mmu_begin_update e"
  define e2 where "e2 = fold rk65c02_mmu_mark_changed_vpage ps e1"
  have e1: "mmu_enabled e1" "mmu_update_pending e1" "\<not> mmu_changed_all e1" "mmu_changed_vpage e1 = (\<lambda>_. False)"
    "mmu_tlb e1 = mmu_tlb e" "bus e1 = bus e" "mmu_translate e1 = mmu_translate e"
    "mmu_fault e1 = mmu_fault e" "in_jit_run e1 = in_jit_run e" "on_stop e1 = on_stop e"
    using assms by (simp_all add: e1_def rk65c02_mmu_begin_update_def)
  note e2 = mark_fold [OF e1(1), of ps, folded e2_def, unfolded e1]
  have r: "remap_pages ps e = rk65c02_mmu_refresh_accessors ((fold mmu_end_update_page [0..<256] (e2\<lparr>mmu_update_pending := False\<rparr>))
      \<lparr>mmu_changed_all := False, mmu_changed_vpage := (\<lambda>_. False)\<rparr>)"
    using e1 e2 by (simp add: remap_pages_def e1_def [symmetric] e2_def [symmetric] rk65c02_mmu_end_update_def Let_def)
  show "bus (remap_pages ps e) = bus e" "mmu_translate (remap_pages ps e) = mmu_translate e"
    "mmu_fault (remap_pages ps e) = mmu_fault e" "in_jit_run (remap_pages ps e) = in_jit_run e" "on_stop (remap_pages ps e) = on_stop e"
    using e2 by (simp_all add: r rk65c02_mmu_refresh_accessors_def)
  show "te_valid (mmu_tlb (remap_pages ps e) p) \<longleftrightarrow> p \<notin> set ps \<and> te_valid (mmu_tlb e p)"
    using e2 by (simp add: r rk65c02_mmu_refresh_accessors_def end_update_fold_tlb u8_indices)
qed

section \<open>Demand paging\<close>

text \<open>The page table is in RAM.\<close>

definition table_ram :: "'h bus \<Rightarrow> bool" where
  "table_ram b \<longleftrightarrow> (\<forall>a. 0x400 \<le> a \<and> a < 0x800 \<longrightarrow> bus_cell b a \<noteq> None) \<and> inj_on (bus_cell b) {a. 0x400 \<le> a \<and> a < 0x800}"

lemma table_access:
  assumes "table_ram b" "0x400 \<le> a" "a < 0x800"
  shows "bus_read_1 D b a = (fst (bus_read_1 D b a), b)" "table_ram (bus_write_1 D b a v)"
    "0x400 \<le> a' \<Longrightarrow> a' < 0x800 \<Longrightarrow> fst (bus_read_1 D (bus_write_1 D b a v) a') = (if a' = a then v else fst (bus_read_1 D b a'))"
proof -
  obtain c where c: "bus_cell b a = Some c" using assms by (auto simp: table_ram_def)
  show "bus_read_1 D b a = (fst (bus_read_1 D b a), b)" by (simp add: bus_read_cell [OF c])
  show "table_ram (bus_write_1 D b a v)" using assms(1) by (simp add: bus_write_cell [OF c] table_ram_def)
  assume a': "0x400 \<le> a'" "a' < 0x800"
  then obtain c' where c': "bus_cell b a' = Some c'" using assms by (auto simp: table_ram_def)
  have "c' = c \<longleftrightarrow> a' = a"
    using inj_onD [of "bus_cell b" "{a. 0x400 \<le> a \<and> a < 0x800}" a' a] assms a' c c' by (auto simp: table_ram_def)
  then show "fst (bus_read_1 D (bus_write_1 D b a v) a') = (if a' = a then v else fst (bus_read_1 D b a'))"
    using bus_ram.rd_wr [OF c c'] by simp
qed

definition slot :: "u8 \<Rightarrow> nat \<Rightarrow> u16" where
  "slot p k = ucast (PAGE_TABLE_PHYS + ucast p * 4 + of_nat k)"

lemma slot_unat: "k < 4 \<Longrightarrow> unat (slot p k) = 1024 + 4 * unat p + k"
  using u8_bound [of p] by (simp add: slot_def unsigned_ucast_eq take_bit_eq_mod unat_word_ariths unat_of_nat)

lemma slot_range: "k < 4 \<Longrightarrow> 0x400 \<le> slot p k" "k < 4 \<Longrightarrow> slot p k < 0x800"
  using u8_bound [of p] by (simp_all add: word_le_nat_alt word_less_nat_alt slot_unat)

lemma slot_inj: "k < 4 \<Longrightarrow> k' < 4 \<Longrightarrow> slot p k = slot p' k' \<longleftrightarrow> p = p' \<and> k = k'"
proof
  assume k: "k < 4" "k' < 4" and "slot p k = slot p' k'"
  then have "4 * unat p + k = 4 * unat p' + k'" using slot_unat [of k p] slot_unat [of k' p'] by simp
  with k have "unat p = unat p'" "k = k'" by arith+
  then show "p = p' \<and> k = k'" by (simp add: unsigned_word_eqI)
qed simp

lemma slot_simps:
  "slot p 0 = ucast (PAGE_TABLE_PHYS + ucast p * 4)" "slot p 1 = ucast (PAGE_TABLE_PHYS + ucast p * 4 + 1)"
  "slot p 2 = ucast (PAGE_TABLE_PHYS + ucast p * 4 + 2)" "slot p 3 = ucast (PAGE_TABLE_PHYS + ucast p * 4 + 3)"
  by (simp_all add: slot_def)

lemma bytes_of_u32:
  "ucast (ucast x :: u8) OR push_bit 8 (ucast (ucast (drop_bit 8 x) :: u8)) OR push_bit 16 (ucast (ucast (drop_bit 16 x) :: u8)) OR
     push_bit 24 (ucast (ucast (drop_bit 24 x) :: u8)) = (x :: u32)"
proof (rule bit_eqI)
  fix n :: nat
  consider "n < 8" | "8 \<le> n" "n < 16" | "16 \<le> n" "n < 24" | "24 \<le> n" by linarith
  then show "bit (ucast (ucast x :: u8) OR push_bit 8 (ucast (ucast (drop_bit 8 x) :: u8)) OR
      push_bit 16 (ucast (ucast (drop_bit 16 x) :: u8)) OR push_bit 24 (ucast (ucast (drop_bit 24 x) :: u8)) :: u32) n = bit x n"
    by cases (auto simp: bit_simps dest: bit_imp_le_length)
qed

lemma present_entry: "((x AND 0xFFFFFF00) OR 1 :: u32) AND 1 = 1" "((x AND 0xFFFFFF00) OR 1 :: u32) AND 0xFFFFFF00 = x AND 0xFFFFFF00"
  by (rule bit_eqI, auto simp: bit_simps bit_page_u32)+

lemma page_identity: "hi8 va = p \<Longrightarrow> (push_bit 8 (ucast p) AND 0xFFFFFF00 :: u32) OR ucast (va AND 0xFF) = ucast va"
proof (rule bit_eqI)
  fix n
  assume "hi8 va = p"
  then show "bit ((push_bit 8 (ucast p) AND 0xFFFFFF00 :: u32) OR ucast (va AND 0xFF)) n = bit (ucast va :: u32) n"
    using bit_imp_le_length [of va n] by (cases "n < 8") (auto simp: bit_simps bit_page_u32 hi8_def bit_mask8_u16)
qed

text \<open>The four bytes of an entry, and the answer for it.\<close>

definition table_entry :: "'h devhost \<Rightarrow> 'h bus \<Rightarrow> u8 \<Rightarrow> u32" where
  "table_entry D b p = (let rd = \<lambda>k. ucast (fst (bus_read_1 D b (slot p k))) in
     rd 0 OR push_bit 8 (rd 1) OR push_bit 16 (rd 2) OR push_bit 24 (rd 3))"

lemma pae_translate_table:
  assumes "table_ram (bus e)"
  shows "pae_translate D va acc e =
    (if table_entry D (bus e) (hi8 va) AND 1 = 0
     then (\<lparr>res_ok = False, res_paddr = 0, res_perms = 0, res_fault_code = 1, res_no_fill_tlb = False\<rparr>, e)
     else (\<lparr>res_ok = True, res_paddr = (table_entry D (bus e) (hi8 va) AND 0xFFFFFF00) OR ucast (va AND 0xFF),
            res_perms = MMU_PERM_RWX, res_fault_code = 0, res_no_fill_tlb = False\<rparr>, e))"
proof -
  have r: "bus_read_1 D (bus e) (slot p k) = (fst (bus_read_1 D (bus e) (slot p k)), bus e)" if "k < 4" for p k
    by (rule table_access(1) [OF assms]) (simp_all add: slot_range that)
  show ?thesis
    unfolding pae_translate_def table_entry_def Let_def slot_simps [symmetric]
    by (subst r, simp, simp only: prod.case, subst r, simp, simp only: prod.case, subst r, simp, simp only: prod.case,
        subst r, simp) simp
qed

lemma install_page_table:
  assumes b: "table_ram b"
  shows "table_ram (install_page D p base b)"
    "table_entry D (install_page D p base b) q = (if q = p then (base AND 0xFFFFFF00) OR 1 else table_entry D b q)"
proof -
  let ?x = "(base AND 0xFFFFFF00) OR 1"
  let ?w = "\<lambda>b k v. bus_write_1 D b (slot p k) v"
  define b1 where "b1 = ?w b 0 (ucast ?x)"
  define b2 where "b2 = ?w b1 1 (ucast (drop_bit 8 ?x))"
  define b3 where "b3 = ?w b2 2 (ucast (drop_bit 16 ?x))"
  define b4 where "b4 = ?w b3 3 (ucast (drop_bit 24 ?x))"
  have w: "table_ram (?w c k v)"
    "m < 4 \<Longrightarrow> fst (bus_read_1 D (?w c k v) (slot q m)) = (if q = p \<and> m = k then v else fst (bus_read_1 D c (slot q m)))"
    if "table_ram c" "k < 4" for c k v q m
    using table_access(2) [OF that(1) slot_range [OF that(2), of p], of D v]
      table_access(3) [OF that(1) slot_range [OF that(2), of p], of "slot q m" D v] that(2)
    by (auto simp: slot_range slot_inj)
  have ram: "table_ram b1" "table_ram b2" "table_ram b3" "table_ram b4"
    using b by (simp_all add: b1_def b2_def b3_def b4_def w(1))
  have i: "install_page D p base b = b4"
    by (simp only: install_page_def Let_def b1_def b2_def b3_def b4_def slot_simps)
  show "table_ram (install_page D p base b)" using ram by (simp add: i)
  have "fst (bus_read_1 D b4 (slot q k)) = (if q = p then ucast (drop_bit (8 * k) ?x) else fst (bus_read_1 D b (slot q k)))" if "k < 4" for k
  proof -
    have "k = 0 \<or> k = 1 \<or> k = 2 \<or> k = 3" using that by arith
    then show ?thesis using b ram that unfolding b4_def b3_def b2_def b1_def by (auto simp: w)
  qed
  then show "table_entry D (install_page D p base b) q = (if q = p then ?x else table_entry D b q)"
    using bytes_of_u32 [of ?x] by (simp add: i table_entry_def Let_def)
qed

text \<open>
  C39. Demand paging works: when the host answers a fault by entering the page in the table and
  remapping it, every access to that page then translates, to the page itself, and the answers
  for all other pages are the ones the table gave before.
\<close>

theorem pae_demand_page_resolves:
  assumes "table_ram (bus e)" "mmu_enabled e" "mmu_translate e = Some f"
    and "\<And>ctx va acc s. h_mmu_translate H f ctx va acc s = pae_translate (h_dev H) va acc s"
  shows "let e' = pae_demand_page (h_dev H) e in
    if hi8 va = hi8 (mmu_last_fault_addr e)
    then fst (rk65c02_mmu_translate_addr H va acc (access_perm acc) e') = Inr (ucast va)
    else fst (pae_translate (h_dev H) va acc e') = fst (pae_translate (h_dev H) va acc e)"
proof -
  let ?D = "h_dev H" and ?p = "hi8 (mmu_last_fault_addr e)"
  let ?b = "install_page ?D ?p (push_bit 8 (ucast ?p)) (bus e)"
  define e' where "e' = pae_demand_page ?D e"
  have e': "bus e' = ?b" "mmu_translate e' = Some f" "\<not> te_valid (mmu_tlb e' ?p)"
    using remap_pages_effect [of "e\<lparr>bus := ?b\<rparr>" "[?p]"] assms(2,3) by (simp_all add: e'_def pae_demand_page_def Let_def)
  have ram: "table_ram (bus e')" using install_page_table(1) [OF assms(1)] by (simp add: e')
  have pae: "pae_translate ?D va acc s = (\<lparr>res_ok = True, res_paddr = ucast va, res_perms = MMU_PERM_RWX,
      res_fault_code = 0, res_no_fill_tlb = False\<rparr>, s)" if "hi8 va = ?p" "bus s = ?b" for s :: "'a emu"
    using ram that page_identity [OF that(1)] install_page_table(2) [OF assms(1), of ?D ?p _ ?p]
    by (simp add: pae_translate_table e' present_entry)
  have perm: "MMU_PERM_RWX AND access_perm acc = access_perm acc" by (cases acc) (simp_all add: access_perm_def)
  have range: "unat (ucast va :: u32) < RK65C02_PHYS_MAX" using u16_bound [of va] by simp
  show ?thesis
  proof (cases "hi8 va = ?p")
    case True
    have "\<not> tlb_hit e' (hi8 va)" using e'(3) True by (simp add: tlb_hit_def)
    then show ?thesis using True e' assms(4) perm range
      by (simp add: e'_def [symmetric] rk65c02_mmu_translate_addr_def Let_def pae)
  next
    case False
    then show ?thesis
      using ram assms(1) install_page_table(2) [OF assms(1), of ?D ?p _ "hi8 va"]
      by (simp add: e'_def [symmetric] pae_translate_table e')
  qed
qed

definition pae_host :: "unit host" where
  "pae_host = sample_host\<lparr>h_mmu_translate := (\<lambda>_ _ va acc s. pae_translate no_devices va acc s)\<rparr>"

lemma full_table: "full_ram b \<Longrightarrow> table_ram b"
  by (auto simp: full_ram_def table_ram_def intro: inj_on_subset)

theorem pae_demand_page_resolves_witness:
  "let e = sample_mmu (\<lambda>_. 0) 0xC000\<lparr>mmu_last_fault_addr := 0x0111\<rparr> in
   \<not> res_ok (fst (pae_translate (h_dev pae_host) 0x0111 MMU_READ e)) \<and>
   fst (rk65c02_mmu_translate_addr pae_host 0x0111 MMU_READ (access_perm MMU_READ) (pae_demand_page (h_dev pae_host) e)) = Inr 0x0111"
proof -
  let ?e = "sample_mmu (\<lambda>_. 0) 0xC000\<lparr>mmu_last_fault_addr := 0x0111\<rparr>"
  have dev: "h_dev pae_host = no_devices" by (simp add: pae_host_def sample_host_def)
  have bus: "bus ?e = sample_bus (\<lambda>_. 0)" by simp
  then have ram: "table_ram (bus ?e)" by (simp add: full_table sample_full_ram)
  have on: "mmu_enabled ?e" "\<exists>f. mmu_translate ?e = Some f"
    by simp_all
  then obtain f where f: "mmu_translate ?e = Some f" by blast
  have "h_mmu_translate pae_host f ctx va acc s = pae_translate (h_dev pae_host) va acc s" for ctx va acc s
    by (simp add: pae_host_def sample_host_def)
  from pae_demand_page_resolves [OF ram on(1) f this, of "0x0111" MMU_READ]
  have "fst (rk65c02_mmu_translate_addr pae_host 0x0111 MMU_READ (access_perm MMU_READ) (pae_demand_page (h_dev pae_host) ?e)) = Inr 0x0111"
    by (simp add: Let_def)
  moreover have "\<not> res_ok (fst (pae_translate (h_dev pae_host) 0x0111 MMU_READ ?e))"
    using ram bus by (simp add: pae_translate_table table_entry_def Let_def)
  ultimately show ?thesis by (simp add: Let_def)
qed

section \<open>Tasks are kept apart\<close>

text \<open>The task number stays below 3, whatever the guest stores in the yield register.\<close>

lemma console_keeps_task [simp]:
  "tinyos_task (hostmem (bus_write_1 tinyos_devices b a v)) = tinyos_task (hostmem b)"
  by (auto simp: bus_write_1_def device_write_1_def tinyos_devices_def console_write_1_def split: option.split devops.split)

lemma tinyos_task_bound:
  assumes "tinyos_task (hostmem (bus e)) < 3"
  shows "tinyos_task (hostmem (bus (snd (tinyos_translate tinyos_devices va acc e)))) < 3"
    "mmu_enabled e \<Longrightarrow> tinyos_task (hostmem (bus (on_idle_wait tinyos_devices e))) < 3"
proof -
  have "v mod 3 < 3" for v :: u8 by (simp add: word_mod_less_divisor)
  then show "tinyos_task (hostmem (bus (snd (tinyos_translate tinyos_devices va acc e)))) < 3"
    using assms by (simp add: tinyos_translate_def Let_def case_prod_beta)
  have "(of_nat (n mod 3) :: u8) < 3" for n
    by (simp add: word_less_nat_alt unat_of_nat)
  then show "mmu_enabled e \<Longrightarrow> tinyos_task (hostmem (bus (on_idle_wait tinyos_devices e))) < 3"
    by (simp add: on_idle_wait_def Let_def rk65c02_assert_irq_def remap_pages_effect)
qed

text \<open>
  Away from the entry point, the private addresses of two tasks never reach the same byte, nor
  one that the tasks share.
\<close>

lemma tinyos_paddr:
  assumes "va < 0x8000" "va \<noteq> TASK_ENTRY" "tinyos_task (hostmem (bus e)) < 3"
  shows "unat (res_paddr (fst (tinyos_translate D va acc e))) = 0x10000 + 0x8000 * unat (tinyos_task (hostmem (bus e))) + unat va"
proof -
  let ?t = "tinyos_task (hostmem (bus e))"
  have "unat ?t < 3" using assms(3) by (simp add: word_less_nat_alt)
  then have "unat ?t = unat (0 :: u8) \<or> unat ?t = unat (1 :: u8) \<or> unat ?t = unat (2 :: u8)" by auto
  then have "?t = 0 \<or> ?t = 1 \<or> ?t = 2" by (metis unsigned_word_eqI)
  moreover have "unat va < 0x8000" using assms(1) by (simp add: word_less_nat_alt)
  ultimately show ?thesis
    using assms(1,2) by (elim disjE) (simp_all add: tinyos_translate_def Let_def identity_result_def unat_word_ariths)
qed

lemma tinyos_isolated:
  assumes "va < 0x8000" "va \<noteq> TASK_ENTRY" "va' < 0x8000" "va' \<noteq> TASK_ENTRY"
    and "tinyos_task (hostmem (bus e)) < 3" "tinyos_task (hostmem (bus e')) < 3"
    and "tinyos_task (hostmem (bus e)) \<noteq> tinyos_task (hostmem (bus e'))"
  shows "res_paddr (fst (tinyos_translate D va acc e)) \<noteq> res_paddr (fst (tinyos_translate D va' acc' e'))"
    "0x10000 \<le> res_paddr (fst (tinyos_translate D va acc e))"
proof -
  note p = tinyos_paddr [OF assms(1,2,5), of D acc] tinyos_paddr [OF assms(3,4,6), of D acc']
  have u: "unat va < 0x8000" "unat va' < 0x8000" using assms(1,3) by (simp_all add: word_less_nat_alt)
  have "unat (tinyos_task (hostmem (bus e))) \<noteq> unat (tinyos_task (hostmem (bus e')))" using assms(7) by (metis unsigned_word_eqI)
  with p u show "res_paddr (fst (tinyos_translate D va acc e)) \<noteq> res_paddr (fst (tinyos_translate D va' acc' e'))" by auto
  show "0x10000 \<le> res_paddr (fst (tinyos_translate D va acc e))" by (simp add: word_le_nat_alt p)
qed

section \<open>The cartridge\<close>

text \<open>
  The cartridge's banks are reached through the window only, and every other address stays in
  the first 32K.
\<close>

lemma cart_window:
  "res_paddr (fst (cart_translate D va acc e)) \<ge> 0x10000 \<longleftrightarrow> CART_WINDOW_START \<le> va \<and> va \<le> 0xBFFF"
proof (cases "CART_WINDOW_START \<le> va \<and> va \<le> 0xBFFF")
  case True
  then have "unat (va - CART_WINDOW_START) < 0x4000" by (auto simp: word_le_nat_alt unat_sub_if_size word_size)
  with True show ?thesis
    by (simp add: cart_translate_def Let_def case_prod_beta word_le_nat_alt unat_word_ariths)
next
  case False
  with u16_bound [of va] u16_bound [of "0x4000 + (va AND 0x3FFF)"] show ?thesis
    by (auto simp: cart_translate_def Let_def identity_result_def word_le_nat_alt)
qed

text \<open>Any access to the entry point selects the bank, a data read as well as a fetch.\<close>

lemma cart_read_switches:
  "bus_read_1 D (bus e) PHYS_BANK_REG = (1, bus e) \<Longrightarrow>
     current_bank (hostmem (bus (snd (cart_translate D CART_WINDOW_START MMU_READ e)))) = 1"
  by (simp add: cart_translate_def Let_def)

section \<open>The protection unit\<close>

text \<open>The region and its permissions, as the guest has set them.\<close>

definition mpu_guards :: "mpu_state \<Rightarrow> u16 \<Rightarrow> bool" where
  "mpu_guards s va \<longleftrightarrow> control s AND 1 \<noteq> 0 \<and> r0_start s \<le> va \<and> va \<le> r0_end s \<and> r0_perms s AND 2 = 0 \<and>
     \<not> (MPU_MMIO_BASE \<le> va \<and> va < MPU_MMIO_BASE + 16)"

lemma mpu_refuses:
  assumes "mpu_guards (hostmem (bus e)) va"
  shows "\<exists>r. mpu_translate va MMU_WRITE e = (r, e) \<and> \<not> res_ok r \<and> res_fault_code r = 2"
proof -
  let ?s = "hostmem (bus e)"
  have "((if r0_perms ?s AND 1 \<noteq> 0 then MMU_PERM_R else 0) OR (if r0_perms ?s AND 4 \<noteq> 0 then MMU_PERM_X else 0)) AND MMU_PERM_W = 0"
    by (simp add: bit_numeral_word_iff)
  with assms show ?thesis by (auto simp: mpu_guards_def mpu_translate_def Let_def)
qed

















text \<open>
  Switching the unit on does not drop the TLB entries of the region, so a page that was stored to
  before stays writable although the unit's own table refuses the store.
\<close>

lemma mpu_enable_keeps_tlb:
  assumes "tlb_hit e (hi8 va)" "te_perms (mmu_tlb e (hi8 va)) AND MMU_PERM_W = MMU_PERM_W"
    and "mpu_guards ((hostmem (bus e))\<lparr>control := 1\<rparr>) va"
  shows "let e' = mpu_device_write_1 True REG_CONTROL 1 e in
    \<not> res_ok (fst (mpu_translate va MMU_WRITE e')) \<and>
    (\<exists>pa. fst (rk65c02_mmu_translate_addr H va MMU_WRITE MMU_PERM_W e') = Inr pa)"
proof -
  let ?e = "mpu_device_write_1 True REG_CONTROL 1 e"
  have e: "hostmem (bus ?e) = (hostmem (bus e))\<lparr>control := 1\<rparr>" "mmu_tlb ?e = mmu_tlb e" "tlb_hit ?e = tlb_hit e"
    by (simp_all add: mpu_device_write_1_def mpu_put_def tlb_hit_def fun_eq_iff)
  have "\<not> res_ok (fst (mpu_translate va MMU_WRITE ?e))" using mpu_refuses [of ?e va] assms(3) by (auto simp: e)
  with assms(1,2) show ?thesis by (simp add: rk65c02_mmu_translate_addr_def Let_def e)
qed

end
