(* ===== verification/NativeOps.thy ===== *)
theory NativeOps
  imports NativeFrame Cpu
begin

text \<open>
  Native code against the interpreter, one instruction at a time: the code emitted for an
  instruction leaves the emulator in the state in which the handler of \<open>emulation.c\<close> and the
  update of the program counter leave it. This theory has the run of the shared pieces of code
  and the instructions on registers, with a memory operand, and the stores.
\<close>

declare bit_numeral_word_iff [simp del]

section \<open>Words\<close>

text \<open>
  Native code computes on 64-bit words that stand for bytes and addresses. Narrowing a word
  commutes with the operations it uses, so the narrow result is the byte computation.
\<close>

lemma narrow_add: "LENGTH('b) \<le> LENGTH('a) \<Longrightarrow> (ucast (x + y :: 'a::len word) :: 'b::len word) = ucast x + ucast y"
  apply transfer
  apply (simp add: take_bit_eq_mod)
  apply (metis le_imp_power_dvd mod_add_eq mod_mod_cancel)
  done

lemma narrow_sub: "LENGTH('b) \<le> LENGTH('a) \<Longrightarrow> (ucast (x - y :: 'a::len word) :: 'b::len word) = ucast x - ucast y"
  apply transfer
  apply (simp add: take_bit_eq_mod)
  apply (metis le_imp_power_dvd mod_diff_eq mod_mod_cancel)
  done

lemma narrow_bits:
  assumes "LENGTH('b) \<le> LENGTH('a)"
  shows "(ucast (x AND y :: 'a::len word) :: 'b::len word) = ucast x AND ucast y"
    "(ucast (x OR y :: 'a::len word) :: 'b::len word) = ucast x OR ucast y"
    "(ucast (x XOR y :: 'a::len word) :: 'b::len word) = ucast x XOR ucast y"
    "(ucast (NOT x :: 'a::len word) :: 'b::len word) = NOT (ucast x)"
  using assms by (auto intro!: bit_word_eqI simp: bit_unsigned_iff bit_and_iff bit_or_iff bit_xor_iff bit_not_iff)

lemma narrow_widen:
  assumes "LENGTH('b) \<le> LENGTH('c)" "LENGTH('a) \<le> LENGTH('c)"
  shows "(ucast (ucast (v :: 'a::len word) :: 'c::len word) :: 'b::len word) = ucast v"
  by (rule bit_word_eqI) (use assms bit_imp_le_length [of v] in \<open>fastforce simp: bit_unsigned_iff\<close>)

lemma low_byte [simp]: "(x :: u64) AND 0xFF = ucast (ucast x :: u8)"
proof -
  have "x AND mask 8 = ucast (ucast x :: u8)"
    by (rule bit_word_eqI) (auto simp: bit_unsigned_iff bit_and_iff bit_mask_iff)
  then show ?thesis by (simp add: mask_eq_exp_minus_1)
qed

lemma low_half [simp]: "(x :: u64) AND 0xFFFF = ucast (ucast x :: u16)"
proof -
  have "x AND mask 16 = ucast (ucast x :: u16)"
    by (rule bit_word_eqI) (auto simp: bit_unsigned_iff bit_and_iff bit_mask_iff)
  then show ?thesis by (simp add: mask_eq_exp_minus_1)
qed

lemma ret_low [simp]: "ucast (ret_u8 H v e) = v"
proof -
  have "(NOT 0xFF :: u64) = NOT (mask 8)" by (simp add: mask_eq_exp_minus_1)
  then have "ret_u8 H v e = (h_scratch H 3 e AND NOT (mask 8)) OR ucast v" by (simp only: ret_u8_def)
  then show ?thesis
    by (simp only:) (rule bit_word_eqI, auto simp: bit_unsigned_iff bit_or_iff bit_and_iff bit_not_iff bit_mask_iff)
qed

lemma widen_eq: "LENGTH('a) \<le> LENGTH('c) \<Longrightarrow> (ucast (v :: 'a::len word) :: 'c::len word) = 0 \<longleftrightarrow> v = 0"
  by (metis narrow_widen order_refl ucast_id ucast_0)

lemma widen_bit:
  fixes v :: u8
  shows "(ucast v :: u64) AND 0x01 = 0 \<longleftrightarrow> \<not> bit v 0"
    "(ucast v :: u64) AND 0x40 = 0 \<longleftrightarrow> \<not> bit v 6" "(ucast v :: u64) AND 0x80 = 0 \<longleftrightarrow> \<not> bit v 7"
  using and_exp_eq_0_iff_not_bit [of "ucast v :: u64" 0] and_exp_eq_0_iff_not_bit [of "ucast v :: u64" 6]
    and_exp_eq_0_iff_not_bit [of "ucast v :: u64" 7]
  by (simp_all add: bit_unsigned_iff del: and_exp_eq_0_iff_not_bit)

lemma narrow_8 [simp]:
  fixes x y :: u64
  shows "(ucast (x + y) :: u8) = ucast x + ucast y" "(ucast (x - y) :: u8) = ucast x - ucast y"
    "(ucast (x AND y) :: u8) = ucast x AND ucast y" "(ucast (x OR y) :: u8) = ucast x OR ucast y"
    "(ucast (x XOR y) :: u8) = ucast x XOR ucast y" "(ucast (NOT x) :: u8) = NOT (ucast x)"
    "(ucast (ucast (v :: u8) :: u64) :: u8) = v" "(ucast (ucast (w :: u16) :: u64) :: u8) = ucast w"
  by (simp_all add: narrow_add narrow_sub narrow_bits narrow_widen)

lemma narrow_16 [simp]:
  fixes x y :: u64
  shows "(ucast (x + y) :: u16) = ucast x + ucast y" "(ucast (x - y) :: u16) = ucast x - ucast y"
    "(ucast (x OR y) :: u16) = ucast x OR ucast y"
    "(ucast (ucast (v :: u8) :: u64) :: u16) = ucast v" "(ucast (ucast (w :: u16) :: u64) :: u16) = w"
  by (simp_all add: narrow_add narrow_sub narrow_bits narrow_widen)

text \<open>Masks at 64 bits that stand for masks at 8.\<close>

lemma widen_and:
  assumes "ucast w = q"
  shows "(ucast (p :: u8) :: u64) AND w = ucast (p AND q)"
  unfolding assms [symmetric]
  by (rule bit_word_eqI) (auto simp: bit_unsigned_iff bit_and_iff dest: bit_imp_le_length)

lemma widen_mask [simp]:
  fixes p :: u8
  shows "(ucast p :: u64) AND - 131 = ucast (p AND 0x7D)" "(ucast p :: u64) AND - 2 = ucast (p AND - 2)"
    "(ucast p :: u64) AND - 5 = ucast (p AND - 5)" "(ucast p :: u64) AND - 9 = ucast (p AND - 9)"
    "(ucast p :: u64) AND - 65 = ucast (p AND - 65)" "(ucast p :: u64) AND - 132 = ucast (p AND 0x7C)"
    "(ucast p :: u64) AND - 66 = ucast (p AND 0xBE)" "(ucast p :: u64) AND 0x08 = ucast (p AND P_DECIMAL)"
  by (rule widen_and, simp)+

lemma widen_or: "(ucast (p :: u8) :: u64) OR ucast (q :: u8) = ucast (p OR q)"
  by (simp add: unsigned_or_eq)

lemma widen_flag [simp]:
  fixes p :: u8
  shows "(ucast p :: u64) OR 0x01 = ucast (p OR P_CARRY)" "(ucast p :: u64) OR 0x02 = ucast (p OR P_ZERO)"
    "(ucast p :: u64) OR 0x04 = ucast (p OR P_IRQ_DISABLE)" "(ucast p :: u64) OR 0x08 = ucast (p OR P_DECIMAL)"
    "(ucast p :: u64) OR 0x40 = ucast (p OR P_SIGN_OVERFLOW)" "(ucast p :: u64) OR 0x80 = ucast (p OR P_NEGATIVE)"
  using widen_or [of p "0x01"] widen_or [of p "0x02"] widen_or [of p "0x04"] widen_or [of p "0x08"] widen_or [of p "0x40"]
    widen_or [of p "0x80"] by simp_all

lemma widen_less [simp]: "(ucast (v :: u8) :: u64) < ucast (w :: u8) \<longleftrightarrow> v < w"
  using u8_bound [of v] u8_bound [of w]
  by (simp add: word_less_nat_alt unsigned_ucast_eq take_bit_nat_eq_self)

lemma widen_zero [simp]: "(ucast (v :: u8) :: u64) = 0 \<longleftrightarrow> v = 0"
  by (simp add: widen_eq)

lemma narrow_push [simp]: "(ucast (push_bit n x :: u64) :: u16) = push_bit n (ucast x)"
  by (rule bit_word_eqI) (auto simp: bit_unsigned_iff bit_push_bit_iff)

section \<open>Table rows\<close>

lemma decode_row:
  assumes "r \<in> set instrs"
  shows "instruction_decode (id_opcode r) = r"
proof -
  obtain i where i: "i < 256" "r = instrs ! i" using assms by (auto simp: in_set_conv_nth length_instrs)
  then have u: "unat (of_nat i :: u8) = i" by (simp add: unat_of_nat)
  then have "instruction_decode (of_nat i) = r" by (simp add: instruction_decode_def i)
  then show ?thesis using decode_opcode [of "of_nat i"] by simp
qed

lemma decode_table: "list_all (\<lambda>r. instruction_decode (id_opcode r) = r) instrs"
  by (simp add: list_all_iff decode_row)

lemmas decode_rows = decode_table [unfolded instrs_def row_def list.pred_inject instrdef.select_convs]

section \<open>Running code\<close>

declare run_code.simps(2) [simp del]
declare run_code_Cons [simp]

lemma andthen_if [simp]: "andthen (if c then x else y) f = (if c then andthen x f else andthen y f)"
  by simp

text \<open>A machine run matches a run of the emulator.\<close>

definition ready :: "'h mach \<Rightarrow> bool" where
  "ready m \<longleftrightarrow> mr m JIT_R0 = Emu_ptr \<and> mr m JIT_V0 = Emu_ptr"

fun matches :: "('h, 'a) mrun \<Rightarrow> ('h, 'a) run \<Rightarrow> bool" where
  "matches (Ret x m) (Ret y e) \<longleftrightarrow> x = y \<and> memu m = e \<and> ready m"
| "matches (Longjmp m) (Longjmp e) \<longleftrightarrow> memu m = e"
| "matches _ _ \<longleftrightarrow> False"

lemma matches_read:
  assumes "mr m JIT_R0 = Emu_ptr" "mr m JIT_V0 = Emu_ptr" "mr m JIT_R1 = Word w" and a: "ucast w = a" "memu m = e"
    and "\<And>v e' m'. rk65c02_mem_read_1 H a e = Ret v e' \<Longrightarrow> memu m' = e' \<Longrightarrow>
       mr m' JIT_R0 = Emu_ptr \<Longrightarrow> mr m' JIT_V0 = Emu_ptr \<Longrightarrow> mr m' JIT_R1 = Word (ucast v) \<Longrightarrow>
       mr m' JIT_V1 = mr m JIT_V1 \<Longrightarrow> mr m' JIT_V2 = mr m JIT_V2 \<Longrightarrow>
       matches (run_code H rest m') (f v e')"
  shows "matches (run_code H (jit_emit_bus_read @ rest) m) (andthen (rk65c02_mem_read_1 H a e) f)"
proof (cases "rk65c02_mem_read_1 H a e")
  case (Ret v e')
  let ?m = "clobber H ((put_emu e' m)\<lparr>mret := ret_u8 H v e'\<rparr>)"
  let ?m' = "put_reg JIT_R0 Emu_ptr (put_reg JIT_R1 (Word (ucast v)) (put_reg JIT_R1 (Word (ret_u8 H v e')) ?m))"
  have "ret_u8 H v e' AND 0xFF = ucast v"
    by simp
  then have "run_code H (jit_emit_bus_read @ rest) m = run_code H rest ?m'"
    using assms(1-3) by (simp add: jit_emit_bus_read_def a Ret on_emu_def jit_mem_read_1_def clobber_def del: low_byte)
  with assms(6) [OF Ret, of ?m'] assms(1-3) Ret show ?thesis by (simp add: clobber_def)
next
  case (Longjmp e')
  with assms(1-3) show ?thesis
    by (simp add: jit_emit_bus_read_def a on_emu_def jit_mem_read_1_def)
next
  case Abort
  with access_total(2) show ?thesis by blast
qed

lemma matches_write:
  assumes "mr m JIT_R0 = Emu_ptr" "mr m JIT_V0 = Emu_ptr" "mr m JIT_R1 = Word w" "mr m JIT_R2 = Word x"
    and a: "ucast w = a" "ucast x = v" "memu m = e"
    and "\<And>e' m'. rk65c02_mem_write_1 H a v e = Ret () e' \<Longrightarrow> memu m' = e' \<Longrightarrow>
       mr m' JIT_R0 = Emu_ptr \<Longrightarrow> mr m' JIT_V0 = Emu_ptr \<Longrightarrow>
       mr m' JIT_V1 = mr m JIT_V1 \<Longrightarrow> mr m' JIT_V2 = mr m JIT_V2 \<Longrightarrow>
       matches (run_code H rest m') (f () e')"
  shows "matches (run_code H (jit_emit_bus_write @ rest) m)
     (andthen (rk65c02_mem_write_1 H a v e) f)"
proof (cases "rk65c02_mem_write_1 H a v e")
  case (Ret u e')
  let ?m' = "put_reg JIT_R0 Emu_ptr (clobber H ((put_emu e' m)\<lparr>mret := h_scratch H 3 e'\<rparr>))"
  have "run_code H (jit_emit_bus_write @ rest) m = run_code H rest ?m'"
    using assms(1-4) by (simp add: jit_emit_bus_write_def a Ret on_emu_def jit_bus_write_1_def clobber_def)
  with assms(8) [of e' ?m'] assms(1-4) Ret show ?thesis by (simp add: clobber_def)
next
  case (Longjmp e')
  with assms(1-4) show ?thesis
    by (simp add: jit_emit_bus_write_def a on_emu_def jit_bus_write_1_def)
next
  case Abort
  with access_total(3) show ?thesis by blast
qed

text \<open>Registers as numbers, and flags that a branch sets or leaves.\<close>

definition num :: "'h mach \<Rightarrow> jit_reg \<Rightarrow> u64" where
  "num m r = (case mr m r of Word w \<Rightarrow> w | _ \<Rightarrow> 0)"

lemma clobber_saved [simp]:
  "mr (clobber H m) JIT_V0 = mr m JIT_V0" "mr (clobber H m) JIT_V1 = mr m JIT_V1" "mr (clobber H m) JIT_V2 = mr m JIT_V2"
  by (simp_all add: clobber_def)

lemma num_put [simp]: "num (put_reg r (Word w) m) s = (if s = r then w else num m s)" "num (put_emu e m) s = num m s"
  by (simp_all add: num_def)

lemma put_reg_put [simp]:
  "put_reg r v (put_reg r w m) = put_reg r v m" "put_reg r v (put_emu e m) = put_emu e (put_reg r v m)"
  "put_emu e (put_emu e' m) = put_emu e m"
  by (simp_all add: put_reg_def put_emu_def)

lemma put_reg_same: "mr m r = v \<Longrightarrow> put_reg r v m = m"
  by (auto simp: put_reg_def fun_upd_idem)

lemma skip_ori [simp]:
  assumes "mr m r = Word (num m r)" "mr m s = Word (num m s)"
  shows "run_code H (Bmci r i (Node n) # Ori s s j # Patch n # rest) m =
      run_code H rest (put_reg s (Word (if num m r AND i = 0 then num m s else num m s OR j)) m)"
    "run_code H (Bnei r i (Node n) # Ori s s j # Patch n # rest) m =
      run_code H rest (put_reg s (Word (if num m r \<noteq> i then num m s else num m s OR j)) m)"
    "run_code H (Beqi r i (Node n) # Ori s s j # Patch n # rest) m =
      run_code H rest (put_reg s (Word (if num m r = i then num m s else num m s OR j)) m)"
    "run_code H (Beqi r i (Node n) # Addi s s j # Patch n # rest) m =
      run_code H rest (put_reg s (Word (if num m r = i then num m s else num m s + j)) m)"
    "mr m t = Word (num m t) \<Longrightarrow> run_code H (Bltr_u r t (Node n) # Ori s s j # Patch n # rest) m =
      run_code H rest (put_reg s (Word (if num m r < num m t then num m s else num m s OR j)) m)"
  by (cases "mr m r"; cases "mr m s"; use assms in \<open>simp add: put_reg_same\<close>)+

definition zn_P :: "u8 \<Rightarrow> u8 \<Rightarrow> u8" where
  "zn_P v p = (let p = p AND 0x7D; p = (if v = 0 then p OR P_ZERO else p) in if bit v 7 then p OR P_NEGATIVE else p)"

lemma byte_eqI:
  fixes p q :: u8
  assumes "bit p 0 = bit q 0" "bit p 1 = bit q 1" "bit p 2 = bit q 2" "bit p 3 = bit q 3"
    "bit p 4 = bit q 4" "bit p 5 = bit q 5" "bit p 6 = bit q 6" "bit p 7 = bit q 7"
  shows "p = q"
proof (rule bit_word_eqI)
  fix n assume "n < LENGTH(8)"
  then have "n = 0 \<or> n = 1 \<or> n = 2 \<or> n = 3 \<or> n = 4 \<or> n = 5 \<or> n = 6 \<or> n = 7" by auto
  then show "bit p n = bit q n" using assms by (elim disjE) simp_all
qed

lemmas bits = bit_and_iff bit_or_iff bit_xor_iff bit_not_iff bit_numeral_word_iff

lemma status_zn_set: "status_zn v e = set_P (zn_P v (rP (regs e))) e"
proof -
  have "zn_P v (rP (regs e)) = rP (regs (status_zn v e))"
    by (rule byte_eqI) (simp_all add: zn_P_def Let_def bits)
  then show ?thesis by (simp add: status_zn_put flag_put_def flag_set_def flag_clear_def set_P_def)
qed

lemma run_update_zn [simp]:
  assumes "mr m JIT_R0 = Emu_ptr" "mr m JIT_R1 = Word (ucast (ucast (num m JIT_R1) :: u8))"
  shows "run_code H (jit_emit_update_zn @ rest) m =
     run_code H rest (put_emu (status_zn (ucast (num m JIT_R1)) (memu m))
       (put_reg JIT_R2 (Word (ucast (zn_P (ucast (num m JIT_R1)) (rP (regs (memu m)))))) m))"
proof -
  obtain v :: u8 where v: "mr m JIT_R1 = Word (ucast v)"
    using assms(2) by blast
  then have "num m JIT_R1 = ucast v" by (simp add: num_def)
  with assms(1) v show ?thesis
    by (simp add: jit_emit_update_zn_def widen_bit status_zn_set zn_P_def)
qed

lemma run_advance [simp]:
  assumes "mr m JIT_R0 = Emu_ptr"
  shows "run_code H (jit_emit_advance_pc sz @ rest) m =
     run_code H rest (put_emu (set_PC (rPC (regs (memu m)) + ucast sz) (memu m))
       (put_reg JIT_R1 (Word (ucast (rPC (regs (memu m))) + ucast sz)) m))"
  using assms by (simp add: jit_emit_advance_pc_def)

lemma run_advance_end [simp]:
  assumes "mr m JIT_R0 = Emu_ptr"
  shows "run_code H (jit_emit_advance_pc sz) m =
     Ret Fall (put_emu (set_PC (rPC (regs (memu m)) + ucast sz) (memu m))
       (put_reg JIT_R1 (Word (ucast (rPC (regs (memu m))) + ucast sz)) m))"
  using run_advance [OF assms, of H sz "[]"] by simp

lemma run_bail [simp]:
  assumes "mr m JIT_R0 = Emu_ptr"
  shows "run_code H jit_emit_bail_if_jit_disabled m =
     Ret (if use_jit (memu m) then Fall else Leave_block) (put_reg JIT_R1 (Word (of_bool (use_jit (memu m)))) m)"
  using assms by (simp add: jit_emit_bail_if_jit_disabled_def)

text \<open>
  The address computation leaves the effective address in R1, possibly with bits above the
  16 that the callee looks at.
\<close>

lemma pointer_word: "(ucast (push_bit 8 (ucast (h :: u8)) OR ucast (l :: u8) :: u64) :: u16) = join8 l h"
  by (simp add: join8_def or.commute)

lemma matches_pointer:
  assumes "mr m JIT_R0 = Emu_ptr" "mr m JIT_V0 = Emu_ptr" "memu m = e"
    and rest: "\<And>a e' m' w. read_pointer H z e = Ret a e' \<Longrightarrow> memu m' = e' \<Longrightarrow> mr m' JIT_R0 = Emu_ptr \<Longrightarrow>
       mr m' JIT_V0 = Emu_ptr \<Longrightarrow> mr m' JIT_R1 = Word w \<Longrightarrow> ucast w = a \<Longrightarrow> matches (run_code H rest m') (f a e')"
  shows "matches (run_code H (Movi JIT_R1 (ucast z) # jit_emit_bus_read @ Movr JIT_V1 JIT_R1 #
      Movi JIT_R1 (ucast (z + 1)) # jit_emit_bus_read @ Lshi JIT_R1 JIT_R1 8 # Orr JIT_R1 JIT_R1 JIT_V1 # rest) m)
    (andthen (read_pointer H z e) f)"
  using assms(1-3) unfolding read_pointer_def
  apply (simp add: andthen_assoc)
  apply (rule matches_read, simp, simp, simp, simp, simp)
  apply simp
  apply (rule matches_read, simp, simp, simp, simp, simp)
  apply simp
  apply (rule rest, simp add: read_pointer_def, simp, simp, simp, simp, rule pointer_word)
  done

lemma word_operand: "(ucast (l :: u8) OR push_bit 8 (ucast (h :: u8)) :: u16) = ucast l + push_bit 8 (ucast h)"
  by (simp add: join8_plus [unfolded join8_def])

lemma matches_effaddr:
  assumes "ready m" "jit_emit_effaddr bi = Some c" "mode (bi_id bi) \<notin> {IMMEDIATE, ACCUMULATOR}" "memu m = e"
    and rest: "\<And>a e' m' w. instruction_data_address H (bi_id bi) (bi_i bi) e = Ret a e' \<Longrightarrow> memu m' = e' \<Longrightarrow>
       mr m' JIT_R0 = Emu_ptr \<Longrightarrow> mr m' JIT_V0 = Emu_ptr \<Longrightarrow> mr m' JIT_R1 = Word w \<Longrightarrow> ucast w = a \<Longrightarrow>
       matches (run_code H rest m') (f a e')"
  shows "matches (run_code H (c @ rest) m) (andthen (instruction_data_address H (bi_id bi) (bi_i bi) e) f)"
proof -
  note regs = assms(1) [unfolded ready_def] and e = assms(4)
  note unfold = jit_emit_effaddr_def Let_def instruction_data_address_def
  show ?thesis
  proof (cases "mode (bi_id bi)")
    case IZP
    then have c: "c @ rest = Movi JIT_R1 (ucast (op1 (bi_i bi))) # jit_emit_bus_read @ Movr JIT_V1 JIT_R1 #
        Movi JIT_R1 (ucast (op1 (bi_i bi) + 1)) # jit_emit_bus_read @
        Lshi JIT_R1 JIT_R1 8 # Orr JIT_R1 JIT_R1 JIT_V1 # rest"
      using assms(2) by (auto simp: unfold)
    show ?thesis
      unfolding c using regs e
      by (simp only: instruction_data_address_def IZP addressing.case)
        (rule matches_pointer, simp, simp, simp, rule rest, simp add: unfold IZP, simp_all)
  next
    case IZPY
    then have c: "c @ rest = Movi JIT_R1 (ucast (op1 (bi_i bi))) # jit_emit_bus_read @ Movr JIT_V1 JIT_R1 #
        Movi JIT_R1 (ucast (op1 (bi_i bi) + 1)) # jit_emit_bus_read @
        Lshi JIT_R1 JIT_R1 8 # Orr JIT_R1 JIT_R1 JIT_V1 # Ldxi_uc JIT_R2 JIT_R0 OFFSET_E_Y # Addr JIT_R1 JIT_R1 JIT_R2 # rest"
      using assms(2) by (auto simp: unfold)
    show ?thesis
      unfolding c using regs e
      by (simp only: instruction_data_address_def IZPY addressing.case andthen_assoc)
        (rule matches_pointer, simp, simp, simp, simp, rule rest, simp add: unfold IZPY, simp, simp, simp, simp, simp)
  next
    case IZPX
    then have c: "c @ rest = Ldxi_uc JIT_R2 JIT_R0 OFFSET_E_X # Addi JIT_R2 JIT_R2 (ucast (op1 (bi_i bi))) #
        Andi JIT_R2 JIT_R2 0xFF # Movr JIT_R1 JIT_R2 # jit_emit_bus_read @ Movr JIT_V1 JIT_R1 #
        Ldxi_uc JIT_R2 JIT_R0 OFFSET_E_X # Addi JIT_R2 JIT_R2 (ucast (op1 (bi_i bi)) + 1) #
        Andi JIT_R1 JIT_R2 0xFF # jit_emit_bus_read @ Lshi JIT_R1 JIT_R1 8 # Orr JIT_R1 JIT_R1 JIT_V1 # rest"
      using assms(2) by (auto simp: unfold)
    show ?thesis
      unfolding c using regs e
      apply (simp add: instruction_data_address_def IZPX andthen_assoc)
      apply (rule matches_read, simp, simp, simp, simp add: ac_simps, simp)
      apply simp
      apply (rule matches_read, simp, simp, simp, simp add: ac_simps, simp)
      apply simp
      apply (rule rest, simp add: unfold IZPX ac_simps, simp, simp, simp, simp, rule pointer_word)
      done
  next
    case ABSOLUTE
    then show ?thesis
      using assms(2) regs e
      apply (clarsimp simp: unfold)
      apply (rule rest, simp add: unfold, simp, simp, simp, simp, simp add: word_operand ac_simps)
      done
  next
    case ABSOLUTEX
    then show ?thesis
      using assms(2) regs e
      apply (clarsimp simp: unfold)
      apply (rule rest, simp add: unfold, simp, simp, simp, simp, simp add: word_operand ac_simps)
      done
  next
    case ABSOLUTEY
    then show ?thesis
      using assms(2) regs e
      apply (clarsimp simp: unfold)
      apply (rule rest, simp add: unfold, simp, simp, simp, simp, simp add: word_operand ac_simps)
      done
  qed (use assms(2,3) regs e in \<open>auto simp: unfold intro!: rest\<close>)
qed

lemma matches_load:
  assumes "ready m" "jit_emit_load_operand bi = Some c" "mode (bi_id bi) \<noteq> ACCUMULATOR" "memu m = e"
    and rest: "\<And>v e' m'. instruction_data_read_1 H (bi_id bi) (bi_i bi) e = Ret v e' \<Longrightarrow> memu m' = e' \<Longrightarrow>
       mr m' JIT_R0 = Emu_ptr \<Longrightarrow> mr m' JIT_V0 = Emu_ptr \<Longrightarrow> mr m' JIT_R1 = Word (ucast v) \<Longrightarrow>
       num m' JIT_R1 = ucast v \<Longrightarrow> matches (run_code H rest m') (f v e')"
  shows "matches (run_code H (c @ rest) m) (andthen (instruction_data_read_1 H (bi_id bi) (bi_i bi) e) f)"
proof (cases "mode (bi_id bi) = IMMEDIATE")
  case True
  then have "c = [Movi JIT_R1 (ucast (op1 (bi_i bi)))]"
    using assms(2) by (auto simp: jit_emit_load_operand_def jit_emit_effaddr_def Let_def)
  with True assms(1,4) show ?thesis
    by (simp add: ready_def instruction_data_read_1_def) (rule rest, simp_all add: instruction_data_read_1_def)
next
  case False
  then obtain ea where ea: "jit_emit_effaddr bi = Some ea" "c = ea @ jit_emit_bus_read"
    using assms(2) by (auto simp: jit_emit_load_operand_def split: option.splits)
  have read: "instruction_data_read_1 H (bi_id bi) (bi_i bi) e =
      andthen (instruction_data_address H (bi_id bi) (bi_i bi) e) (rk65c02_mem_read_1 H)"
    using assms(3) False by (simp add: instruction_data_read_1_def)
  show ?thesis
    unfolding ea(2) read andthen_assoc append_assoc
    apply (rule matches_effaddr [OF assms(1) ea(1) _ assms(4)])
     apply (simp add: assms(3) False)
    apply (rule matches_read, assumption, assumption, assumption, assumption, assumption)
    apply (rule rest, simp add: read, simp_all add: num_def)
    done
qed

section \<open>Instructions\<close>

definition insn_step :: "'h host \<Rightarrow> jit_block_insn \<Rightarrow> 'h emu \<Rightarrow> ('h, unit) run" where
  "insn_step H bi e =
     andthen (emul_dispatch H (bi_id bi) (bi_i bi) e) (\<lambda>_ e.
       Ret () (if instruction_modify_pc (bi_id bi) then e else program_counter_increment (bi_id bi) e))"

definition native_ok :: "'h host \<Rightarrow> jit_block_insn \<Rightarrow> jit_op list \<Rightarrow> ('h emu \<Rightarrow> jit_exit) \<Rightarrow> bool" where
  "native_ok H bi c x \<longleftrightarrow>
     (\<forall>m. ready m \<longrightarrow> matches (run_code H c m) (andthen (insn_step H bi (memu m)) (\<lambda>_ e. Ret (x e) e)))"

lemma pc_increment: "program_counter_increment idf e = set_PC (rPC (regs e) + ucast (isize idf)) e"
  by (simp add: program_counter_increment_def set_PC_def)

lemma status_zn_regs [simp]:
  "rA (regs (status_zn v e)) = rA (regs e)" "rX (regs (status_zn v e)) = rX (regs e)"
  "rY (regs (status_zn v e)) = rY (regs e)" "rSP (regs (status_zn v e)) = rSP (regs e)"
  "rPC (regs (status_zn v e)) = rPC (regs e)"
  by (simp_all add: status_zn_put)

lemma set_regs [simp]:
  "rA (regs (set_A v e)) = v" "rX (regs (set_X v e)) = v" "rY (regs (set_Y v e)) = v"
  "rSP (regs (set_SP v e)) = v" "rPC (regs (set_A v e)) = rPC (regs e)" "rPC (regs (set_X v e)) = rPC (regs e)"
  "rPC (regs (set_Y v e)) = rPC (regs e)" "rPC (regs (set_SP v e)) = rPC (regs e)"
  "rPC (regs (set_P v e)) = rPC (regs e)"
  by (simp_all add: set_A_def set_X_def set_Y_def set_SP_def set_P_def)

lemmas step_simps = insn_step_def emul_dispatch_def pc_increment native_ok_def ready_def

lemma native_nop:
  assumes "bi_id bi = instruction_decode (opcode (bi_i bi))" "jit_emit_nop bi = Some c"
  shows "native_ok H bi c (\<lambda>_. Fall)"
  using assms
  by (auto simp: jit_emit_nop_def decode_rows instruction_modify_pc_def step_simps emul_nop_def split: if_splits)

lemma native_flags:
  assumes "bi_id bi = instruction_decode (opcode (bi_i bi))" "jit_emit_flags bi = Some c"
  shows "native_ok H bi c (\<lambda>_. Fall)"
  using assms
  by (auto simp: jit_emit_flags_def Let_def decode_rows instruction_modify_pc_def step_simps emul_clc_def emul_sec_def emul_cli_def
      emul_sei_def emul_clv_def emul_cld_def emul_sed_def flag_set_def flag_clear_def split: if_splits)

lemma native_transfer:
  assumes "bi_id bi = instruction_decode (opcode (bi_i bi))" "jit_emit_transfer bi = Some c"
  shows "native_ok H bi c (\<lambda>_. Fall)"
  using assms
  by (auto simp: jit_emit_transfer_def Let_def decode_rows instruction_modify_pc_def step_simps emul_tax_def emul_tay_def emul_txa_def
      emul_tya_def emul_tsx_def emul_txs_def split: if_splits)

lemma write_acc: "mode idf = ACCUMULATOR \<Longrightarrow> instruction_data_write_1 H idf i v e = Ret () (set_A v e)"
  by (simp add: instruction_data_write_1_def set_A_def)

lemma native_incdec:
  assumes "bi_id bi = instruction_decode (opcode (bi_i bi))" "jit_emit_incdec bi = Some c"
  shows "native_ok H bi c (\<lambda>_. Fall)"
  using assms
  by (auto simp: jit_emit_incdec_def Let_def decode_rows instruction_modify_pc_def step_simps emul_inx_def emul_dex_def emul_iny_def
      emul_dey_def emul_inc_def emul_dec_def instruction_data_read_1_def write_acc split: if_splits)

text \<open>
  Instructions that read their operand and compute on registers: what the handler does with
  the operand. The binary sum of ADC is also that of SBC, with the operand's complement.
\<close>

definition binary_sum :: "u8 \<Rightarrow> 'h emu \<Rightarrow> 'h emu" where
  "binary_sum v e =
     (let a = rA (regs e); r = a + v + of_bool (flag P_CARRY e)
      in alu_result r (256 \<le> unat a + unat v + of_bool (flag P_CARRY e)) (bit ((a XOR r) AND (v XOR r)) 7) e)"

definition compare_op :: "u8 \<Rightarrow> u8 \<Rightarrow> 'h emu \<Rightarrow> 'h emu" where
  "compare_op r v e = flag_put P_CARRY (\<not> r < v) (status_zn (r - v) e)"

definition operand_op :: "emul_fn \<Rightarrow> u8 \<Rightarrow> 'h emu \<Rightarrow> 'h emu" where
  "operand_op f v e =
     (case f of
        EMUL_LDA \<Rightarrow> status_zn v (set_A v e)
      | EMUL_LDX \<Rightarrow> status_zn v (set_X v e)
      | EMUL_LDY \<Rightarrow> status_zn v (set_Y v e)
      | EMUL_AND \<Rightarrow> status_zn (rA (regs e) AND v) (set_A (rA (regs e) AND v) e)
      | EMUL_ORA \<Rightarrow> status_zn (rA (regs e) OR v) (set_A (rA (regs e) OR v) e)
      | EMUL_EOR \<Rightarrow> status_zn (rA (regs e) XOR v) (set_A (rA (regs e) XOR v) e)
      | EMUL_CMP \<Rightarrow> compare_op (rA (regs e)) v e
      | EMUL_CPX \<Rightarrow> compare_op (rX (regs e)) v e
      | EMUL_CPY \<Rightarrow> compare_op (rY (regs e)) v e
      | EMUL_ADC \<Rightarrow> if flag P_DECIMAL e then rk65c02_do_adc_bcd v e else binary_sum v e
      | EMUL_SBC \<Rightarrow> if flag P_DECIMAL e then rk65c02_do_sbc_bcd v e else binary_sum (NOT v) e
      | _ \<Rightarrow> e)"

definition operand_fns :: "emul_fn list" where
  "operand_fns = [EMUL_LDA, EMUL_LDX, EMUL_LDY, EMUL_AND, EMUL_ORA, EMUL_EOR, EMUL_CMP, EMUL_CPX, EMUL_CPY,
     EMUL_ADC, EMUL_SBC]"

lemma overflow_low:
  assumes "ucast res = (r :: u8)"
  shows "(ucast (a :: u8) XOR res) AND (ucast (v :: u8) XOR res) AND (0x80 :: u16) \<noteq> 0 \<longleftrightarrow> bit ((a XOR r) AND (v XOR r)) 7"
proof -
  have "bit r 7 \<longleftrightarrow> bit res 7" by (simp add: bit_unsigned_iff flip: assms)
  then show ?thesis unfolding overflow_bit by (auto simp: bit_and_iff bit_xor_iff)
qed

lemma adc_sum:
  assumes "instruction_data_read_1 H idf i e0 = Ret v e" "\<not> flag P_DECIMAL e"
  shows "emul_adc H idf i e0 = Ret () (binary_sum v e)"
proof -
  let ?a = "rA (regs e)" and ?c = "of_bool (flag P_CARRY e)"
  define res where "res = (ucast ?a + ucast v + ?c :: u16)"
  have "ucast res = ?a + v + ?c" by (simp add: res_def narrow_add narrow_widen of_bool_def)
  moreover have "res > 0xFF \<longleftrightarrow> 256 \<le> unat ?a + unat v + ?c"
    using adc_unat [of ?a v "flag P_CARRY e", folded res_def] by (simp add: word_less_nat_alt) linarith
  ultimately show ?thesis
    using adc_binary_eq [OF assms, folded res_def] overflow_low by (simp only: binary_sum_def Let_def)
qed

lemma sbc_sum:
  assumes "instruction_data_read_1 H idf i e0 = Ret v e" "\<not> flag P_DECIMAL e"
  shows "emul_sbc H idf i e0 = Ret () (binary_sum (NOT v) e)"
proof -
  let ?a = "rA (regs e)" and ?c = "flag P_CARRY e"
  define res where "res = (ucast ?a - ucast v - of_bool (\<not> ?c) :: u16)"
  have "ucast res = ?a + NOT v + of_bool ?c"
    by (simp add: res_def narrow_sub narrow_widen not_eq_complement)
  moreover have "hi8 res = 0 \<longleftrightarrow> 256 \<le> unat ?a + unat (NOT v) + of_bool ?c"
    using sbc_unat(2) [of ?a v ?c, folded res_def] u8_bound [of v]
    by (cases ?c) (simp_all add: unat_not_u8 del: of_nat_unat, linarith+)
  moreover have "(0xFF - ucast v :: u16) = ucast (NOT v)"
    using u8_bound [of v] by (simp add: word_unat_eq_iff unat_not_u8 unat_sub_if')
  ultimately show ?thesis
    using sbc_binary_eq [OF assms, folded res_def] overflow_low by (simp only: binary_sum_def Let_def)
qed

lemma decimal_op:
  assumes "instruction_data_read_1 H idf i e0 = Ret v e" "flag P_DECIMAL e"
  shows "emul_adc H idf i e0 = Ret () (rk65c02_do_adc_bcd v e)" "emul_sbc H idf i e0 = Ret () (rk65c02_do_sbc_bcd v e)"
  using assms by (simp_all add: emul_adc_def emul_sbc_def rk65c02_do_adc_bcd_def rk65c02_do_sbc_bcd_def Let_def)

lemma operand_call:
  assumes "f \<in> set operand_fns"
  shows "emul_call f H idf i e0 = andthen (instruction_data_read_1 H idf i e0) (\<lambda>v e. Ret () (operand_op f v e))"
proof (cases "instruction_data_read_1 H idf i e0")
  case (Ret v e)
  with assms show ?thesis
    by (auto simp: operand_fns_def operand_op_def adc_sum sbc_sum decimal_op emul_lda_def emul_ldx_def emul_ldy_def emul_and_def
        emul_ora_def emul_eor_def emul_cmp_def emul_cpx_def emul_cpy_def compare_op_def flag_put_def Let_def)
qed (use assms in \<open>auto simp: operand_fns_def emul_lda_def emul_ldx_def emul_ldy_def emul_and_def emul_ora_def
    emul_eor_def emul_cmp_def emul_cpx_def emul_cpy_def emul_adc_def emul_sbc_def\<close>)

lemma bcd_PC [simp]:
  "rPC (regs (rk65c02_do_adc_bcd v e)) = rPC (regs e)" "rPC (regs (rk65c02_do_sbc_bcd v e)) = rPC (regs e)"
  by (simp_all add: rk65c02_do_adc_bcd_def rk65c02_do_sbc_bcd_def Let_def)

lemma operand_op_PC [simp]: "f \<in> set operand_fns \<Longrightarrow> rPC (regs (operand_op f v e)) = rPC (regs e)"
  by (auto simp: operand_fns_def operand_op_def compare_op_def binary_sum_def Let_def alu_result_def rk65c02_do_adc_bcd_def
      rk65c02_do_sbc_bcd_def)

text \<open>The rows of the opcodes a group lists.\<close>

lemma pick:
  assumes "(if c then map_option g x else y) = Some r"
  obtains z where c "x = Some z" "r = g z" | "y = Some r"
  using assms by (auto split: if_splits)

definition row_is :: "jit_block_insn \<Rightarrow> emul_fn \<Rightarrow> bool" where
  "row_is bi f \<longleftrightarrow> emul (bi_id bi) = Some f \<and> \<not> instruction_modify_pc (bi_id bi) \<and> mode (bi_id bi) \<noteq> ACCUMULATOR"

abbreviation decoded :: "jit_block_insn \<Rightarrow> bool" where
  "decoded bi \<equiv> bi_id bi = instruction_decode (opcode (bi_i bi))"

lemma row_step:
  assumes "row_is bi f"
  shows "mode (bi_id bi) \<noteq> ACCUMULATOR" "insn_step H bi e =
    andthen (emul_call f H (bi_id bi) (bi_i bi) e) (\<lambda>_ e. Ret () (set_PC (rPC (regs e) + ucast (isize (bi_id bi))) e))"
  using assms by (simp_all add: row_is_def insn_step_def emul_dispatch_def pc_increment)

lemma native_operand:
  assumes "jit_emit_load_operand bi = Some c" "row_is bi f" "f \<in> set operand_fns"
    and rest: "\<And>m v. mr m JIT_R0 = Emu_ptr \<Longrightarrow> mr m JIT_V0 = Emu_ptr \<Longrightarrow> mr m JIT_R1 = Word (ucast v) \<Longrightarrow>
       num m JIT_R1 = ucast v \<Longrightarrow> matches (run_code H rest m)
         (Ret Fall (set_PC (rPC (regs (memu m)) + ucast (isize (bi_id bi))) (operand_op f v (memu m))))"
  shows "native_ok H bi (c @ rest) (\<lambda>_. Fall)"
  unfolding native_ok_def row_step(2) [OF assms(2)] operand_call [OF assms(3)] andthen_assoc
  by (auto simp: assms(3) intro!: matches_load [OF _ assms(1) row_step(1) [OF assms(2)]] rest)

lemma load_rows:
  assumes "decoded bi"
  shows "opcode (bi_i bi) \<in> set [0xA9, 0xA5, 0xB5, 0xAD, 0xBD, 0xB9, 0xA1, 0xB1, 0xB2] \<Longrightarrow> row_is bi EMUL_LDA"
    "opcode (bi_i bi) \<in> set [0xA2, 0xA6, 0xB6, 0xAE, 0xBE] \<Longrightarrow> row_is bi EMUL_LDX"
    "opcode (bi_i bi) \<in> set [0xA0, 0xA4, 0xB4, 0xAC, 0xBC] \<Longrightarrow> row_is bi EMUL_LDY"
  using assms by (auto simp: row_is_def instruction_modify_pc_def decode_rows)

lemma native_load:
  assumes "decoded bi" "jit_emit_load bi = Some c"
  shows "native_ok H bi c (\<lambda>_. Fall)"
  using assms(2) load_rows [OF assms(1)] unfolding jit_emit_load_def Let_def
  by (auto split: if_split_asm intro!: native_operand simp: operand_fns_def operand_op_def ready_def)

lemma logic_rows:
  assumes "decoded bi"
  shows "opcode (bi_i bi) \<in> set [0x29, 0x25, 0x35, 0x2D, 0x3D, 0x39, 0x21, 0x31, 0x32] \<Longrightarrow> row_is bi EMUL_AND"
    "opcode (bi_i bi) \<in> set [0x09, 0x05, 0x15, 0x0D, 0x1D, 0x19, 0x01, 0x11, 0x12] \<Longrightarrow> row_is bi EMUL_ORA"
    "opcode (bi_i bi) \<in> set [0x49, 0x45, 0x55, 0x4D, 0x5D, 0x59, 0x41, 0x51, 0x52] \<Longrightarrow> row_is bi EMUL_EOR"
  using assms by (auto simp: row_is_def instruction_modify_pc_def decode_rows)

lemma native_logic:
  assumes "decoded bi" "jit_emit_logic bi = Some c"
  shows "native_ok H bi c (\<lambda>_. Fall)"
  using assms(2) logic_rows [OF assms(1)] unfolding jit_emit_logic_def Let_def
  by (auto split: if_split_asm intro!: native_operand simp: operand_fns_def operand_op_def ready_def unsigned_and_eq unsigned_or_eq unsigned_xor_eq)

lemma compare_rows:
  assumes "decoded bi"
  shows "opcode (bi_i bi) \<in> set [0xC9, 0xC5, 0xD5, 0xCD, 0xDD, 0xD9, 0xC1, 0xD1, 0xD2] \<Longrightarrow> row_is bi EMUL_CMP"
    "opcode (bi_i bi) \<in> set [0xE0, 0xE4, 0xEC] \<Longrightarrow> row_is bi EMUL_CPX"
    "opcode (bi_i bi) \<in> set [0xC0, 0xC4, 0xCC] \<Longrightarrow> row_is bi EMUL_CPY"
  using assms by (auto simp: row_is_def instruction_modify_pc_def decode_rows)

lemma compare_P:
  "compare_op r v e = set_P (let p = rP (regs e) AND 0x7C; p = (if r < v then p else p OR P_CARRY);
     p = (if r - v \<noteq> 0 then p else p OR P_ZERO) in if bit (r - v) 7 then p OR P_NEGATIVE else p) e"
  (is "_ = set_P ?p e")
proof -
  have "?p = rP (regs (compare_op r v e))"
    by (rule byte_eqI) (simp_all add: compare_op_def Let_def bits)
  then show ?thesis
    by (simp add: compare_op_def status_zn_put flag_put_def flag_set_def flag_clear_def set_P_def)
qed

lemma run_compare:
  assumes "mr m JIT_R0 = Emu_ptr" "mr m JIT_V0 = Emu_ptr" "mr m JIT_R1 = Word (ucast v)" "num m JIT_R1 = ucast v"
    and "load_uc r (memu m) = Some (ucast x)"
  shows "matches (run_code H
     ([Ldxi_uc JIT_R2 JIT_R0 r,
       Ldxi_uc JIT_V1 JIT_R0 OFFSET_E_P,
       Andi JIT_V1 JIT_V1 (NOT (ucast (P_CARRY OR P_ZERO OR P_NEGATIVE))),
       Bltr_u JIT_R2 JIT_R1 (Node 0),
       Ori JIT_V1 JIT_V1 (ucast P_CARRY),
       Patch 0,
       Subr JIT_R1 JIT_R2 JIT_R1,
       Andi JIT_R1 JIT_R1 0xFF,
       Bnei JIT_R1 0 (Node 1),
       Ori JIT_V1 JIT_V1 (ucast P_ZERO),
       Patch 1,
       Bmci JIT_R1 0x80 (Node 2),
       Ori JIT_V1 JIT_V1 (ucast P_NEGATIVE),
       Patch 2,
       Stxi_c OFFSET_E_P JIT_R0 JIT_V1] @ jit_emit_advance_pc sz) m)
     (Ret Fall (set_PC (rPC (regs (memu m)) + ucast sz) (compare_op x v (memu m))))"
  using assms
  by (simp add: widen_bit ready_def compare_P)

lemma native_compare:
  assumes "decoded bi" "jit_emit_compare bi = Some c"
  shows "native_ok H bi c (\<lambda>_. Fall)"
  using assms(2) unfolding jit_emit_compare_def Let_def
  apply (elim pick)
     apply (hypsubst, rule native_operand [OF _ compare_rows(1) [OF assms(1)]], assumption, assumption,
      simp add: operand_fns_def, simp only: operand_op_def emul_fn.case, rule run_compare, assumption+, simp)
    apply (hypsubst, rule native_operand [OF _ compare_rows(2) [OF assms(1)]], assumption, assumption,
      simp add: operand_fns_def, simp only: operand_op_def emul_fn.case, rule run_compare, assumption+, simp)
   apply (hypsubst, rule native_operand [OF _ compare_rows(3) [OF assms(1)]], assumption, assumption,
      simp add: operand_fns_def, simp only: operand_op_def emul_fn.case, rule run_compare, assumption+, simp)
  apply simp
  done

definition sum_P :: "bool \<Rightarrow> bool \<Rightarrow> u8 \<Rightarrow> u8" where
  "sum_P c v p = (let p = p AND 0xBE; p = (if c then p OR P_CARRY else p) in if v then p OR P_SIGN_OVERFLOW else p)"

lemma sum_P: "alu_result r c v e = status_zn r (set_A r (set_P (sum_P c v (rP (regs e))) e))"
proof -
  have "sum_P c v (rP (regs e)) = rP (regs (flag_put P_CARRY c (flag_put P_SIGN_OVERFLOW v e)))"
    by (rule byte_eqI) (simp_all add: sum_P_def Let_def bits)
  then show ?thesis
    by (simp add: alu_result_def flag_put_def flag_set_def flag_clear_def set_P_def)
qed

lemma after_skip [simp]:
  "after n (jit_emit_advance_pc sz @ xs) = after n xs" "after n (jit_emit_bus_read @ xs) = after n xs"
  "after n (jit_emit_bus_write @ xs) = after n xs" "n < 10 \<Longrightarrow> after n (jit_emit_update_zn @ xs) = after n xs"
  by (simp_all add: jit_emit_advance_pc_def jit_emit_bus_read_def jit_emit_bus_write_def jit_emit_update_zn_def)

lemma unat_widen [simp]: "unat (ucast (v :: u8) :: u64) = unat v"
  using u8_bound [of v] by (simp add: unsigned_ucast_eq take_bit_nat_eq_self)

lemma odd_div_256: "n < 512 \<Longrightarrow> odd (n div 256) \<longleftrightarrow> 256 \<le> (n :: nat)"
proof (cases "n < 256")
  case False
  moreover assume "n < 512"
  ultimately have "n div 256 = 1" by (simp add: div_nat_eqI)
  with False show ?thesis by simp
qed simp

lemma sum_carry:
  fixes a v :: u8
  shows "(ucast a + ucast v :: u64) AND 0x100 = 0 \<longleftrightarrow> \<not> 256 \<le> unat a + unat v"
    "(ucast a + ucast v + 1 :: u64) AND 0x100 = 0 \<longleftrightarrow> \<not> 255 \<le> unat a + unat v"
proof -
  have bit8: "w AND 0x100 = 0 \<longleftrightarrow> \<not> 256 \<le> unat w" if "unat w < 512" for w :: u64
  proof -
    have b: "bit (unat w) 8 \<longleftrightarrow> bit w 8" by (simp add: bit_unsigned_iff)
    have "w AND 0x100 = 0 \<longleftrightarrow> \<not> bit w 8"
      using and_exp_eq_0_iff_not_bit [of w 8] by (simp del: and_exp_eq_0_iff_not_bit)
    also have "bit w 8 \<longleftrightarrow> odd (unat w div 256)"
      using bit_iff_odd [of "unat w" 8] b by simp
    also have "\<dots> \<longleftrightarrow> 256 \<le> unat w" by (rule odd_div_256 [OF that])
    finally show ?thesis .
  qed
  have "unat (ucast a + ucast v :: u64) = unat a + unat v" "unat (ucast a + ucast v + 1 :: u64) = unat a + unat v + 1"
    using u8_bound [of a] u8_bound [of v] by (simp_all add: unat_word_ariths)
  with bit8 [of "ucast a + ucast v"] bit8 [of "ucast a + ucast v + 1"] u8_bound [of a] u8_bound [of v]
  show "(ucast a + ucast v :: u64) AND 0x100 = 0 \<longleftrightarrow> \<not> 256 \<le> unat a + unat v"
    "(ucast a + ucast v + 1 :: u64) AND 0x100 = 0 \<longleftrightarrow> \<not> 255 \<le> unat a + unat v" by auto
qed

lemma sum_overflow:
  "((ucast (a :: u8) XOR ucast (r :: u8)) AND (ucast (v :: u8) XOR ucast r) :: u64) AND 0x80 = 0 \<longleftrightarrow>
     \<not> bit ((a XOR r) AND (v XOR r)) 7"
  using widen_bit(3) [of "(a XOR r) AND (v XOR r)"] by (simp only: unsigned_and_eq unsigned_xor_eq)

lemma run_sum_binary:
  assumes "mr m JIT_R0 = Emu_ptr" "mr m JIT_V0 = Emu_ptr" "mr m JIT_R1 = Word (ucast v)" "num m JIT_R1 = ucast v"
    and "\<not> flag P_DECIMAL (memu m)"
  shows "matches (run_code H (jit_emit_sum helper [] sz) m)
     (Ret Fall (set_PC (rPC (regs (memu m)) + ucast sz) (binary_sum v (memu m))))"
  using assms
  by (cases "bit (rP (regs (memu m))) 0")
    (simp_all add: widen_bit ready_def jit_emit_sum_def binary_sum_def sum_P Let_def sum_carry sum_overflow sum_P_def)

lemma run_sum_binary_not:
  assumes "mr m JIT_R0 = Emu_ptr" "mr m JIT_V0 = Emu_ptr" "mr m JIT_R1 = Word (ucast v)" "num m JIT_R1 = ucast v"
    and "\<not> flag P_DECIMAL (memu m)"
  shows "matches (run_code H (jit_emit_sum helper [Xori JIT_R1 JIT_R1 0xFF] sz) m)
     (Ret Fall (set_PC (rPC (regs (memu m)) + ucast sz) (binary_sum (NOT v) (memu m))))"
proof -
  have "(ucast v XOR mask 8 :: u64) = ucast (NOT v)"
    by (rule bit_word_eqI) (auto simp: bit_unsigned_iff bit_xor_iff bit_not_iff bit_mask_iff dest: bit_imp_le_length)
  then have x: "(ucast v XOR 0xFF :: u64) = ucast (NOT v)" by (simp add: mask_eq_exp_minus_1)
  from assms have "run_code H (jit_emit_sum helper [Xori JIT_R1 JIT_R1 0xFF] sz) m =
      run_code H (jit_emit_sum helper [] sz) (put_reg JIT_R1 (Word (ucast (NOT v))) m)"
    by (simp add: jit_emit_sum_def x)
  with assms run_sum_binary [of "put_reg JIT_R1 (Word (ucast (NOT v))) m" "NOT v" H helper sz] show ?thesis by simp
qed

lemma run_sum_decimal:
  assumes "mr m JIT_R0 = Emu_ptr" "mr m JIT_V0 = Emu_ptr" "mr m JIT_R1 = Word (ucast v)" "num m JIT_R1 = ucast v"
    and "flag P_DECIMAL (memu m)" "operand = [] \<or> operand = [Xori JIT_R1 JIT_R1 0xFF]"
  shows "matches (run_code H (jit_emit_sum FN_rk65c02_do_adc_bcd operand sz) m)
     (Ret Fall (set_PC (rPC (regs (memu m)) + ucast sz) (rk65c02_do_adc_bcd v (memu m))))"
    "matches (run_code H (jit_emit_sum FN_rk65c02_do_sbc_bcd operand sz) m)
     (Ret Fall (set_PC (rPC (regs (memu m)) + ucast sz) (rk65c02_do_sbc_bcd v (memu m))))"
  using assms by (auto simp: jit_emit_sum_def Let_def ready_def)

lemma sum_rows:
  assumes "decoded bi"
  shows "opcode (bi_i bi) \<in> set [0x69, 0x65, 0x75, 0x6D, 0x7D, 0x79, 0x61, 0x71, 0x72] \<Longrightarrow> row_is bi EMUL_ADC"
    "opcode (bi_i bi) \<in> set [0xE9, 0xE5, 0xF5, 0xED, 0xFD, 0xF9, 0xE1, 0xF1, 0xF2] \<Longrightarrow> row_is bi EMUL_SBC"
  using assms by (auto simp: row_is_def instruction_modify_pc_def decode_rows)

lemma native_adc:
  assumes "decoded bi" "jit_emit_adc bi = Some c"
  shows "native_ok H bi c (\<lambda>_. Fall)"
  using assms(2) unfolding jit_emit_adc_def Let_def
  apply (elim pick)
   apply (hypsubst, rule native_operand [OF _ sum_rows(1) [OF assms(1)]], assumption, assumption, simp add: operand_fns_def)
   apply (simp add: operand_op_def run_sum_binary run_sum_decimal)
  apply simp
  done

lemma native_sbc:
  assumes "decoded bi" "jit_emit_sbc bi = Some c"
  shows "native_ok H bi c (\<lambda>_. Fall)"
  using assms(2) unfolding jit_emit_sbc_def Let_def
  apply (elim pick)
   apply (hypsubst, rule native_operand [OF _ sum_rows(2) [OF assms(1)]], assumption, assumption, simp add: operand_fns_def)
   apply (simp add: operand_op_def run_sum_binary_not run_sum_decimal)
  apply simp
  done

section \<open>Stores\<close>

abbreviation bail :: "'h emu \<Rightarrow> jit_exit" where
  "bail e \<equiv> (if use_jit e then Fall else Leave_block)"

lemma address_regs:
  assumes "host_keeps regs H" "instruction_data_address H idf i e = Ret a e'"
  shows "regs e' = regs e"
  using regs_view.kept_data_address [OF assms(1) refl, where idf = idf and i = i and e = e] assms(2) by simp

lemma native_store_row:
  assumes H: "host_keeps regs H" and row: "row_is bi f" "mode (bi_id bi) \<noteq> IMMEDIATE"
    and c: "jit_emit_effaddr bi = Some c"
    and call: "\<And>e. emul_call f H (bi_id bi) (bi_i bi) e = instruction_data_write_1 H (bi_id bi) (bi_i bi) (val (regs e)) e"
    and code: "\<And>m. mr m JIT_R0 = Emu_ptr \<Longrightarrow>
       jit_step H ld m = Ret None (put_reg JIT_R2 (Word (ucast (val (regs (memu m))))) m)"
  shows "native_ok H bi (c @ [ld] @ jit_emit_bus_write @ jit_emit_advance_pc (isize (bi_id bi)) @
    jit_emit_bail_if_jit_disabled) bail"
proof -
  have wr: "instruction_data_write_1 H (bi_id bi) (bi_i bi) v e =
      andthen (instruction_data_address H (bi_id bi) (bi_i bi) e) (\<lambda>a e. rk65c02_mem_write_1 H a v e)" for v e
    using row by (simp add: instruction_data_write_1_def row_is_def)
  show ?thesis
    unfolding native_ok_def row_step(2) [OF row(1)] call wr andthen_assoc
    apply (intro allI impI)
    apply (rule matches_effaddr [OF _ c], assumption)
      apply (use row in \<open>simp add: row_is_def\<close>)
     apply (rule refl)
    apply (drule address_regs [OF H])
    apply (simp add: code)
    apply (rule matches_write, simp, simp, simp, simp, simp, simp, simp)
    apply (simp add: ready_def)
    done
qed

lemma store_rows:
  assumes "decoded bi"
  shows "opcode (bi_i bi) \<in> set [0x85, 0x95, 0x8D, 0x9D, 0x99, 0x81, 0x91, 0x92] \<Longrightarrow> row_is bi EMUL_STA \<and> mode (bi_id bi) \<noteq> IMMEDIATE"
    "opcode (bi_i bi) \<in> set [0x86, 0x96, 0x8E] \<Longrightarrow> row_is bi EMUL_STX \<and> mode (bi_id bi) \<noteq> IMMEDIATE"
    "opcode (bi_i bi) \<in> set [0x84, 0x94, 0x8C] \<Longrightarrow> row_is bi EMUL_STY \<and> mode (bi_id bi) \<noteq> IMMEDIATE"
    "opcode (bi_i bi) \<in> set [0x64, 0x74, 0x9C, 0x9E] \<Longrightarrow> row_is bi EMUL_STZ \<and> mode (bi_id bi) \<noteq> IMMEDIATE"
  using assms by (auto simp: row_is_def instruction_modify_pc_def decode_rows)

lemma native_store:
  assumes "host_keeps regs H" "decoded bi" "jit_emit_store bi = Some c"
  shows "native_ok H bi c bail"
  using assms(3) unfolding jit_emit_store_def Let_def
  apply (elim pick)
      apply (drule store_rows(1) [OF assms(2)], hypsubst, rule native_store_row [OF assms(1), of _ EMUL_STA _ rA];
      simp add: emul_sta_def)
     apply (drule store_rows(2) [OF assms(2)], hypsubst, rule native_store_row [OF assms(1), of _ EMUL_STX _ rX];
      simp add: emul_stx_def)
    apply (drule store_rows(3) [OF assms(2)], hypsubst, rule native_store_row [OF assms(1), of _ EMUL_STY _ rY];
      simp add: emul_sty_def)
   apply (drule store_rows(4) [OF assms(2)], hypsubst, rule native_store_row [OF assms(1), of _ EMUL_STZ _ "\<lambda>_. 0"];
      simp add: emul_stz_def)
  apply simp
  done

end
