(* ===== verification/NativeInsn.thy ===== *)
theory NativeInsn
  imports NativeOps
begin

text \<open>
  Native code against the interpreter, continued: instructions that read, change and write
  memory, stack instructions, jumps, and the theorem for every instruction that has native code.
\<close>

declare bit_numeral_word_iff [simp del]

section \<open>Read, modify, write\<close>

lemma widen_mask_more [simp]:
  fixes p :: u8
  shows "(ucast p :: u64) AND 0xFD = ucast (p AND 0xFD)" "(ucast p :: u64) AND 0x3D = ucast (p AND 0x3D)"
    "(ucast p :: u64) AND 0x01 = ucast (p AND P_CARRY)"
  by (rule widen_and, simp)+

lemma widen_xor: "(ucast (p :: u8) :: u64) XOR 0xFF = ucast (p XOR 0xFF)"
  using unsigned_xor_eq [of p "0xFF", where ?'a = u64] by simp

definition fixed_mode :: "instrdef \<Rightarrow> bool" where
  "fixed_mode idf \<longleftrightarrow> mode idf \<in> {ZP, ZPX, ABSOLUTE, ABSOLUTEX}"

lemma fixed_address:
  assumes "fixed_mode idf" "instruction_data_address H idf i e = Ret a e1"
  shows "e1 = e" "rX (regs e2) = rX (regs e) \<Longrightarrow> instruction_data_address H idf i e2 = Ret a e2"
  using assms by (auto simp: fixed_mode_def instruction_data_address_def)

lemma fixed_write:
  assumes "fixed_mode idf" "instruction_data_address H idf i e = Ret a e"
  shows "instruction_data_write_1 H idf i v e = rk65c02_mem_write_1 H a v e"
  using assms by (auto simp: fixed_mode_def instruction_data_write_1_def)

lemma read_regs:
  assumes "host_keeps regs H" "rk65c02_mem_read_1 H a e = Ret v e'"
  shows "regs e' = regs e"
  using regs_view.kept_read_1 [OF assms(1) refl, of e a] assms(2) by simp

lemma matches_rmw:
  fixes m :: "'h mach"
  assumes H: "host_keeps regs H" and pl: "fixed_mode (bi_id bi)" and c: "jit_emit_effaddr bi = Some c"
    and rest: "\<And>v m' w. regs (memu m') = regs (memu m) \<Longrightarrow> mr m' JIT_R0 = Emu_ptr \<Longrightarrow> mr m' JIT_V0 = Emu_ptr \<Longrightarrow>
       mr m' JIT_R1 = Word (ucast v) \<Longrightarrow> num m' JIT_R1 = ucast v \<Longrightarrow> mr m' JIT_V1 = Word w \<Longrightarrow>
       (\<And>e2 x. rX (regs e2) = rX (regs (memu m')) \<Longrightarrow>
          instruction_data_write_1 H (bi_id bi) (bi_i bi) x e2 = rk65c02_mem_write_1 H (ucast w) x e2) \<Longrightarrow>
       matches (run_code H rest m') (f v (memu m'))"
    and m: "ready m"
  shows "matches (run_code H (c @ Movr JIT_V1 JIT_R1 # jit_emit_bus_read @ rest) m)
    (andthen (instruction_data_read_1 H (bi_id bi) (bi_i bi) (memu m)) f)"
proof -
  have read: "instruction_data_read_1 H (bi_id bi) (bi_i bi) e =
      andthen (instruction_data_address H (bi_id bi) (bi_i bi) e) (rk65c02_mem_read_1 H)" for e
    using pl by (auto simp: instruction_data_read_1_def fixed_mode_def)
  have md: "mode (bi_id bi) \<notin> {IMMEDIATE, ACCUMULATOR}"
    using pl by (auto simp: fixed_mode_def)
  show ?thesis
    unfolding read andthen_assoc
  proof (rule matches_effaddr [OF m c md refl])
    fix a w and e' :: "'h emu" and m' :: "'h mach"
    assume a: "instruction_data_address H (bi_id bi) (bi_i bi) (memu m) = Ret a e'" and "memu m' = e'"
      and r: "mr m' JIT_R0 = Emu_ptr" "mr m' JIT_V0 = Emu_ptr" "mr m' JIT_R1 = Word w" "ucast w = a"
    then have e: "memu m' = memu m" "e' = memu m" using fixed_address(1) [OF pl a] by simp_all
    have wr: "instruction_data_write_1 H (bi_id bi) (bi_i bi) x e2 = rk65c02_mem_write_1 H a x e2"
      if "rX (regs e2) = rX (regs (memu m))" for e2 x
      using fixed_write [OF pl fixed_address(2) [OF pl a that]] .
    show "matches (run_code H (Movr JIT_V1 JIT_R1 # jit_emit_bus_read @ rest) m')
      (andthen (rk65c02_mem_read_1 H a e') f)"
      unfolding e(2) using r
      apply simp
      apply (rule matches_read, simp, simp, simp, simp, simp add: e)
      subgoal for v e1 m1
        using rest [of m1 v w] read_regs [OF H, of a "memu m" v e1] wr by (simp add: num_def)
      done
  qed
qed

lemma incdec_mem_rows:
  assumes "decoded bi"
  shows "opcode (bi_i bi) \<in> set [0xE6, 0xF6, 0xEE, 0xFE] \<Longrightarrow> row_is bi EMUL_INC \<and> fixed_mode (bi_id bi)"
    "opcode (bi_i bi) \<in> set [0xC6, 0xD6, 0xCE, 0xDE] \<Longrightarrow> row_is bi EMUL_DEC \<and> fixed_mode (bi_id bi)"
  using assms by (auto simp: row_is_def fixed_mode_def instruction_modify_pc_def decode_rows)

lemma native_incdec_mem:
  assumes H: "host_keeps regs H" and "decoded bi" "jit_emit_incdec_mem bi = Some c"
  shows "native_ok H bi c bail"
proof -
  have *: "native_ok H bi c bail"
    if c: "jit_emit_effaddr bi = Some z"
      "c = z @ [Movr JIT_V1 JIT_R1] @ jit_emit_bus_read @ [f JIT_R1 JIT_R1 1, Andi JIT_R1 JIT_R1 0xFF,
        Movr JIT_V2 JIT_R1, Movr JIT_R2 JIT_R1, Movr JIT_R1 JIT_V1] @ jit_emit_bus_write @
        [Movr JIT_R1 JIT_V2] @ jit_emit_update_zn @ jit_emit_advance_pc (isize (bi_id bi)) @
        jit_emit_bail_if_jit_disabled"
      and f: "row_is bi EMUL_INC \<and> f = Addi \<or> row_is bi EMUL_DEC \<and> f = Subi" "fixed_mode (bi_id bi)" for z f
    unfolding native_ok_def c(2) using f(1)
    apply (elim disjE conjE)
     apply (simp_all add: row_step(2) emul_inc_def emul_dec_def andthen_assoc)
     apply (intro allI impI, rule matches_rmw [OF H f(2) c(1)], simp add: Let_def andthen_assoc)
      apply (rule matches_write, simp, simp, simp, simp, simp, simp, simp)
      apply (simp_all add: ready_def)
    apply (intro allI impI, rule matches_rmw [OF H f(2) c(1)], simp add: Let_def andthen_assoc)
     apply (rule matches_write, simp, simp, simp, simp, simp, simp, simp)
     apply (simp_all add: ready_def)
    done
  from assms(3) show ?thesis
    unfolding jit_emit_incdec_mem_def Let_def
    apply (elim pick)
      apply (drule incdec_mem_rows(1) [OF assms(2)], rule *, assumption, assumption, simp, simp)
     apply (drule incdec_mem_rows(2) [OF assms(2)], rule *, assumption, assumption, simp, simp)
    apply simp
    done
qed

text \<open>The other instructions of this kind set flags before they write.\<close>

lemma native_rmw:
  assumes H: "host_keeps regs H" and row: "row_is bi f" "fixed_mode (bi_id bi)" and z: "jit_emit_effaddr bi = Some z"
    and call: "\<And>e. emul_call f H (bi_id bi) (bi_i bi) e = andthen (instruction_data_read_1 H (bi_id bi) (bi_i bi) e)
      (\<lambda>v e. instruction_data_write_1 H (bi_id bi) (bi_i bi) (val v e) (pre v e))"
    and pre: "\<And>v e. rX (regs (pre v e)) = rX (regs e)"
    and mid: "\<And>m v w. mr m JIT_R0 = Emu_ptr \<Longrightarrow> mr m JIT_V0 = Emu_ptr \<Longrightarrow> mr m JIT_R1 = Word (ucast v) \<Longrightarrow>
      num m JIT_R1 = ucast v \<Longrightarrow> mr m JIT_V1 = Word w \<Longrightarrow>
      \<exists>m'. run_code H (mid @ jit_emit_bus_write @ rest) m = run_code H (jit_emit_bus_write @ rest) m' \<and>
        memu m' = pre v (memu m) \<and> mr m' JIT_R0 = Emu_ptr \<and> mr m' JIT_V0 = Emu_ptr \<and> mr m' JIT_R1 = Word w \<and>
        mr m' JIT_R2 = Word (ucast (val v (memu m)))"
    and rest: "rest = jit_emit_advance_pc (isize (bi_id bi)) @ jit_emit_bail_if_jit_disabled"
  shows "native_ok H bi (z @ [Movr JIT_V1 JIT_R1] @ jit_emit_bus_read @ mid @ jit_emit_bus_write @ rest) bail"
  unfolding native_ok_def row_step(2) [OF row(1)] call andthen_assoc append_Cons append_Nil
  apply (intro allI impI)
  apply (rule matches_rmw [OF H row(2) z])
   apply (drule (4) mid, elim exE conjE)
   apply (simp add: pre)
   apply (rule matches_write, assumption, assumption, assumption, assumption, simp, simp, assumption)
   apply (simp_all add: rest ready_def)
  done

lemma bitmem_rows:
  assumes "decoded bi"
  shows "opcode (bi_i bi) \<in> set [0x07, 0x17, 0x27, 0x37, 0x47, 0x57, 0x67, 0x77] \<Longrightarrow>
      row_is bi (EMUL_RMB (opcode_bit (opcode (bi_i bi)))) \<and> fixed_mode (bi_id bi)"
    "opcode (bi_i bi) \<in> set [0x87, 0x97, 0xA7, 0xB7, 0xC7, 0xD7, 0xE7, 0xF7] \<Longrightarrow>
      row_is bi (EMUL_SMB (opcode_bit (opcode (bi_i bi)))) \<and> fixed_mode (bi_id bi)"
  using assms by (auto simp: row_is_def fixed_mode_def instruction_modify_pc_def decode_rows opcode_bit_def bit_numeral_word_iff)

lemma native_bitmem:
  assumes H: "host_keeps regs H" and "decoded bi" "jit_emit_bitmem bi = Some c"
  shows "native_ok H bi c bail"
  using assms(3) unfolding jit_emit_bitmem_def Let_def
  apply (elim pick)
    apply (drule bitmem_rows(1) [OF assms(2)], elim conjE, hypsubst,
      rule native_rmw [OF H, where pre = "\<lambda>v e. e" and val = "\<lambda>v e. v AND NOT (push_bit (opcode_bit (opcode (bi_i bi))) 1)"],
      assumption, assumption, assumption, simp add: emul_rmb_def, simp,
      simp, rule exI, rule conjI, rule refl, simp add: unsigned_and_eq, simp)
   apply (drule bitmem_rows(2) [OF assms(2)], elim conjE, hypsubst,
      rule native_rmw [OF H, where pre = "\<lambda>v e. e" and val = "\<lambda>v e. v OR push_bit (opcode_bit (opcode (bi_i bi))) 1"],
      assumption, assumption, assumption, simp add: emul_smb_def, simp,
      simp, rule exI, rule conjI, rule refl, simp add: unsigned_or_eq, simp)
  apply simp
  done

text \<open>TRB and TSB set the zero flag from the accumulator and the operand.\<close>

lemma zero_flag:
  "(if x \<noteq> 0 then flag_clear P_ZERO e else flag_set P_ZERO e) =
     set_P (if x \<noteq> 0 then rP (regs e) AND 0xFD else (rP (regs e) AND 0xFD) OR P_ZERO) e"
proof -
  have "rP (regs e) AND 0xFD OR P_ZERO = rP (regs e) OR P_ZERO" "rP (regs e) AND NOT P_ZERO = rP (regs e) AND 0xFD"
    by (rule byte_eqI; simp add: bits)+
  then show ?thesis by (simp only: flag_clear_def flag_set_def if_split) simp
qed

lemma testbits_rows:
  assumes "decoded bi"
  shows "opcode (bi_i bi) \<in> set [0x14, 0x1C] \<Longrightarrow> row_is bi EMUL_TRB \<and> fixed_mode (bi_id bi)"
    "opcode (bi_i bi) \<in> set [0x04, 0x0C] \<Longrightarrow> row_is bi EMUL_TSB \<and> fixed_mode (bi_id bi)"
  using assms by (auto simp: row_is_def fixed_mode_def instruction_modify_pc_def decode_rows)

definition testbits_code :: "jit_op list \<Rightarrow> jit_op list" where
  "testbits_code op =
     [Movr JIT_V2 JIT_R1,
      Ldxi_uc JIT_R2 JIT_R0 OFFSET_E_P,
      Andi JIT_R2 JIT_R2 (ucast (NOT P_ZERO)),
      Ldxi_uc JIT_R1 JIT_R0 OFFSET_E_A,
      Andr JIT_R1 JIT_R1 JIT_V2,
      Bnei JIT_R1 0 (Node 0),
      Ori JIT_R2 JIT_R2 (ucast P_ZERO),
      Patch 0,
      Stxi_c OFFSET_E_P JIT_R0 JIT_R2,
      Ldxi_uc JIT_R2 JIT_R0 OFFSET_E_A] @ op @ [Movr JIT_R1 JIT_V1]"

lemma native_testbits_row:
  assumes "host_keeps regs H" "fixed_mode (bi_id bi)" "jit_emit_effaddr bi = Some z"
  shows "row_is bi EMUL_TRB \<Longrightarrow> native_ok H bi (z @ [Movr JIT_V1 JIT_R1] @ jit_emit_bus_read @
      testbits_code [Xori JIT_R2 JIT_R2 0xFF, Andr JIT_R2 JIT_V2 JIT_R2] @ jit_emit_bus_write @
      jit_emit_advance_pc (isize (bi_id bi)) @ jit_emit_bail_if_jit_disabled) bail"
    "row_is bi EMUL_TSB \<Longrightarrow> native_ok H bi (z @ [Movr JIT_V1 JIT_R1] @ jit_emit_bus_read @
      testbits_code [Orr JIT_R2 JIT_V2 JIT_R2] @ jit_emit_bus_write @
      jit_emit_advance_pc (isize (bi_id bi)) @ jit_emit_bail_if_jit_disabled) bail"
  subgoal
    by (rule native_rmw [OF assms(1) _ assms(2,3), where val = "\<lambda>v e. v AND (rA (regs e) XOR 0xFF)" and
        pre = "\<lambda>v e. if rA (regs e) AND v \<noteq> 0 then flag_clear P_ZERO e else flag_set P_ZERO e"],
        assumption, simp add: emul_trb_def zero_flag Let_def set_P_def, simp add: zero_flag set_P_def,
        simp add: testbits_code_def zero_flag widen_xor flip: unsigned_and_eq, intro conjI impI)
      ((rule exI, rule conjI, rule refl, simp)+, simp)
  subgoal
    by (rule native_rmw [OF assms(1) _ assms(2,3), where val = "\<lambda>v e. v OR rA (regs e)" and
        pre = "\<lambda>v e. if rA (regs e) AND v \<noteq> 0 then flag_clear P_ZERO e else flag_set P_ZERO e"],
        assumption, simp add: emul_tsb_def zero_flag Let_def set_P_def, simp add: zero_flag set_P_def,
        simp add: testbits_code_def zero_flag flip: unsigned_and_eq unsigned_or_eq, intro conjI impI)
      ((rule exI, rule conjI, rule refl, simp)+, simp)
  done

lemma native_testbits:
  assumes H: "host_keeps regs H" and "decoded bi" "jit_emit_testbits bi = Some c"
  shows "native_ok H bi c bail"
proof -
  from assms(3) obtain z where z: "jit_emit_effaddr bi = Some z" and op: "opcode (bi_i bi) \<in> set [0x14, 0x1C, 0x04, 0x0C]"
    and c: "c = z @ [Movr JIT_V1 JIT_R1] @ jit_emit_bus_read @ testbits_code
      (if opcode (bi_i bi) \<in> set [0x14, 0x1C] then [Xori JIT_R2 JIT_R2 0xFF, Andr JIT_R2 JIT_V2 JIT_R2]
       else [Orr JIT_R2 JIT_V2 JIT_R2]) @ jit_emit_bus_write @
      jit_emit_advance_pc (isize (bi_id bi)) @ jit_emit_bail_if_jit_disabled"
    unfolding jit_emit_testbits_def Let_def by (elim pick) (simp_all add: testbits_code_def)
  show ?thesis
  proof (cases "opcode (bi_i bi) \<in> set [0x14, 0x1C]")
    case True
    with native_testbits_row(1) [OF H _ z] testbits_rows(1) [OF assms(2)] c show ?thesis by simp
  next
    case False
    with op have "opcode (bi_i bi) \<in> set [0x04, 0x0C]" by auto
    with False native_testbits_row(2) [OF H _ z] testbits_rows(2) [OF assms(2)] c show ?thesis by simp
  qed
qed

section \<open>Shifts\<close>

definition shift_val :: "emul_fn \<Rightarrow> u8 \<Rightarrow> u8 \<Rightarrow> u8" where
  "shift_val f v p =
     (case f of
        EMUL_ASL \<Rightarrow> push_bit 1 v
      | EMUL_LSR \<Rightarrow> drop_bit 1 v
      | EMUL_ROL \<Rightarrow> push_bit 1 v OR (p AND P_CARRY)
      | EMUL_ROR \<Rightarrow> drop_bit 1 v OR push_bit 7 (p AND P_CARRY)
      | _ \<Rightarrow> v)"

definition shift_out :: "emul_fn \<Rightarrow> u8 \<Rightarrow> bool" where
  "shift_out f v = (if f = EMUL_ASL \<or> f = EMUL_ROL then bit v 7 else bit v 0)"

definition shift_flags :: "emul_fn \<Rightarrow> u8 \<Rightarrow> 'h emu \<Rightarrow> 'h emu" where
  "shift_flags f v e = status_zn (shift_val f v (rP (regs e))) (flag_put P_CARRY (shift_out f v) e)"

lemma rotate_bit:
  fixes x p :: u8
  shows "\<not> bit x 0 \<Longrightarrow> (if bit p 0 then x OR 0x1 else x AND NOT 0x1) = x OR (p AND P_CARRY)"
    "\<not> bit x 7 \<Longrightarrow> (if bit p 0 then x OR 0x80 else x AND NOT 0x80) = x OR push_bit 7 (p AND P_CARRY)"
  by (rule byte_eqI; simp add: bits bit_push_bit_iff)+

lemma shift_call:
  "emul_asl H idf i e = andthen (instruction_data_read_1 H idf i e) (\<lambda>v e.
     instruction_data_write_1 H idf i (shift_val EMUL_ASL v (rP (regs e))) (shift_flags EMUL_ASL v e))"
  "emul_lsr H idf i e = andthen (instruction_data_read_1 H idf i e) (\<lambda>v e.
     instruction_data_write_1 H idf i (shift_val EMUL_LSR v (rP (regs e))) (shift_flags EMUL_LSR v e))"
  "emul_rol H idf i e = andthen (instruction_data_read_1 H idf i e) (\<lambda>v e.
     instruction_data_write_1 H idf i (shift_val EMUL_ROL v (rP (regs e))) (shift_flags EMUL_ROL v e))"
  "emul_ror H idf i e = andthen (instruction_data_read_1 H idf i e) (\<lambda>v e.
     instruction_data_write_1 H idf i (shift_val EMUL_ROR v (rP (regs e))) (shift_flags EMUL_ROR v e))"
proof -
  have "\<not> bit (push_bit 1 v :: u8) 0" "\<not> bit (drop_bit 1 v :: u8) 7" for v
    by (simp_all add: bit_push_bit_iff bit_drop_bit_eq del: push_bit_Suc) (auto dest: bit_imp_le_length)
  then have rot: "(if flag P_CARRY e then push_bit 1 v OR 0x1 else push_bit 1 v AND NOT 0x1) = shift_val EMUL_ROL v (rP (regs e))"
    "(if flag P_CARRY e then drop_bit 1 v OR 0x80 else drop_bit 1 v AND NOT 0x80) = shift_val EMUL_ROR v (rP (regs e))"
    for v :: u8 and e :: "'a emu"
    by (simp_all only: shift_val_def emul_fn.case rotate_bit and_flag simp_thms)
  show "emul_asl H idf i e = andthen (instruction_data_read_1 H idf i e) (\<lambda>v e.
     instruction_data_write_1 H idf i (shift_val EMUL_ASL v (rP (regs e))) (shift_flags EMUL_ASL v e))"
    "emul_lsr H idf i e = andthen (instruction_data_read_1 H idf i e) (\<lambda>v e.
     instruction_data_write_1 H idf i (shift_val EMUL_LSR v (rP (regs e))) (shift_flags EMUL_LSR v e))"
    by (simp_all add: emul_asl_def emul_lsr_def shift_val_def shift_out_def shift_flags_def Let_def)
  show "emul_rol H idf i e = andthen (instruction_data_read_1 H idf i e) (\<lambda>v e.
     instruction_data_write_1 H idf i (shift_val EMUL_ROL v (rP (regs e))) (shift_flags EMUL_ROL v e))"
    "emul_ror H idf i e = andthen (instruction_data_read_1 H idf i e) (\<lambda>v e.
     instruction_data_write_1 H idf i (shift_val EMUL_ROR v (rP (regs e))) (shift_flags EMUL_ROR v e))"
    unfolding emul_rol_def emul_ror_def Let_def rot by (simp_all add: shift_out_def shift_flags_def)
qed

abbreviation carry_code :: "u64 \<Rightarrow> jit_op list" where
  "carry_code m \<equiv> [Andi JIT_R2 JIT_R2 (NOT (ucast P_CARRY)), Bmci JIT_R1 m (Node 0), Ori JIT_R2 JIT_R2 (ucast P_CARRY),
     Patch 0, Stxi_c OFFSET_E_P JIT_R0 JIT_R2]"

lemma carry_set: "flag_put P_CARRY c e = set_P (if c then rP (regs e) AND - 2 OR P_CARRY else rP (regs e) AND - 2) e"
proof -
  have "rP (regs e) AND - 2 OR P_CARRY = rP (regs e) OR P_CARRY" by (rule byte_eqI) (simp_all add: bits)
  then show ?thesis by (simp add: flag_put_def flag_set_def flag_clear_def)
qed

lemma shift_words [simp]:
  "(ucast ((x :: u64) * 2) :: u8) = ucast x * 2"
  "drop_bit n (ucast (v :: u8) :: u64) = ucast (drop_bit n v)"
  "push_bit 7 (ucast (p AND P_CARRY) :: u64) = ucast (push_bit 7 (p AND P_CARRY) :: u8)"
  subgoal using narrow_8(1) [of x x] by (simp only: mult_2_right)
  subgoal by (rule bit_word_eqI) (auto simp: bit_unsigned_iff bit_drop_bit_eq dest: bit_imp_le_length)
  subgoal by (rule bit_word_eqI) (auto simp: bit_unsigned_iff bit_push_bit_iff bit_and_iff dest: bit_imp_le_length)
  done

lemma zn_A: "status_zn v (set_A a e) = set_A a (status_zn v e)"
  by (simp add: status_zn_set set_A_def set_P_def)

lemma shift_acc_rows:
  assumes "decoded bi"
  shows "opcode (bi_i bi) = 0x0A \<Longrightarrow> emul (bi_id bi) = Some EMUL_ASL \<and> mode (bi_id bi) = ACCUMULATOR \<and> \<not> instruction_modify_pc (bi_id bi)"
    "opcode (bi_i bi) = 0x4A \<Longrightarrow> emul (bi_id bi) = Some EMUL_LSR \<and> mode (bi_id bi) = ACCUMULATOR \<and> \<not> instruction_modify_pc (bi_id bi)"
    "opcode (bi_i bi) = 0x2A \<Longrightarrow> emul (bi_id bi) = Some EMUL_ROL \<and> mode (bi_id bi) = ACCUMULATOR \<and> \<not> instruction_modify_pc (bi_id bi)"
    "opcode (bi_i bi) = 0x6A \<Longrightarrow> emul (bi_id bi) = Some EMUL_ROR \<and> mode (bi_id bi) = ACCUMULATOR \<and> \<not> instruction_modify_pc (bi_id bi)"
  using assms by (auto simp: instruction_modify_pc_def decode_rows)

lemma native_shift_acc:
  assumes "decoded bi" "jit_emit_shift_acc bi = Some c"
  shows "native_ok H bi c (\<lambda>_. Fall)"
  using assms(2) unfolding jit_emit_shift_acc_def Let_def
  apply (auto split: if_split_asm dest!: shift_acc_rows [OF assms(1)] simp: native_ok_def insn_step_def emul_dispatch_def shift_call
     instruction_data_read_1_def write_acc shift_val_def shift_out_def shift_flags_def pc_increment ready_def carry_set widen_bit zn_A widen_or)
  done

lemma shift_mem_rows:
  assumes "decoded bi"
  shows "opcode (bi_i bi) \<in> set [0x06, 0x16, 0x0E, 0x1E] \<Longrightarrow> row_is bi EMUL_ASL \<and> fixed_mode (bi_id bi)"
    "opcode (bi_i bi) \<in> set [0x46, 0x56, 0x4E, 0x5E] \<Longrightarrow> row_is bi EMUL_LSR \<and> fixed_mode (bi_id bi)"
    "opcode (bi_i bi) \<in> set [0x26, 0x36, 0x2E, 0x3E] \<Longrightarrow> row_is bi EMUL_ROL \<and> fixed_mode (bi_id bi)"
    "opcode (bi_i bi) \<in> set [0x66, 0x76, 0x6E, 0x7E] \<Longrightarrow> row_is bi EMUL_ROR \<and> fixed_mode (bi_id bi)"
  using assms by (auto simp: row_is_def fixed_mode_def instruction_modify_pc_def decode_rows)

definition shift_mid :: "emul_fn \<Rightarrow> jit_op list" where
  "shift_mid f = [Ldxi_uc JIT_R2 JIT_R0 OFFSET_E_P] @
     (case f of
        EMUL_ASL \<Rightarrow> carry_code 0x80 @ [Lshi JIT_R1 JIT_R1 1, Andi JIT_R1 JIT_R1 0xFF]
      | EMUL_LSR \<Rightarrow> carry_code 0x01 @ [Rshi_u JIT_R1 JIT_R1 1]
      | EMUL_ROL \<Rightarrow> [Andi JIT_V2 JIT_R2 (ucast P_CARRY)] @ carry_code 0x80 @
          [Lshi JIT_R1 JIT_R1 1, Orr JIT_R1 JIT_R1 JIT_V2, Andi JIT_R1 JIT_R1 0xFF]
      | _ \<Rightarrow> [Andi JIT_V2 JIT_R2 (ucast P_CARRY), Lshi JIT_V2 JIT_V2 7] @ carry_code 0x01 @
          [Rshi_u JIT_R1 JIT_R1 1, Orr JIT_R1 JIT_R1 JIT_V2]) @
     [Movr JIT_V2 JIT_R1] @ jit_emit_update_zn @ [Movr JIT_R1 JIT_V1, Movr JIT_R2 JIT_V2]"

lemma run_shift_mid:
  assumes "mr m JIT_R0 = Emu_ptr" "mr m JIT_V0 = Emu_ptr" "mr m JIT_R1 = Word (ucast v)"
    "num m JIT_R1 = ucast v" "mr m JIT_V1 = Word w" and f: "f \<in> {EMUL_ASL, EMUL_LSR, EMUL_ROL, EMUL_ROR}"
  shows "\<exists>m'. run_code H (shift_mid f @ rest) m = run_code H rest m' \<and>
        memu m' = shift_flags f v (memu m) \<and> mr m' JIT_R0 = Emu_ptr \<and> mr m' JIT_V0 = Emu_ptr \<and> mr m' JIT_R1 = Word w \<and>
        mr m' JIT_R2 = Word (ucast (shift_val f v (rP (regs (memu m)))))"
  using f assms(1-5)
  apply (elim insertE emptyE)
     apply (simp_all add: shift_mid_def carry_set widen_bit shift_val_def shift_out_def shift_flags_def widen_or)
     apply (safe, (rule exI, rule conjI, rule refl, simp)+)
  done

lemma native_shift_row:
  assumes H: "host_keeps regs H" and "fixed_mode (bi_id bi)" "jit_emit_effaddr bi = Some z" "row_is bi f"
    and f: "f \<in> {EMUL_ASL, EMUL_LSR, EMUL_ROL, EMUL_ROR}"
  shows "native_ok H bi (z @ [Movr JIT_V1 JIT_R1] @ jit_emit_bus_read @ shift_mid f @ jit_emit_bus_write @
      jit_emit_advance_pc (isize (bi_id bi)) @ jit_emit_bail_if_jit_disabled) bail"
proof (rule native_rmw [OF H assms(4,2,3), where val = "\<lambda>v e. shift_val f v (rP (regs e))" and pre = "shift_flags f"])
  show "emul_call f H (bi_id bi) (bi_i bi) e = andthen (instruction_data_read_1 H (bi_id bi) (bi_i bi) e)
    (\<lambda>v e. instruction_data_write_1 H (bi_id bi) (bi_i bi) (shift_val f v (rP (regs e))) (shift_flags f v e))" for e
    using f by (auto simp: shift_call)
qed (simp_all add: shift_flags_def run_shift_mid [OF _ _ _ _ _ f, unfolded shift_flags_def])

lemma native_shift_mem:
  assumes H: "host_keeps regs H" and bi: "decoded bi" and "jit_emit_shift_mem bi = Some c"
  shows "native_ok H bi c bail"
  using assms(3) unfolding jit_emit_shift_mem_def Let_def
  apply (elim pick)
      apply (drule shift_mem_rows(1) [OF bi], use native_shift_row [OF H, of bi _ EMUL_ASL] in \<open>simp add: shift_mid_def\<close>)
     apply (drule shift_mem_rows(2) [OF bi], use native_shift_row [OF H, of bi _ EMUL_LSR] in \<open>simp add: shift_mid_def\<close>)
    apply (drule shift_mem_rows(3) [OF bi], use native_shift_row [OF H, of bi _ EMUL_ROL] in \<open>simp add: shift_mid_def\<close>)
   apply (drule shift_mem_rows(4) [OF bi], use native_shift_row [OF H, of bi _ EMUL_ROR] in \<open>simp add: shift_mid_def\<close>)
  apply simp
  done

section \<open>BIT\<close>

text \<open>
  The handler of BIT reads its memory operand twice, native code once. They agree where a read
  has no effect and does not depend on the status register.
\<close>

definition steady :: "'h host \<Rightarrow> 'h emu \<Rightarrow> bool" where
  "steady H e \<longleftrightarrow> (\<exists>f. \<forall>a p. rk65c02_mem_read_1 H a (set_P p e) = Ret (f a) (set_P p e))"

lemma set_P_same: "set_P (rP (regs e)) e = e"
  by (simp add: set_P_def)

lemma steady_operand:
  assumes "steady H e" "fixed_mode idf" "instruction_data_read_1 H idf i e = Ret v e'"
  shows "e' = e" "instruction_data_read_1 H idf i (set_P p e) = Ret v (set_P p e)"
proof -
  obtain f where f: "\<And>a p. rk65c02_mem_read_1 H a (set_P p e) = Ret (f a) (set_P p e)"
    using assms(1) by (auto simp: steady_def)
  obtain a where a: "instruction_data_address H idf i e = Ret a e" "instruction_data_address H idf i (set_P p e) = Ret a (set_P p e)" for p
    using assms(2) by (force simp: fixed_mode_def instruction_data_address_def set_P_def)
  have r: "instruction_data_read_1 H idf i x = andthen (instruction_data_address H idf i x) (rk65c02_mem_read_1 H)" for x
    using assms(2) by (auto simp: fixed_mode_def instruction_data_read_1_def)
  from f [of _ "rP (regs e)"] a assms(3) have "v = f a" "e' = e" by (simp_all add: r set_P_same)
  then show "e' = e" "instruction_data_read_1 H idf i (set_P p e) = Ret v (set_P p e)" by (simp_all add: r a f)
qed

definition bit_P :: "u8 \<Rightarrow> u8 \<Rightarrow> u8 \<Rightarrow> u8" where
  "bit_P a v p =
     (let p = p AND 0x3D; p = (if a AND v \<noteq> 0 then p else p OR P_ZERO);
          p = (if bit v 7 then p OR P_NEGATIVE else p)
      in if bit v 6 then p OR P_SIGN_OVERFLOW else p)"

lemma bit_handler:
  assumes "instruction_data_read_1 H idf i e = Ret v e'"
  shows "mode idf = IMMEDIATE \<Longrightarrow> emul_bit H idf i e =
      Ret () (set_P (if rA (regs e') AND v \<noteq> 0 then rP (regs e') AND 0xFD else (rP (regs e') AND 0xFD) OR P_ZERO) e')"
    "steady H e \<Longrightarrow> fixed_mode idf \<Longrightarrow> emul_bit H idf i e = Ret () (set_P (bit_P (rA (regs e)) v (rP (regs e))) e)"
proof -
  show "mode idf = IMMEDIATE \<Longrightarrow> emul_bit H idf i e =
      Ret () (set_P (if rA (regs e') AND v \<noteq> 0 then rP (regs e') AND 0xFD else (rP (regs e') AND 0xFD) OR P_ZERO) e')"
    using assms by (simp only: emul_bit_def andthen.simps Let_def zero_flag simp_thms if_False)
  assume s: "steady H e" "fixed_mode idf"
  note op = steady_operand [OF s assms]
  from s(2) have md: "mode idf \<noteq> IMMEDIATE" by (auto simp: fixed_mode_def)
  let ?e = "set_P (if rA (regs e) AND v \<noteq> 0 then rP (regs e) AND 0xFD else (rP (regs e) AND 0xFD) OR P_ZERO) e"
  have *: "emul_bit H idf i e = Ret () (flag_put P_NEGATIVE (v AND push_bit 7 1 \<noteq> 0) (flag_put P_SIGN_OVERFLOW (v AND push_bit 6 1 \<noteq> 0) ?e))"
    using md unfolding emul_bit_def assms op(1) andthen.simps Let_def zero_flag op(2) by simp
  have "bit_P (rA (regs e)) v (rP (regs e)) =
      rP (regs (flag_put P_NEGATIVE (v AND push_bit 7 1 \<noteq> 0) (flag_put P_SIGN_OVERFLOW (v AND push_bit 6 1 \<noteq> 0) ?e)))"
    by (rule byte_eqI) (simp_all add: bit_P_def bits set_P_def Let_def)
  then show "emul_bit H idf i e = Ret () (set_P (bit_P (rA (regs e)) v (rP (regs e))) e)"
    unfolding * by (simp add: flag_put_def flag_set_def flag_clear_def set_P_def)
qed

lemma bit_rows:
  assumes "decoded bi"
  shows "opcode (bi_i bi) \<in> set [0x89, 0x24, 0x34, 0x2C, 0x3C] \<Longrightarrow> row_is bi EMUL_BIT \<and>
    (opcode (bi_i bi) = 0x89 \<and> mode (bi_id bi) = IMMEDIATE \<or> opcode (bi_i bi) \<noteq> 0x89 \<and> fixed_mode (bi_id bi))"
  using assms by (auto simp: row_is_def fixed_mode_def instruction_modify_pc_def decode_rows)

definition bit_effect :: "jit_block_insn \<Rightarrow> u8 \<Rightarrow> 'h emu \<Rightarrow> 'h emu" where
  "bit_effect bi v e = set_P
     (if opcode (bi_i bi) = 0x89
      then (if rA (regs e) AND v \<noteq> 0 then rP (regs e) AND 0xFD else (rP (regs e) AND 0xFD) OR P_ZERO)
      else bit_P (rA (regs e)) v (rP (regs e))) e"

lemma native_bit_run:
  assumes bi: "decoded bi" and c: "jit_emit_bit bi = Some c" and m: "ready m"
  shows "matches (run_code H c m) (andthen (instruction_data_read_1 H (bi_id bi) (bi_i bi) (memu m)) (\<lambda>v e.
    Ret Fall (set_PC (rPC (regs e) + ucast (isize (bi_id bi))) (bit_effect bi v e))))"
proof -
  obtain z where z: "jit_emit_load_operand bi = Some z" and opc: "opcode (bi_i bi) \<in> set [0x89, 0x24, 0x34, 0x2C, 0x3C]"
    using c unfolding jit_emit_bit_def Let_def by (elim pick) simp_all
  have acc: "mode (bi_id bi) \<noteq> ACCUMULATOR" using bit_rows [OF bi opc] by (simp add: row_is_def)
  show ?thesis
  proof (cases "opcode (bi_i bi) = 0x89")
    case True
    with c z have c: "c = z @ [Ldxi_uc JIT_R2 JIT_R0 OFFSET_E_A, Ldxi_uc JIT_V1 JIT_R0 OFFSET_E_P, Andi JIT_V1 JIT_V1 0xFD,
        Andr JIT_R2 JIT_R2 JIT_R1, Bnei JIT_R2 0 (Node 0), Ori JIT_V1 JIT_V1 2, Patch 0,
        Stxi_c OFFSET_E_P JIT_R0 JIT_V1] @ jit_emit_advance_pc (isize (bi_id bi))"
      by (simp add: jit_emit_bit_def)
    show ?thesis
      unfolding c by (rule matches_load [OF m z acc refl]) (simp add: True bit_effect_def ready_def flip: unsigned_and_eq)
  next
    case False
    with c z opc have c: "c = z @ [Ldxi_uc JIT_R2 JIT_R0 OFFSET_E_A, Ldxi_uc JIT_V1 JIT_R0 OFFSET_E_P, Andi JIT_V1 JIT_V1 0x3D,
        Andr JIT_R2 JIT_R2 JIT_R1, Bnei JIT_R2 0 (Node 0), Ori JIT_V1 JIT_V1 2, Patch 0,
        Bmci JIT_R1 0x80 (Node 1), Ori JIT_V1 JIT_V1 0x80, Patch 1, Bmci JIT_R1 0x40 (Node 2), Ori JIT_V1 JIT_V1 0x40, Patch 2,
        Stxi_c OFFSET_E_P JIT_R0 JIT_V1] @ jit_emit_advance_pc (isize (bi_id bi))"
      by (auto simp add: jit_emit_bit_def)
    show ?thesis
      unfolding c by (rule matches_load [OF m z acc refl])
        (simp add: False bit_effect_def ready_def bit_P_def widen_bit flip: unsigned_and_eq)
  qed
qed

lemma native_bit:
  assumes bi: "decoded bi" and c: "jit_emit_bit bi = Some c" and m: "ready m"
    and s: "opcode (bi_i bi) \<noteq> 0x89 \<Longrightarrow> steady H (memu m)"
  shows "matches (run_code H c m) (andthen (insn_step H bi (memu m)) (\<lambda>_ e. Ret Fall e))"
proof -
  have opc: "opcode (bi_i bi) \<in> set [0x89, 0x24, 0x34, 0x2C, 0x3C]"
    using c unfolding jit_emit_bit_def Let_def by (elim pick) simp_all
  note row = bit_rows [OF bi opc]
  have "emul_bit H (bi_id bi) (bi_i bi) (memu m) =
      andthen (instruction_data_read_1 H (bi_id bi) (bi_i bi) (memu m)) (\<lambda>v e. Ret () (bit_effect bi v e))"
  proof (cases "instruction_data_read_1 H (bi_id bi) (bi_i bi) (memu m)")
    case (Ret v e)
    then show ?thesis
      using row s bit_handler [OF Ret] steady_operand(1) [OF _ _ Ret] by (auto simp: bit_effect_def)
  qed (simp_all add: emul_bit_def)
  with row row_step(2) [of bi EMUL_BIT H "memu m"] native_bit_run [OF bi c m, of H] show ?thesis
    by (simp add: andthen_assoc bit_effect_def)
qed

section \<open>Stack\<close>

lemma matches_push:
  assumes "mr m JIT_R0 = Emu_ptr" "mr m JIT_V0 = Emu_ptr" "mr m JIT_R1 = Word w" "mr m JIT_R2 = Word x"
    and a: "memu m = e" "ucast w = (STACK_START + ucast (rSP (regs e)) :: u16)" "ucast x = v"
    and rest: "\<And>e' m'. memu m' = e' \<Longrightarrow> mr m' JIT_R0 = Emu_ptr \<Longrightarrow> mr m' JIT_V0 = Emu_ptr \<Longrightarrow>
       mr m' JIT_R1 = Word (ucast (rSP (regs e'))) \<Longrightarrow> mr m' JIT_V2 = mr m JIT_V2 \<Longrightarrow>
       matches (run_code H rest m') (f () e')"
  shows "matches (run_code H (jit_emit_bus_write @ Ldxi_uc JIT_R1 JIT_R0 OFFSET_E_SP # Subi JIT_R1 JIT_R1 1 #
      Andi JIT_R1 JIT_R1 0xFF # Stxi_c OFFSET_E_SP JIT_R0 JIT_R1 # rest) m) (andthen (stack_push H v e) f)"
  unfolding stack_push_def andthen_assoc
  apply (rule matches_write [OF assms(1-4,6,7,5)])
  apply simp
  apply (rule rest, simp add: set_SP_def, simp_all)
  done

lemma matches_pop:
  assumes "mr m JIT_R0 = Emu_ptr" "mr m JIT_V0 = Emu_ptr" "memu m = e"
    and rest: "\<And>v e' m'. memu m' = e' \<Longrightarrow> mr m' JIT_R0 = Emu_ptr \<Longrightarrow> mr m' JIT_V0 = Emu_ptr \<Longrightarrow>
       mr m' JIT_R1 = Word (ucast v) \<Longrightarrow> num m' JIT_R1 = ucast v \<Longrightarrow> mr m' JIT_V1 = mr m JIT_V1 \<Longrightarrow>
       matches (run_code H rest m') (f v e')"
  shows "matches (run_code H (jit_emit_pop @ rest) m) (andthen (stack_pop H e) f)"
  unfolding stack_pop_def Let_def jit_emit_pop_def
  using assms(1-3)
  apply simp
  apply (rule matches_read, simp, simp, simp, simp, simp add: set_SP_def)
  apply (rule rest, simp_all add: num_def)
  done

lemma native_push:
  assumes bi: "decoded bi" and c: "jit_emit_push bi = Some c"
  shows "native_ok H bi c bail"
  using c bi unfolding jit_emit_push_def Let_def
  apply (auto simp: native_ok_def decode_rows insn_step_def emul_dispatch_def instruction_modify_pc_def pc_increment andthen_assoc
      emul_pha_def emul_phx_def emul_phy_def emul_php_def ready_def split: if_split_asm)
     apply (rule matches_push, simp, simp, simp, simp, simp, subst add.commute, simp, simp, simp add: ready_def)+
  done

lemma native_pull:
  assumes bi: "decoded bi" and c: "jit_emit_pull bi = Some c"
  shows "native_ok H bi c (\<lambda>_. Fall)"
proof -
  have m: "(18446744073709551599 :: u8) = - 17" by simp
  show ?thesis
  using c bi unfolding jit_emit_pull_def Let_def
  apply (auto simp: native_ok_def decode_rows insn_step_def emul_dispatch_def instruction_modify_pc_def pc_increment andthen_assoc
      emul_pla_def emul_plx_def emul_ply_def emul_plp_def ready_def m split: if_split_asm intro!: matches_pop)
  done
qed

section \<open>Jumps\<close>

lemma bitbranch_rows:
  assumes "decoded bi"
  shows "opcode (bi_i bi) \<in> set [0x0F, 0x1F, 0x2F, 0x3F, 0x4F, 0x5F, 0x6F, 0x7F] \<Longrightarrow>
      emul (bi_id bi) = Some (EMUL_BBR (opcode_bit (opcode (bi_i bi)))) \<and> mode (bi_id bi) = ZPR \<and> isize (bi_id bi) = 3 \<and>
      instruction_modify_pc (bi_id bi) \<and> opcode (bi_i bi) AND 0x80 = 0 \<and> opcode_bit (opcode (bi_i bi)) < 8"
    "opcode (bi_i bi) \<in> set [0x8F, 0x9F, 0xAF, 0xBF, 0xCF, 0xDF, 0xEF, 0xFF] \<Longrightarrow>
      emul (bi_id bi) = Some (EMUL_BBS (opcode_bit (opcode (bi_i bi)))) \<and> mode (bi_id bi) = ZPR \<and> isize (bi_id bi) = 3 \<and>
      instruction_modify_pc (bi_id bi) \<and> opcode (bi_i bi) AND 0x80 \<noteq> 0 \<and> opcode_bit (opcode (bi_i bi)) < 8"
  using assms by (auto simp: instruction_modify_pc_def decode_rows opcode_bit_def bit_numeral_word_iff)

lemma narrow_signed: "(ucast (scast (v :: u8) :: u64) :: u16) = scast v"
  by (rule bit_word_eqI) (simp add: bit_unsigned_iff bit_signed_iff)

lemma native_bitbranch:
  assumes bi: "decoded bi" and c: "jit_emit_bitbranch bi = Some c"
  shows "native_ok H bi c (\<lambda>_. Fall)"
proof -
  let ?opc = "opcode (bi_i bi)"
  have opc: "?opc \<in> set [0x0F, 0x1F, 0x2F, 0x3F, 0x4F, 0x5F, 0x6F, 0x7F] \<or> ?opc \<in> set [0x8F, 0x9F, 0xAF, 0xBF, 0xCF, 0xDF, 0xEF, 0xFF]"
    and c: "c = Movi JIT_R1 (ucast (op1 (bi_i bi))) # jit_emit_bus_read @
      (if ?opc AND 0x80 \<noteq> 0 then Bmsi JIT_R1 (ucast (push_bit (opcode_bit ?opc) 1 :: u8)) (Node 0)
       else Bmci JIT_R1 (ucast (push_bit (opcode_bit ?opc) 1 :: u8)) (Node 0)) #
      jit_emit_advance_pc (isize (bi_id bi)) @
      [Jmpi (Node 1), Patch 0, Ldxi_us JIT_R1 JIT_R0 OFFSET_E_PC,
       Addi JIT_R1 JIT_R1 (ucast (isize (bi_id bi)) + scast (op2 (bi_i bi))), Andi JIT_R1 JIT_R1 0xFFFF,
       Stxi_s OFFSET_E_PC JIT_R0 JIT_R1, Patch 1]"
    using c by (auto simp: jit_emit_bitbranch_def Let_def split: if_split_asm)
  have test: "(ucast v :: u64) AND ucast (2 ^ n :: u8) = 0 \<longleftrightarrow> v AND 2 ^ n = 0" for v :: u8 and n
    by (simp flip: unsigned_and_eq)
  have sum: "x + (3 + y) = x + y + 3" for x y :: u16
    by simp
  note run = native_ok_def insn_step_def emul_dispatch_def emul_bbr_def emul_bbs_def instruction_data_read_1_def
    instruction_data_address_def c ready_def pc_increment andthen_assoc test sum narrow_signed
  from opc show ?thesis
  proof
    assume "?opc \<in> set [0x0F, 0x1F, 0x2F, 0x3F, 0x4F, 0x5F, 0x6F, 0x7F]"
    from bitbranch_rows(1) [OF bi this] show ?thesis
      by (simp add: run) (intro allI impI, elim conjE, rule matches_read, simp, simp, simp, simp, simp, simp add: run)
  next
    assume "?opc \<in> set [0x8F, 0x9F, 0xAF, 0xBF, 0xCF, 0xDF, 0xEF, 0xFF]"
    from bitbranch_rows(2) [OF bi this] show ?thesis
      by (simp add: run) (intro allI impI, elim conjE, rule matches_read, simp, simp, simp, simp, simp, simp add: run)
  qed
qed

lemma native_bra:
  assumes bi: "decoded bi" and c: "jit_emit_bra bi = Some c"
  shows "native_ok H bi c (\<lambda>_. Fall)"
proof -
  have sum: "x + (2 + y) = x + y + 2" for x y :: u16 by simp
  show ?thesis
    using c bi by (auto simp: jit_emit_bra_def decode_rows native_ok_def insn_step_def emul_dispatch_def emul_bra_def
        instruction_modify_pc_def program_counter_branch_def ready_def narrow_signed sum set_PC_def split: if_split_asm)
qed

lemma native_jump:
  assumes bi: "decoded bi" and c: "jit_emit_jump bi = Some c"
  shows "native_ok H bi c (\<lambda>_. Fall)"
proof -
  have pointer: "push_bit 8 (ucast h) OR ucast l = (ucast l OR push_bit 8 (ucast h) :: u16)" for h l :: u8
    by (rule or.commute)
  show ?thesis
    using c bi unfolding jit_emit_jump_def Let_def
    apply (auto simp: decode_rows native_ok_def insn_step_def emul_dispatch_def emul_jmp_def instruction_modify_pc_def
        ready_def word_operand andthen_assoc split: if_split_asm)
    apply (rule matches_read, simp, simp, simp, simp, simp)
    apply simp
    apply (rule matches_read, simp, simp, simp, simp, simp)
    apply (simp add: ready_def pointer word_operand)
    done
qed

lemma set_PC_again [simp]: "set_PC a (set_PC b e) = set_PC a e"
  by (simp add: set_PC_def)

lemma high_byte: "(ucast (drop_bit 8 (ucast (w :: u16) :: u64)) :: u8) = hi8 w"
  by (rule bit_word_eqI) (auto simp: hi8_def bit_unsigned_iff bit_drop_bit_eq)

lemma lo8_ucast: "lo8 w = ucast w"
  by (rule bit_word_eqI) (auto simp: lo8_def bit_unsigned_iff bit_and_iff bit_mask8_u16)

lemma native_subroutine:
  assumes bi: "decoded bi" and c: "jit_emit_subroutine bi = Some c" and "opcode (bi_i bi) = 0x20"
  shows "native_ok H bi c bail"
  using c bi assms(3) unfolding jit_emit_subroutine_def Let_def
  apply (simp add: decode_rows native_ok_def insn_step_def emul_dispatch_def emul_jsr_def instruction_modify_pc_def
        ready_def word_operand andthen_assoc Let_def)
  apply clarsimp
  apply (rule matches_push, simp, simp, simp, simp, simp, subst add.commute, simp, simp add: high_byte)
  apply simp
  apply (rule matches_push, simp, simp, simp, simp, simp, subst add.commute, simp, simp add: lo8_ucast)
  apply (simp add: ready_def)
  done

lemma native_return:
  assumes bi: "decoded bi" and c: "jit_emit_subroutine bi = Some c" and "opcode (bi_i bi) = 0x60"
  shows "native_ok H bi c (\<lambda>_. Fall)"
  using c bi assms(3) unfolding jit_emit_subroutine_def Let_def
  apply (simp add: decode_rows native_ok_def insn_step_def emul_dispatch_def emul_rts_def instruction_modify_pc_def
        ready_def pc_increment andthen_assoc)
  apply clarsimp
  apply (rule matches_pop, simp, simp, simp)
  apply simp
  apply (rule matches_pop, simp, simp, simp)
  apply (simp add: ready_def or.commute)
  done

section \<open>Every instruction with native code\<close>

text \<open>Conditional branches and the fallback apart, where the code of an instruction leads to.\<close>

definition leaves :: "instrdef \<Rightarrow> bool" where
  "leaves idf \<longleftrightarrow>
     (case emul idf of
        Some EMUL_STA \<Rightarrow> True | Some EMUL_STX \<Rightarrow> True | Some EMUL_STY \<Rightarrow> True | Some EMUL_STZ \<Rightarrow> True
      | Some EMUL_PHA \<Rightarrow> True | Some EMUL_PHX \<Rightarrow> True | Some EMUL_PHY \<Rightarrow> True | Some EMUL_PHP \<Rightarrow> True
      | Some EMUL_JSR \<Rightarrow> True | Some EMUL_TRB \<Rightarrow> True | Some EMUL_TSB \<Rightarrow> True
      | Some (EMUL_RMB n) \<Rightarrow> True | Some (EMUL_SMB n) \<Rightarrow> True
      | Some EMUL_INC \<Rightarrow> mode idf \<noteq> ACCUMULATOR | Some EMUL_DEC \<Rightarrow> mode idf \<noteq> ACCUMULATOR
      | Some EMUL_ASL \<Rightarrow> mode idf \<noteq> ACCUMULATOR | Some EMUL_LSR \<Rightarrow> mode idf \<noteq> ACCUMULATOR
      | Some EMUL_ROL \<Rightarrow> mode idf \<noteq> ACCUMULATOR | Some EMUL_ROR \<Rightarrow> mode idf \<noteq> ACCUMULATOR
      | _ \<Rightarrow> False)"

definition exit_of :: "jit_block_insn \<Rightarrow> 'h emu \<Rightarrow> jit_exit" where
  "exit_of bi e = (if leaves (bi_id bi) \<and> \<not> use_jit e then Leave_block else Fall)"

lemma exits:
  fixes H :: "'h host"
  shows "\<not> leaves (bi_id bi) \<Longrightarrow> native_ok H bi c (\<lambda>_. Fall) \<Longrightarrow> native_ok H bi c (exit_of bi)"
  "leaves (bi_id bi) \<Longrightarrow> native_ok H bi c bail \<Longrightarrow> native_ok H bi c (exit_of bi)"
proof -
  have "leaves (bi_id bi) \<Longrightarrow> (exit_of bi :: 'h emu \<Rightarrow> jit_exit) = bail"
    "\<not> leaves (bi_id bi) \<Longrightarrow> (exit_of bi :: 'h emu \<Rightarrow> jit_exit) = (\<lambda>_. Fall)"
    by (auto simp: exit_of_def)
  then show "\<not> leaves (bi_id bi) \<Longrightarrow> native_ok H bi c (\<lambda>_. Fall) \<Longrightarrow> native_ok H bi c (exit_of bi)"
    "leaves (bi_id bi) \<Longrightarrow> native_ok H bi c bail \<Longrightarrow> native_ok H bi c (exit_of bi)" by simp_all
qed

lemma row_leaves: "row_is bi f \<Longrightarrow> leaves (bi_id bi) \<longleftrightarrow>
    f \<in> {EMUL_STA, EMUL_STX, EMUL_STY, EMUL_STZ, EMUL_PHA, EMUL_PHX, EMUL_PHY, EMUL_PHP, EMUL_JSR, EMUL_TRB, EMUL_TSB,
      EMUL_INC, EMUL_DEC, EMUL_ASL, EMUL_LSR, EMUL_ROL, EMUL_ROR} \<or> (\<exists>n. f = EMUL_RMB n \<or> f = EMUL_SMB n)"
  by (cases f) (simp_all add: row_is_def leaves_def)

lemma stays_operand:
  assumes "decoded bi"
  shows "jit_emit_load bi = Some c \<Longrightarrow> \<not> leaves (bi_id bi)" "jit_emit_logic bi = Some c \<Longrightarrow> \<not> leaves (bi_id bi)"
    "jit_emit_compare bi = Some c \<Longrightarrow> \<not> leaves (bi_id bi)" "jit_emit_adc bi = Some c \<Longrightarrow> \<not> leaves (bi_id bi)"
    "jit_emit_sbc bi = Some c \<Longrightarrow> \<not> leaves (bi_id bi)"
  unfolding jit_emit_load_def jit_emit_logic_def jit_emit_compare_def jit_emit_adc_def jit_emit_sbc_def Let_def
  by (elim pick; (drule load_rows [OF assms] | drule logic_rows [OF assms] | drule compare_rows [OF assms]
      | drule sum_rows [OF assms])?; simp add: row_leaves)+

lemma stays_other:
  assumes "decoded bi"
  shows "jit_emit_nop bi = Some c \<Longrightarrow> \<not> leaves (bi_id bi)" "jit_emit_flags bi = Some c \<Longrightarrow> \<not> leaves (bi_id bi)"
    "jit_emit_transfer bi = Some c \<Longrightarrow> \<not> leaves (bi_id bi)" "jit_emit_incdec bi = Some c \<Longrightarrow> \<not> leaves (bi_id bi)"
    "jit_emit_shift_acc bi = Some c \<Longrightarrow> \<not> leaves (bi_id bi)" "jit_emit_bit bi = Some c \<Longrightarrow> \<not> leaves (bi_id bi)"
    "jit_emit_bitbranch bi = Some c \<Longrightarrow> \<not> leaves (bi_id bi)" "jit_emit_pull bi = Some c \<Longrightarrow> \<not> leaves (bi_id bi)"
    "jit_emit_bra bi = Some c \<Longrightarrow> \<not> leaves (bi_id bi)" "jit_emit_jump bi = Some c \<Longrightarrow> \<not> leaves (bi_id bi)"
    "jit_emit_subroutine bi = Some c \<Longrightarrow> leaves (bi_id bi) \<longleftrightarrow> opcode (bi_i bi) = 0x20"
    "jit_emit_subroutine bi = Some c \<Longrightarrow> opcode (bi_i bi) = 0x20 \<or> opcode (bi_i bi) = 0x60"
  using assms
  by (auto simp: jit_emit_nop_def jit_emit_flags_def jit_emit_transfer_def jit_emit_incdec_def jit_emit_shift_acc_def
      jit_emit_bit_def jit_emit_bitbranch_def jit_emit_pull_def jit_emit_bra_def jit_emit_jump_def
      jit_emit_subroutine_def Let_def leaves_def decode_rows split: if_split_asm)

lemma leaves_writes:
  assumes "decoded bi"
  shows "jit_emit_store bi = Some c \<Longrightarrow> leaves (bi_id bi)" "jit_emit_incdec_mem bi = Some c \<Longrightarrow> leaves (bi_id bi)"
    "jit_emit_shift_mem bi = Some c \<Longrightarrow> leaves (bi_id bi)" "jit_emit_bitmem bi = Some c \<Longrightarrow> leaves (bi_id bi)"
    "jit_emit_testbits bi = Some c \<Longrightarrow> leaves (bi_id bi)" "jit_emit_push bi = Some c \<Longrightarrow> leaves (bi_id bi)"
  using assms
  by (auto simp: jit_emit_store_def jit_emit_incdec_mem_def jit_emit_shift_mem_def jit_emit_bitmem_def
      jit_emit_testbits_def jit_emit_push_def Let_def leaves_def decode_rows split: if_split_asm)

lemma emitted_group:
  assumes "jit_emit_insn as k bi \<noteq> jit_emit_fallback bi"
  shows "Some (jit_emit_insn as k bi) \<in> set (jit_emit_groups as k bi)"
proof -
  obtain c where c: "find (\<lambda>c. c \<noteq> None) (jit_emit_groups as k bi) = Some (Some c)"
    using assms by (auto simp: jit_emit_insn_def split: option.splits)
  then have "Some c \<in> set (jit_emit_groups as k bi)" by (auto simp: find_Some_iff in_set_conv_nth)
  with c show ?thesis by (simp add: jit_emit_insn_def)
qed

lemma native_groups:
  assumes H: "host_keeps regs H" and bi: "decoded bi" and c: "Some c \<in> set (jit_emit_groups as k bi)"
    and "jit_emit_branch as k bi = None" "jit_emit_bit bi = None"
  shows "native_ok H bi c (exit_of bi)"
proof -
  note stays = exits(1) [OF stays_operand(1) [OF bi]] exits(1) [OF stays_operand(2) [OF bi]]
    exits(1) [OF stays_operand(3) [OF bi]] exits(1) [OF stays_operand(4) [OF bi]] exits(1) [OF stays_operand(5) [OF bi]]
    exits(1) [OF stays_other(1) [OF bi]] exits(1) [OF stays_other(2) [OF bi]] exits(1) [OF stays_other(3) [OF bi]]
    exits(1) [OF stays_other(4) [OF bi]] exits(1) [OF stays_other(5) [OF bi]] exits(1) [OF stays_other(7) [OF bi]]
    exits(1) [OF stays_other(8) [OF bi]] exits(1) [OF stays_other(9) [OF bi]] exits(1) [OF stays_other(10) [OF bi]]
  note leave = exits(2) [OF leaves_writes(1) [OF bi]] exits(2) [OF leaves_writes(2) [OF bi]]
    exits(2) [OF leaves_writes(3) [OF bi]] exits(2) [OF leaves_writes(4) [OF bi]] exits(2) [OF leaves_writes(5) [OF bi]]
    exits(2) [OF leaves_writes(6) [OF bi]]
  have sub: "native_ok H bi c (exit_of bi)" if "jit_emit_subroutine bi = Some c"
    using stays_other(11,12) [OF bi that] native_subroutine [OF bi that, where H = H]
      native_return [OF bi that, where H = H] exits [of bi H c] by auto
  from c assms(4,5) consider "jit_emit_nop bi = Some c" | "jit_emit_flags bi = Some c" | "jit_emit_transfer bi = Some c"
    | "jit_emit_incdec bi = Some c" | "jit_emit_load bi = Some c" | "jit_emit_store bi = Some c"
    | "jit_emit_logic bi = Some c" | "jit_emit_adc bi = Some c" | "jit_emit_compare bi = Some c" | "jit_emit_sbc bi = Some c"
    | "jit_emit_incdec_mem bi = Some c" | "jit_emit_shift_acc bi = Some c" | "jit_emit_shift_mem bi = Some c"
    | "jit_emit_bitmem bi = Some c" | "jit_emit_testbits bi = Some c" | "jit_emit_bitbranch bi = Some c"
    | "jit_emit_push bi = Some c" | "jit_emit_pull bi = Some c" | "jit_emit_bra bi = Some c" | "jit_emit_jump bi = Some c"
    | "jit_emit_subroutine bi = Some c"
    by (auto simp: jit_emit_groups_def)
  then show ?thesis
    by cases (blast intro: stays leave sub native_nop native_flags native_transfer native_incdec native_load native_logic
        native_adc native_compare native_sbc native_shift_acc native_bitbranch native_pull native_bra native_jump
        native_store native_incdec_mem native_shift_mem native_bitmem native_testbits native_push H bi)+
qed

lemma matches_leave: "matches r s \<Longrightarrow> leave_mach r = s"
  by (cases r; cases s) (auto simp: leave_mach_def)

lemma native_code_matches:
  assumes H: "host_keeps regs H" and bi: "decoded bi" and m: "ready m"
    and "jit_emit_insn as k bi \<noteq> jit_emit_fallback bi" "jit_emit_branch as k bi = None"
    and s: "emul (bi_id bi) = Some EMUL_BIT \<Longrightarrow> mode (bi_id bi) = IMMEDIATE \<or> steady H (memu m)"
  shows "matches (run_code H (jit_emit_insn as k bi) m)
    (andthen (insn_step H bi (memu m)) (\<lambda>_ e. Ret (exit_of bi e) e))"
proof (cases "jit_emit_bit bi")
  case None
  then show ?thesis
    using native_groups [OF H bi emitted_group [OF assms(4)] assms(5)] m by (simp add: native_ok_def)
next
  case (Some c)
  then have opc: "opcode (bi_i bi) \<in> set [0x89, 0x24, 0x34, 0x2C, 0x3C]"
    unfolding jit_emit_bit_def Let_def by (elim pick) simp_all
  have none: "jit_emit_nop bi = None" "jit_emit_flags bi = None" "jit_emit_transfer bi = None" "jit_emit_incdec bi = None"
    "jit_emit_load bi = None" "jit_emit_store bi = None" "jit_emit_logic bi = None" "jit_emit_adc bi = None"
    "jit_emit_compare bi = None" "jit_emit_sbc bi = None" "jit_emit_incdec_mem bi = None"
    "jit_emit_shift_acc bi = None" "jit_emit_shift_mem bi = None"
    using opc unfolding list.set
    by (elim insertE emptyE; simp add: jit_emit_nop_def jit_emit_flags_def jit_emit_transfer_def jit_emit_incdec_def jit_emit_load_def
        jit_emit_store_def jit_emit_logic_def jit_emit_adc_def jit_emit_compare_def jit_emit_sbc_def
        jit_emit_incdec_mem_def jit_emit_shift_acc_def jit_emit_shift_mem_def)+
  have "jit_emit_insn as k bi = c" by (simp add: jit_emit_insn_def jit_emit_groups_def none Some)
  moreover have "exit_of bi e = Fall" for e :: "'a emu" using stays_other(6) [OF bi Some] by (simp add: exit_of_def)
  moreover have "opcode (bi_i bi) \<noteq> 0x89 \<Longrightarrow> steady H (memu m)"
    using s bit_rows [OF bi opc] by (auto simp: row_is_def fixed_mode_def)
  ultimately show ?thesis using native_bit [OF bi Some m, of H] by simp
qed

lemma enter_mach_regs [simp]:
  "mr (enter_mach H e) JIT_R0 = Emu_ptr" "mr (enter_mach H e) JIT_V0 = Emu_ptr" "memu (enter_mach H e) = e"
  by (simp_all add: enter_mach_def)

end
