(* ===== verification/NativeSafety.thy ===== *)
theory NativeSafety
  imports NativeFrame Samples
begin

text \<open>
  Safety of native code: the code emitted for a block is well typed, so that no run of it takes
  a number for a pointer or a pointer for a number; it always returns; and the tables the
  emission fills do not overflow.
\<close>

section \<open>The JIT stays attached\<close>

interpretation attached_view: read_view "\<lambda>e. jit e = None"
  by unfold_locales simp_all

abbreviation keeps_attached :: "'h host \<Rightarrow> bool" where
  "keeps_attached H \<equiv> host_keeps (\<lambda>e. jit e = None) H"

abbreviation attached :: "'h host \<Rightarrow> 'h emu \<Rightarrow> bool" where
  "attached H e \<equiv> keeps_attached H \<longrightarrow> jit e \<noteq> None"

lemma attached_kept: "attached_view.kept False m \<Longrightarrow> post (\<lambda>_ e. jit e \<noteq> None) (\<lambda>e. jit e \<noteq> None) m"
  by (cases m) simp_all

lemma note_write_attached: "jit e \<noteq> None \<Longrightarrow> keeps_attached H \<Longrightarrow> jit (rk65c02_jit_note_guest_write H a e) \<noteq> None"
  using attached_view.translate_view [of H a MMU_WRITE "access_perm MMU_WRITE" e]
  by (auto simp: rk65c02_jit_note_guest_write_def Let_def jit_translate_paddr_def rk65c02_mmu_translate_cached_def
      split: prod.splits option.splits sum.splits if_splits)

lemma write_attached:
  assumes H: "keeps_attached H" and e: "jit e \<noteq> None"
  shows "post (\<lambda>_ e. jit e \<noteq> None) (\<lambda>e. jit e \<noteq> None) (rk65c02_mem_write_1 H a v e)"
proof -
  let ?P = "\<lambda>e. jit e \<noteq> None"
  obtain r e' where t: "rk65c02_mmu_translate_addr H a MMU_WRITE MMU_PERM_W e = (r, e')" by force
  with attached_view.translate_view [OF H, of a MMU_WRITE MMU_PERM_W e] e have e': "jit e' \<noteq> None" by simp
  have "post (\<lambda>_. ?P) ?P (rk65c02_mem_write_mmu H a v MMU_WRITE e)"
    using e' attached_kept [OF attached_view.kept_fault [OF H, of e']]
    by (cases r) (simp_all add: rk65c02_mem_write_mmu_def t)
  then have "post (\<lambda>_. ?P) ?P
      (case mem_write_1_fn e of
         MEM_DIRECT \<Rightarrow> rk65c02_mem_write_direct H a v MMU_WRITE e
       | MEM_MMU \<Rightarrow> rk65c02_mem_write_mmu H a v MMU_WRITE e)"
    using e by (simp add: rk65c02_mem_write_direct_def split: mem_fn.split)
  then show ?thesis
    unfolding rk65c02_mem_write_1_def by (rule post_seq) (use note_write_attached [OF _ H] in auto)
qed

interpretation attached_irq: irq_inv "attached H" "attached H" H for H
proof
  fix e :: "'a emu" and a v
  let ?I = "attached H"
  assume e: "?I e"
  note kept = attached_kept [OF attached_view.kept_fetch_1] attached_kept [OF attached_view.kept_read_1]
    attached_kept [OF attached_view.kept_stop_error]
  show "post (\<lambda>_. ?I) ?I (rk65c02_mem_fetch_1 H a e)"
    by (rule post_cond [OF access_total(1)]) (use e kept(1) in simp)
  show "post (\<lambda>_. ?I) ?I (rk65c02_mem_read_1 H a e)"
    by (rule post_cond [OF access_total(2)]) (use e kept(2) in simp)
  show "post (\<lambda>_. ?I) ?I (rk65c02_mem_write_1 H a v e)"
    by (rule post_cond [OF access_total(3)]) (use e write_attached in blast)
  show "post (\<lambda>_. ?I) ?I (rk65c02_panic H e)"
    unfolding rk65c02_panic_def
    by (rule post_cond [OF stop_error_total]) (use e kept(3) in simp)
qed (simp_all add: register_defs)

interpretation attached: cpu_inv "attached H" "attached H" H for H
  by unfold_locales (rule attached_irq.post_brk, simp_all add: register_defs)

interpretation attached_native: native_inv "attached H" "attached H" H for H
  by unfold_locales (simp_all add: set_P_def store_stat_def)

section \<open>Types\<close>

text \<open>
  A register holds a number, the pointer to the emulator or the pointer to the statistics;
  \<open>T_any\<close> is a register nobody relies on. Only two registers change their type: \<open>JIT_R0\<close>,
  the emulator pointer that calls do not preserve, and \<open>JIT_R2\<close>, which for a while points to
  the statistics. A typing is the pair of their types.
\<close>

datatype jit_ty = T_word | T_emu | T_stats | T_any

type_synonym typing = "jit_ty \<times> jit_ty"

fun has_ty :: "jit_ty \<Rightarrow> jit_val \<Rightarrow> bool" where
  "has_ty T_any v = True"
| "has_ty T_word (Word w) = True"
| "has_ty T_emu Emu_ptr = True"
| "has_ty T_stats Stats_ptr = True"
| "has_ty _ _ = False"

fun reg_ty :: "typing \<Rightarrow> jit_reg \<Rightarrow> jit_ty" where
  "reg_ty (t, u) JIT_R0 = t"
| "reg_ty (t, u) JIT_R2 = u"
| "reg_ty (t, u) JIT_V0 = T_emu"
| "reg_ty (t, u) _ = T_word"

fun put_ty :: "jit_reg \<Rightarrow> jit_ty \<Rightarrow> typing \<Rightarrow> typing option" where
  "put_ty JIT_R0 t (_, u) = Some (t, u)"
| "put_ty JIT_R2 u (t, _) = Some (t, u)"
| "put_ty r t G = (if t = reg_ty G r then Some G else None)"

text \<open>At the start of every instruction, and where the block is left, only the pointer is needed.\<close>

abbreviation at_label :: typing where
  "at_label \<equiv> (T_emu, T_any)"

fun target_ty :: "typing \<Rightarrow> jit_target \<Rightarrow> typing \<Rightarrow> bool" where
  "target_ty D (Node n) G = (G = D)"
| "target_ty D _ G = (fst G = T_emu)"

definition need :: "bool \<Rightarrow> 'a option \<Rightarrow> 'a option" where
  "need b x = (if b then x else None)"

lemma need_simps [simp]: "need True x = x" "need False x = None" 
  "need b (put_ty d t G) = Some G' \<longleftrightarrow> b \<and> put_ty d t G = Some G'" "need b (Some z) = Some y \<longleftrightarrow> b \<and> y = z"
  by (auto simp: need_def)

definition byte_field :: "emu_field \<Rightarrow> bool" where
  "byte_field f \<longleftrightarrow> f \<in> {OFFSET_E_P, OFFSET_E_A, OFFSET_E_X, OFFSET_E_Y, OFFSET_E_SP}"

definition loadable_byte :: "emu_field \<Rightarrow> bool" where
  "loadable_byte f \<longleftrightarrow> byte_field f \<or> f \<in> {OFFSET_E_USE_JIT, OFFSET_E_IRQ, OFFSET_E_STOP_REQUESTED}"

fun arg_ty :: "typing \<Rightarrow> jit_arg \<Rightarrow> jit_ty" where
  "arg_ty G (Pushargr r) = reg_ty G r"
| "arg_ty G (Pushargi w) = T_word"

fun fun_ty :: "jit_fun \<Rightarrow> jit_ty list" where
  "fun_ty FN_jit_bus_write_1 = [T_emu, T_word, T_word]"
| "fun_ty _ = [T_emu, T_word]"

text \<open>The typing after an instruction, \<open>None\<close> for an ill-typed one; \<open>D\<close> is the typing at patched nodes.\<close>

primrec op_ty :: "typing \<Rightarrow> jit_op \<Rightarrow> typing \<Rightarrow> typing option" where
  "op_ty D (Ldxi_uc d b f) G = need (reg_ty G b = T_emu \<and> loadable_byte f) (put_ty d T_word G)"
| "op_ty D (Ldxi_us d b f) G = need (reg_ty G b = T_emu \<and> f = OFFSET_E_PC) (put_ty d T_word G)"
| "op_ty D (Ldxi_i d b f) G =
     need (reg_ty G b = T_emu \<and> f \<in> {OFFSET_E_STATE, OFFSET_E_LOOP_BUDGET}) (put_ty d T_word G)"
| "op_ty D (Stxi_c f b s) G = need (reg_ty G b = T_emu \<and> reg_ty G s = T_word \<and> byte_field f) (Some G)"
| "op_ty D (Stxi_s f b s) G = need (reg_ty G b = T_emu \<and> reg_ty G s = T_word \<and> f = OFFSET_E_PC) (Some G)"
| "op_ty D (Stxi_i f b s) G = need (reg_ty G b = T_emu \<and> reg_ty G s = T_word \<and> f = OFFSET_E_LOOP_BUDGET) (Some G)"
| "op_ty D (Ldr d b) G = need (reg_ty G b = T_stats) (put_ty d T_word G)"
| "op_ty D (Str b s) G = need (reg_ty G b = T_stats \<and> reg_ty G s = T_word) (Some G)"
| "op_ty D (Movi d w) G = put_ty d T_word G"
| "op_ty D (Movi_stats d) G = put_ty d T_stats G"
| "op_ty D (Movr d s) G = put_ty d (reg_ty G s) G"
| "op_ty D (Addi d s i) G = need (reg_ty G s = T_word) (put_ty d T_word G)"
| "op_ty D (Subi d s i) G = need (reg_ty G s = T_word) (put_ty d T_word G)"
| "op_ty D (Andi d s i) G = need (reg_ty G s = T_word) (put_ty d T_word G)"
| "op_ty D (Ori d s i) G = need (reg_ty G s = T_word) (put_ty d T_word G)"
| "op_ty D (Xori d s i) G = need (reg_ty G s = T_word) (put_ty d T_word G)"
| "op_ty D (Lshi d s n) G = need (reg_ty G s = T_word) (put_ty d T_word G)"
| "op_ty D (Rshi_u d s n) G = need (reg_ty G s = T_word) (put_ty d T_word G)"
| "op_ty D (Eqi d s i) G = need (reg_ty G s = T_word) (put_ty d T_word G)"
| "op_ty D (Addr d s t) G = need (reg_ty G s = T_word \<and> reg_ty G t = T_word) (put_ty d T_word G)"
| "op_ty D (Subr d s t) G = need (reg_ty G s = T_word \<and> reg_ty G t = T_word) (put_ty d T_word G)"
| "op_ty D (Andr d s t) G = need (reg_ty G s = T_word \<and> reg_ty G t = T_word) (put_ty d T_word G)"
| "op_ty D (Orr d s t) G = need (reg_ty G s = T_word \<and> reg_ty G t = T_word) (put_ty d T_word G)"
| "op_ty D (Xorr d s t) G = need (reg_ty G s = T_word \<and> reg_ty G t = T_word) (put_ty d T_word G)"
| "op_ty D (Finishi f as) G = need (map (arg_ty G) as = fun_ty f) (Some (T_word, T_word))"
| "op_ty D (Retval d) G = put_ty d T_word G"
| "op_ty D (Beqi s i t) G = need (reg_ty G s = T_word \<and> target_ty D t G) (Some G)"
| "op_ty D (Bnei s i t) G = need (reg_ty G s = T_word \<and> target_ty D t G) (Some G)"
| "op_ty D (Blei s i t) G = need (reg_ty G s = T_word \<and> target_ty D t G) (Some G)"
| "op_ty D (Bltr_u s r t) G = need (reg_ty G s = T_word \<and> reg_ty G r = T_word \<and> target_ty D t G) (Some G)"
| "op_ty D (Bmci s i t) G = need (reg_ty G s = T_word \<and> target_ty D t G) (Some G)"
| "op_ty D (Bmsi s i t) G = need (reg_ty G s = T_word \<and> target_ty D t G) (Some G)"
| "op_ty D (Jmpi t) G = need (target_ty D t G) (Some D)"
| "op_ty D (Patch n) G = need (G = D) (Some G)"

fun code_ty :: "typing \<Rightarrow> jit_op list \<Rightarrow> typing \<Rightarrow> bool" where
  "code_ty D [] G = (fst G = T_emu)"
| "code_ty D (x # xs) G = (case op_ty D x G of None \<Rightarrow> False | Some G \<Rightarrow> code_ty D xs G)"

section \<open>Well-typed code does not go wrong\<close>

definition typed :: "typing \<Rightarrow> 'h mach \<Rightarrow> bool" where
  "typed G m \<longleftrightarrow> (\<forall>r. has_ty (reg_ty G r) (mr m r))"

lemma has_tyD [simp]:
  "has_ty T_word v \<longleftrightarrow> (\<exists>w. v = Word w)" "has_ty T_emu v \<longleftrightarrow> v = Emu_ptr" "has_ty T_stats v \<longleftrightarrow> v = Stats_ptr"
  by (cases v; simp)+

lemma all_reg: "(\<forall>r. P r) \<longleftrightarrow> P JIT_R0 \<and> P JIT_R1 \<and> P JIT_R2 \<and> P JIT_V0 \<and> P JIT_V1 \<and> P JIT_V2"
proof (intro iffI allI)
  fix r
  assume "P JIT_R0 \<and> P JIT_R1 \<and> P JIT_R2 \<and> P JIT_V0 \<and> P JIT_V1 \<and> P JIT_V2"
  then show "P r" by (cases r) simp_all
qed simp

lemma typed_iff:
  "typed (t, u) m \<longleftrightarrow> has_ty t (mr m JIT_R0) \<and> has_ty u (mr m JIT_R2) \<and> mr m JIT_V0 = Emu_ptr \<and>
     (\<exists>w. mr m JIT_R1 = Word w) \<and> (\<exists>w. mr m JIT_V1 = Word w) \<and> (\<exists>w. mr m JIT_V2 = Word w)"
  unfolding typed_def all_reg by auto

lemma typed_put:
  assumes "typed G m" "put_ty d t G = Some G'" "has_ty t v"
  shows "typed G' (put_reg d v m)"
  using assms by (cases G; cases d) (auto simp: typed_iff split: if_splits)

lemma typed_emu [simp]: "typed G (put_emu e m) = typed G m"
  by (simp add: typed_def)

lemma typed_ret [simp]: "typed G (m\<lparr>mret := w\<rparr>) = typed G m"
  by (simp add: typed_def)

lemma typed_clobber: "typed G m \<Longrightarrow> typed (T_word, T_word) (clobber H m)"
  by (cases G) (simp add: typed_iff clobber_def)

lemma typed_label: "typed G m \<Longrightarrow> fst G = T_emu \<Longrightarrow> typed at_label m"
  by (cases G) (simp add: typed_iff)

lemma typed_args:
  assumes "typed G m" "map (arg_ty G) as = ts"
  shows "list_all2 has_ty ts (map (arg_val m) as)"
proof -
  have "has_ty (arg_ty G a) (arg_val m a)" for a
    using assms(1) by (cases a) (simp_all add: typed_def)
  with assms(2) show ?thesis by (auto simp: list_all2_conv_all_nth)
qed

lemma call_ty:
  assumes "typed G m" "list_all2 has_ty (fun_ty f) vs"
  shows "post (\<lambda>_. typed (T_word, T_word)) (\<lambda>_. True) (jit_call H f vs m)"
proof -
  have ret: "post (\<lambda>_. typed (T_word, T_word)) (\<lambda>_. True)
      (andthen (on_emu m r) (\<lambda>v m. Ret () (clobber H (m\<lparr>mret := g v m\<rparr>))))" if "r \<noteq> Abort" for r and g :: "'b \<Rightarrow> _"
    using that assms(1) by (cases r) (simp_all add: on_emu_def typed_clobber)
  have "rk65c02_exec H e \<noteq> Abort" for e :: "'a emu" using total.post_exec [of H e] by auto
  with assms show ?thesis
    by (cases f) (auto simp: list_all2_Cons1 Let_def typed_clobber jit_mem_read_1_def jit_bus_write_1_def
        jit_exec_fallback_def access_total intro!: ret)
qed

lemma step_ty:
  assumes m: "typed G m" and ty: "op_ty D x G = Some G'" and j: "jit (memu m) \<noteq> None"
  shows "post (\<lambda>t m'. case t of None \<Rightarrow> typed G' m' | Some t \<Rightarrow> m' = m \<and> target_ty D t G) (\<lambda>_. True) (jit_step H x m)"
proof -
  have reg: "reg_ty G r = T_word \<Longrightarrow> \<exists>w. mr m r = Word w" "reg_ty G r = T_emu \<Longrightarrow> mr m r = Emu_ptr"
    "reg_ty G r = T_stats \<Longrightarrow> mr m r = Stats_ptr" for r
    using m by (auto simp: typed_def dest: spec [of _ r])
  have put: "put_ty d T_word G = Some G' \<Longrightarrow> typed G' (put_reg d (Word w) m)"
    "put_ty d T_stats G = Some G' \<Longrightarrow> typed G' (put_reg d Stats_ptr m)"
    "put_ty d (reg_ty G s) G = Some G' \<Longrightarrow> typed G' (put_reg d (mr m s) m)" for d w s
    using typed_put [OF m] m by (simp_all add: typed_def [of G])
  show ?thesis
  proof (cases "\<exists>f as. x = Finishi f as")
    case True
    then obtain f as where x: "x = Finishi f as" by blast
    with ty have "map (arg_ty G) as = fun_ty f" and G': "G' = (T_word, T_word)" by auto
    from call_ty [OF m typed_args [OF m this(1)], of H] show ?thesis
      unfolding x G' by (simp add: post_andthen)
  next
    case False
    with ty j m show ?thesis
      by (cases x) (auto simp: loadable_byte_def byte_field_def load_stat_def
          put dest!: reg)
  qed
qed

lemma ty_after: "code_ty D xs G \<Longrightarrow> fst D = T_emu \<Longrightarrow> code_ty D (after n xs) D"
  by (induction xs arbitrary: G) (auto split: option.splits)

text \<open>
  Running well-typed code from a well-typed machine ends with the emulator pointer in place, or
  by an unwinding from a memory access; never in an instruction without meaning.
\<close>

lemma code_sound:
  fixes m :: "'h mach"
  assumes H: "keeps_attached H" and D: "fst D = T_emu"
  shows "code_ty D xs G \<Longrightarrow> typed G m \<Longrightarrow> jit (memu m) \<noteq> None \<Longrightarrow>
    post (\<lambda>_ m'. typed at_label m' \<and> jit (memu m') \<noteq> None) (\<lambda>_. True) (run_code H xs m)"
proof (induction xs arbitrary: m G rule: measure_induct_rule [where f = length])
  case (less xs)
  let ?Q = "\<lambda>_ m'. typed at_label m' \<and> jit (memu m') \<noteq> None"
  show ?case
  proof (cases xs)
    case Nil
    with less.prems show ?thesis by (simp add: typed_label)
  next
    case (Cons x ys)
    with less.prems(1) obtain G' where x: "op_ty D x G = Some G'" and ys: "code_ty D ys G'"
      by (auto split: option.splits)
    have "post ?Q (\<lambda>_. True) (resume H ys t m')"
      if "case t of None \<Rightarrow> typed G' m' | Some t \<Rightarrow> m' = m \<and> target_ty D t G" "jit (memu m') \<noteq> None" for t m'
      using that less.IH [OF _ ys] less.IH [OF _ ty_after [OF ys D]] less.prems after_length [of _ ys] typed_label [OF less.prems(2)]
      by (cases "(H, ys, t, m')" rule: resume.cases) (auto simp: Cons less_Suc_eq_le)
    moreover have "post (\<lambda>t m'. (case t of None \<Rightarrow> typed G' m' | Some t \<Rightarrow> m' = m \<and> target_ty D t G) \<and> jit (memu m') \<noteq> None)
        (\<lambda>_. True) (jit_step H x m)"
      using step_ty [OF less.prems(2) x less.prems(3), of H] H less.prems(3)
        attached_native.keeps_step [of H m x, unfolded attached_native.keeps_def]
      by (cases "jit_step H x m") simp_all
    ultimately show ?thesis
      unfolding Cons run_code_Cons by (blast intro: post_seq)
  qed
qed

section \<open>The emitted code is well typed\<close>

abbreviation words :: typing where
  "words \<equiv> (T_emu, T_word)"

lemmas fields_ty = loadable_byte_def byte_field_def

lemma helpers_ty [simp]:
  "code_ty D (jit_emit_advance_pc sz @ xs) (T_emu, u) = code_ty D xs (T_emu, u)"
  "code_ty D (jit_emit_bus_read @ xs) (T_emu, u) = code_ty D xs words"
  "code_ty D (jit_emit_bus_write @ xs) words = code_ty D xs words"
  "code_ty D (jit_emit_bail_if_jit_disabled @ xs) (T_emu, u) = code_ty D xs (T_emu, u)"
  "code_ty words (jit_emit_update_zn @ xs) (T_emu, u) = code_ty words xs words"
  "code_ty D (jit_emit_pop @ xs) (T_emu, u) = code_ty D xs words"
  by (simp_all add: jit_emit_advance_pc_def jit_emit_bus_read_def jit_emit_bus_write_def jit_emit_pop_def
      jit_emit_bail_if_jit_disabled_def jit_emit_update_zn_def fields_ty)

lemma last_helpers_ty [simp]:
  "code_ty D (jit_emit_advance_pc sz) (T_emu, u)" "code_ty D jit_emit_bail_if_jit_disabled (T_emu, u)"
  using helpers_ty(1) [of D sz "[]" u] helpers_ty(4) [of D "[]" u] by simp_all

lemma effaddr_ty:
  assumes "jit_emit_effaddr bi = Some c" "code_ty words xs words" "code_ty words xs at_label"
  shows "code_ty words (c @ xs) at_label"
  using assms unfolding jit_emit_effaddr_def Let_def
  by (cases "mode (bi_id bi)") (auto simp: fields_ty)

lemma load_operand_ty:
  assumes "jit_emit_load_operand bi = Some c" "code_ty words xs words" "code_ty words xs at_label"
  shows "code_ty words (c @ xs) at_label"
  using assms effaddr_ty [of bi _ "jit_emit_bus_read @ xs"] effaddr_ty [of bi c xs] unfolding jit_emit_load_operand_def
  by (auto split: option.splits if_splits)

lemma sum_ty:
  assumes "\<And>ys. code_ty words (y @ ys) words = code_ty words ys words" "fun_ty f = [T_emu, T_word]"
  shows "code_ty words (jit_emit_sum f y sz) words" "code_ty words (jit_emit_sum f y sz) at_label"
  by (simp_all add: jit_emit_sum_def fields_ty assms)

lemmas operand_ty = load_operand_ty effaddr_ty

lemma group_ty:
  "jit_emit_nop bi = Some c \<Longrightarrow> code_ty words c at_label" "jit_emit_flags bi = Some c \<Longrightarrow> code_ty words c at_label"
  "jit_emit_transfer bi = Some c \<Longrightarrow> code_ty words c at_label" "jit_emit_incdec bi = Some c \<Longrightarrow> code_ty words c at_label"
  "jit_emit_shift_acc bi = Some c \<Longrightarrow> code_ty words c at_label" "jit_emit_bitbranch bi = Some c \<Longrightarrow> code_ty words c at_label"
  "jit_emit_push bi = Some c \<Longrightarrow> code_ty words c at_label" "jit_emit_pull bi = Some c \<Longrightarrow> code_ty words c at_label"
  "jit_emit_bra bi = Some c \<Longrightarrow> code_ty words c at_label" "jit_emit_jump bi = Some c \<Longrightarrow> code_ty words c at_label"
  "jit_emit_subroutine bi = Some c \<Longrightarrow> code_ty words c at_label" "code_ty words (jit_emit_fallback bi) at_label"
  subgoal by (auto simp: jit_emit_nop_def split: if_splits)
  subgoal by (auto simp: jit_emit_flags_def Let_def fields_ty split: if_splits)
  subgoal by (auto simp: jit_emit_transfer_def Let_def fields_ty split: if_splits)
  subgoal by (auto simp: jit_emit_incdec_def Let_def fields_ty split: if_splits)
  subgoal by (auto simp: jit_emit_shift_acc_def Let_def fields_ty split: if_splits)
  subgoal by (simp add: jit_emit_bitbranch_def Let_def split: if_splits) (auto simp: fields_ty)
  subgoal by (auto simp: jit_emit_push_def Let_def fields_ty split: if_splits)
  subgoal by (auto simp: jit_emit_pull_def Let_def fields_ty split: if_splits)
  subgoal by (auto simp: jit_emit_bra_def Let_def fields_ty split: if_splits)
  subgoal by (auto simp: jit_emit_jump_def Let_def fields_ty split: if_splits)
  subgoal by (auto simp: jit_emit_subroutine_def Let_def fields_ty split: if_splits)
  subgoal by (simp add: jit_emit_fallback_def fields_ty)
  done

lemma operand_group_ty:
  "jit_emit_load bi = Some c \<Longrightarrow> code_ty words c at_label" "jit_emit_store bi = Some c \<Longrightarrow> code_ty words c at_label"
  "jit_emit_logic bi = Some c \<Longrightarrow> code_ty words c at_label" "jit_emit_adc bi = Some c \<Longrightarrow> code_ty words c at_label"
  "jit_emit_compare bi = Some c \<Longrightarrow> code_ty words c at_label" "jit_emit_sbc bi = Some c \<Longrightarrow> code_ty words c at_label"
  "jit_emit_incdec_mem bi = Some c \<Longrightarrow> code_ty words c at_label" "jit_emit_shift_mem bi = Some c \<Longrightarrow> code_ty words c at_label"
  "jit_emit_bit bi = Some c \<Longrightarrow> code_ty words c at_label" "jit_emit_bitmem bi = Some c \<Longrightarrow> code_ty words c at_label"
  "jit_emit_testbits bi = Some c \<Longrightarrow> code_ty words c at_label"
  subgoal by (auto simp: jit_emit_load_def Let_def fields_ty intro!: load_operand_ty split: if_splits)
  subgoal by (auto simp: jit_emit_store_def Let_def fields_ty intro!: effaddr_ty split: if_splits)
  subgoal by (auto simp: jit_emit_logic_def Let_def fields_ty intro!: load_operand_ty split: if_splits)
  subgoal by (auto simp: jit_emit_adc_def sum_ty intro!: load_operand_ty split: if_splits)
  subgoal by (auto simp: jit_emit_compare_def Let_def fields_ty intro!: load_operand_ty split: if_splits)
  subgoal by (auto simp: jit_emit_sbc_def sum_ty intro!: load_operand_ty split: if_splits)
  subgoal by (auto simp: jit_emit_incdec_mem_def Let_def fields_ty intro!: effaddr_ty split: if_splits)
  subgoal by (auto simp: jit_emit_shift_mem_def Let_def fields_ty intro!: effaddr_ty split: if_splits)
  subgoal by (auto simp: jit_emit_bit_def Let_def fields_ty intro!: load_operand_ty split: if_splits)
  subgoal by (auto simp: jit_emit_bitmem_def Let_def fields_ty intro!: effaddr_ty split: if_splits)
  subgoal by (auto simp: jit_emit_testbits_def Let_def fields_ty intro!: effaddr_ty split: if_splits)
  done

text \<open>The code of a conditional branch, up to the test it starts with.\<close>

definition branch_code :: "u16 list \<Rightarrow> nat \<Rightarrow> jit_block_insn \<Rightarrow> (jit_target \<Rightarrow> jit_op) \<Rightarrow> jit_op list" where
  "branch_code insn_addr k bi taken =
     (let sz = isize (bi_id bi); target = insn_addr ! k + ucast sz + scast (op1 (bi_i bi)) in
      [Ldxi_uc JIT_R1 JIT_R0 OFFSET_E_P, taken (Node 0)] @ jit_emit_advance_pc sz @
      [Jmpi (Node 1), Patch 0, Movi JIT_R1 (ucast target), Stxi_s OFFSET_E_PC JIT_R0 JIT_R1] @
      (case target_index target 0 insn_addr of
         None \<Rightarrow> [Jmpi Block_end]
       | Some tidx \<Rightarrow>
           (if tidx \<le> k then jit_emit_backedge_guard (k - tidx + 1) else []) @ [Jmpi (Label tidx)]) @
      [Patch 1])"

lemma branch_shape:
  assumes "jit_emit_branch insn_addr k bi = Some c"
  obtains mask where "c = branch_code insn_addr k bi (Bmci JIT_R1 mask)"
    | mask where "c = branch_code insn_addr k bi (Bmsi JIT_R1 mask)"
  using assms unfolding jit_emit_branch_def branch_code_def Let_def
  by (auto split: if_splits)

lemma guard_ty [simp]: "code_ty D (jit_emit_backedge_guard n @ xs) at_label = code_ty D xs (T_emu, T_stats)"
  by (simp add: jit_emit_backedge_guard_def fields_ty)

lemma branch_ty: "jit_emit_branch insn_addr k bi = Some c \<Longrightarrow> code_ty at_label c at_label"
  by (erule branch_shape) (auto simp: branch_code_def Let_def fields_ty split: option.split)

lemma emitted_cases:
  assumes "jit_emit_insn insn_addr k bi = c"
  obtains "Some c \<in> set (jit_emit_groups insn_addr k bi)" | "c = jit_emit_fallback bi"
proof (cases "find (\<lambda>c. c \<noteq> None) (jit_emit_groups insn_addr k bi)")
  case None
  with assms that(2) show ?thesis by (simp add: jit_emit_insn_def)
next
  case (Some x)
  then have "x \<in> set (jit_emit_groups insn_addr k bi)" "x \<noteq> None"
    by (auto simp: find_Some_iff in_set_conv_nth simp del: not_None_eq)
  with assms that(1) Some show ?thesis by (auto simp: jit_emit_insn_def simp del: not_None_eq)
qed

lemma insn_ty: "\<exists>D. fst D = T_emu \<and> code_ty D (jit_emit_insn insn_addr k bi) at_label"
proof (rule emitted_cases [OF refl, of insn_addr k bi])
  assume "Some (jit_emit_insn insn_addr k bi) \<in> set (jit_emit_groups insn_addr k bi)"
  then show ?thesis
    unfolding jit_emit_groups_def list.set
    by (elim insertE emptyE) (metis fst_conv sym group_ty(1-11) operand_group_ty branch_ty)+
qed (use group_ty(12) in force)

lemma typed_enter: "typed at_label (enter_mach H e)"
  by (simp add: typed_iff enter_mach_def)

lemma block_sound:
  assumes H: "keeps_attached H" and codes: "\<forall>c \<in> set codes. \<exists>D. fst D = T_emu \<and> code_ty D c at_label"
    and run: "run_block H codes k m = Some r" and m: "typed at_label m" "jit (memu m) \<noteq> None"
  shows "r \<noteq> Abort"
proof -
  let ?P = "\<lambda>H' codes' k (m :: 'a mach) r. H' = H \<longrightarrow> codes' = codes \<longrightarrow> typed at_label m \<longrightarrow> jit (memu m) \<noteq> None \<longrightarrow> r \<noteq> Abort"
  have "?P H codes k m r"
  proof (rule run_block.raw_induct [OF _ run, of ?P], intro impI)
    fix f :: "'a host \<Rightarrow> jit_op list list \<Rightarrow> nat \<Rightarrow> 'a mach \<Rightarrow> ('a, unit) mrun option" and H' codes' k and m :: "'a mach" and r
    assume IH: "\<And>H codes k m r. f H codes k m = Some r \<Longrightarrow> ?P H codes k m r" and H': "H' = H" "codes' = codes"
      and m: "typed at_label m" "jit (memu m) \<noteq> None"
    assume body: "(if length codes' \<le> k then Some (Ret () m)
      else case run_code H' (codes' ! k) m of
             Ret Fall m \<Rightarrow> f H' codes' (k + 1) m
           | Ret (Goto t) m \<Rightarrow> f H' codes' t m
           | Ret Leave_block m \<Rightarrow> Some (Ret () m)
           | Longjmp m \<Rightarrow> Some (Longjmp m) | Abort \<Rightarrow> Some Abort) = Some r"
    show "r \<noteq> Abort"
    proof (cases "length codes \<le> k")
      case True
      with body show ?thesis by (auto simp: H')
    next
      case False
      with codes obtain D where "fst D = T_emu" "code_ty D (codes ! k) at_label" by fastforce
      from code_sound [OF H this m] body IH False show ?thesis
        by (auto simp: H' split: outcome.splits jit_exit.splits)
    qed
  qed
  with m show ?thesis by simp
qed

text \<open>A loop for the concrete instances below: INX and a BNE back to it.\<close>

definition sample_loop :: "jit_block_insn list" where
  "sample_loop =
     [\<lparr>bi_i = \<lparr>opcode = 0xE8, op1 = 0, op2 = 0\<rparr>, bi_id = instruction_decode 0xE8\<rparr>,
      \<lparr>bi_i = \<lparr>opcode = 0xD0, op1 = 0xFD, op2 = 0\<rparr>, bi_id = instruction_decode 0xD0\<rparr>]"

text \<open>
  C6. Type safety of native code: whatever instructions a block is compiled from, no run of its
  native code uses a number as a pointer, a pointer as a number, or a field of the emulator at a
  width that is not its own, as long as the host's MMU callbacks do not detach the JIT.
\<close>

theorem native_type_safe:
  assumes "host_keeps (\<lambda>e. jit e = None) H" "jit e \<noteq> None"
  shows "jit_native H pc insns e \<noteq> Some Abort"
proof
  assume "jit_native H pc insns e = Some Abort"
  then obtain r where r: "run_block H (jit_emit_block pc insns) 0 (enter_mach H e) = Some r" "leave_mach r = Abort"
    by (auto simp: jit_native_def)
  then have "run_block H (jit_emit_block pc insns) 0 (enter_mach H e) = Some Abort"
    by (cases r) (simp_all add: leave_mach_def)
  from block_sound [OF assms(1) _ this typed_enter] insn_ty assms(2) show False
    by (auto simp: jit_emit_block_def enter_mach_def)
qed

theorem native_type_safe_witness:
  "host_keeps (\<lambda>e. jit e = None) sample_host \<and> jit (sample_emu (\<lambda>_. 0) 0x200\<lparr>jit := Some jit_backend_create\<rparr>) \<noteq> None \<and>
   jit_native sample_host 0x200 sample_loop (sample_emu (\<lambda>_. 0) 0x200\<lparr>jit := Some jit_backend_create\<rparr>) \<noteq> Some Abort"
  using native_type_safe [OF sample_host_keeps, of "sample_emu (\<lambda>_. 0) 0x200\<lparr>jit := Some jit_backend_create\<rparr>" "0x200" sample_loop]
  by (simp add: sample_host_keeps)

section \<open>The loop budget\<close>

interpretation budget_view: write_view jit_loop_budget
  by unfold_locales simp_all

abbreviation keeps_budget :: "'h host \<Rightarrow> bool" where
  "keeps_budget H \<equiv> host_keeps jit_loop_budget H"

lemma budget_kept: "budget_view.kept b m \<Longrightarrow> post (\<lambda>_ e. jit_loop_budget e = b) (\<lambda>e. jit_loop_budget e = b) m"
  by (cases m) simp_all

interpretation budget_irq: irq_inv "\<lambda>e. keeps_budget H \<longrightarrow> jit_loop_budget e = b" "\<lambda>e. keeps_budget H \<longrightarrow> jit_loop_budget e = b" H for H b
proof
  fix e :: "'a emu" and a v
  let ?I = "\<lambda>e. keeps_budget H \<longrightarrow> jit_loop_budget e = b"
  assume e: "?I e"
  show "post (\<lambda>_. ?I) ?I (rk65c02_mem_fetch_1 H a e)"
    by (rule post_cond [OF access_total(1)]) (use e budget_kept [OF budget_view.kept_fetch_1] in simp)
  show "post (\<lambda>_. ?I) ?I (rk65c02_mem_read_1 H a e)"
    by (rule post_cond [OF access_total(2)]) (use e budget_kept [OF budget_view.kept_read_1] in simp)
  show "post (\<lambda>_. ?I) ?I (rk65c02_mem_write_1 H a v e)"
    by (rule post_cond [OF access_total(3)]) (use e budget_kept [OF budget_view.kept_write_1] in simp)
  show "post (\<lambda>_. ?I) ?I (rk65c02_panic H e)"
    unfolding rk65c02_panic_def
    by (rule post_cond [OF stop_error_total]) (use e budget_kept [OF budget_view.kept_stop_error] in simp)
qed (simp_all add: register_defs)

interpretation budget: cpu_inv "\<lambda>e. keeps_budget H \<longrightarrow> jit_loop_budget e = b" "\<lambda>e. keeps_budget H \<longrightarrow> jit_loop_budget e = b" H for H b
  by unfold_locales (rule budget_irq.post_brk, simp_all add: register_defs)

definition op_target :: "jit_op \<Rightarrow> jit_target option" where
  "op_target x =
     (case x of
        Beqi _ _ t \<Rightarrow> Some t | Bnei _ _ t \<Rightarrow> Some t | Blei _ _ t \<Rightarrow> Some t | Bltr_u _ _ t \<Rightarrow> Some t
      | Bmci _ _ t \<Rightarrow> Some t | Bmsi _ _ t \<Rightarrow> Some t | Jmpi t \<Rightarrow> Some t | _ \<Rightarrow> None)"

text \<open>An instruction that neither jumps to a label nor touches the loop budget.\<close>

definition plain_op :: "jit_op \<Rightarrow> bool" where
  "plain_op x \<longleftrightarrow>
     (case x of Stxi_i _ _ _ \<Rightarrow> False | _ \<Rightarrow> (case op_target x of Some (Label k) \<Rightarrow> False | _ \<Rightarrow> True))"

definition steady_budget :: "u32 \<Rightarrow> ('h, 'a) mrun \<Rightarrow> bool" where
  "steady_budget b r = ends (\<lambda>_ m. jit_loop_budget (memu m) = b) (\<lambda>_. True) r"

lemma budget_on_emu:
  "post (\<lambda>_ e. jit_loop_budget e = b) (\<lambda>e. jit_loop_budget e = b) r \<Longrightarrow>
     steady_budget b (andthen (on_emu m r) (\<lambda>v m. Ret () (clobber H (m\<lparr>mret := g v m\<rparr>))))"
  by (cases r) (simp_all add: on_emu_def steady_budget_def)

lemma budget_call:
  assumes "keeps_budget H" "jit_loop_budget (memu m) = b"
  shows "steady_budget b (jit_call H f vs m)"
  using assms budget_irq.I_read [of H "memu m" b] budget_irq.I_write [of H "memu m" b] budget.post_exec [of H "memu m" b]
  by (cases "(H, f, vs, m)" rule: jit_call.cases)
    (auto simp: Let_def jit_mem_read_1_def jit_bus_write_1_def jit_exec_fallback_def rk65c02_do_adc_bcd_def
      rk65c02_do_sbc_bcd_def register_defs flag_put_def steady_budget_def
      intro!: ends_use budget_on_emu [unfolded steady_budget_def])

lemma budget_stores:
  "store_c f w e = Some e' \<Longrightarrow> jit_loop_budget e' = jit_loop_budget e"
  "store_s f w e = Some e' \<Longrightarrow> jit_loop_budget e' = jit_loop_budget e"
  by (cases f; auto simp: register_defs set_P_def)+

lemma plain_step:
  assumes "keeps_budget H" "plain_op x"
  shows "ends (\<lambda>t m'. jit_loop_budget (memu m') = jit_loop_budget (memu m) \<and> (\<forall>k. t \<noteq> Some (Label k))) (\<lambda>_. True)
    (jit_step H x m)"
  using assms budget_call [OF assms(1) refl, of m]
  by (cases x) (auto simp: plain_op_def op_target_def steady_budget_def store_stat_def budget_stores
      intro!: ends_use ends_andthen [where Q = "\<lambda>_ m'. jit_loop_budget (memu m') = jit_loop_budget (memu m)"]
      split: jit_target.splits)

lemma plain_after: "list_all plain_op xs \<Longrightarrow> list_all plain_op (after n xs)"
  by (induction xs) auto

lemma plain_code:
  fixes m :: "'h mach"
  assumes H: "keeps_budget H"
  shows "list_all plain_op xs \<Longrightarrow>
    ends (\<lambda>x m'. jit_loop_budget (memu m') = jit_loop_budget (memu m) \<and> (\<forall>t. x \<noteq> Goto t)) (\<lambda>_. True) (run_code H xs m)"
proof (induction xs arbitrary: m rule: measure_induct_rule [where f = length])
  case (less xs)
  show ?case
  proof (cases xs)
    case (Cons x ys)
    let ?Q = "\<lambda>x m'. jit_loop_budget (memu m') = jit_loop_budget (memu m) \<and> (\<forall>t. x \<noteq> Goto t)"
    have ys: "list_all plain_op ys" using less.prems Cons by simp
    have "ends ?Q (\<lambda>_. True) (resume H ys t m')"
      if "jit_loop_budget (memu m') = jit_loop_budget (memu m) \<and> (\<forall>k. t \<noteq> Some (Label k))" for t and m' :: "'h mach"
      using that less.IH [of ys m'] less.IH [of "after _ ys" m'] ys plain_after [OF ys] after_length [of _ ys]
      by (cases "(H, ys, t, m')" rule: resume.cases) (auto simp: Cons less_Suc_eq_le)
    with plain_step [OF H, of x m] less.prems show ?thesis
      unfolding Cons run_code_Cons by (auto intro: ends_andthen)
  qed simp
qed

section \<open>The size of the code\<close>

text \<open>
  The emission keeps a list of the branches that leave the block (\<open>bails\<close>, room for
  \<open>JIT_MAX_BAILS\<close>) and one of the jumps to labels (\<open>ijmps\<close>, room for one per
  instruction); entering a branch is guarded by an assertion that there is room.
\<close>

abbreviation JIT_MAX_BAILS :: nat where
  "JIT_MAX_BAILS \<equiv> JIT_BLOCK_MAX_INSNS * 4"

definition nbails :: "jit_op list \<Rightarrow> nat" where
  "nbails c = length (filter (\<lambda>x. op_target x = Some Block_end) c)"

definition nijmps :: "jit_op list \<Rightarrow> nat" where
  "nijmps c = length (filter (\<lambda>x. \<exists>k. op_target x = Some (Label k)) c)"

definition modest :: "jit_op list \<Rightarrow> bool" where
  "modest c \<longleftrightarrow> list_all plain_op c \<and> nbails c \<le> 1"

lemmas size_defs = plain_op_def op_target_def nbails_def nijmps_def

lemma nbails_append [simp]: "nbails (c @ d) = nbails c + nbails d"
  by (simp add: nbails_def)

lemma nbails_Cons [simp]: "nbails (x # c) = (if op_target x = Some Block_end then Suc (nbails c) else nbails c)" "nbails [] = 0"
  by (simp_all add: nbails_def)

lemma nijmps_simps [simp]:
  "nijmps (c @ d) = nijmps c + nijmps d" "nijmps [] = 0"
  "nijmps (x # c) = (if \<exists>k. op_target x = Some (Label k) then Suc (nijmps c) else nijmps c)"
  by (simp_all add: nijmps_def)

lemma helpers_size [simp]:
  "list_all plain_op (jit_emit_advance_pc sz)" "nbails (jit_emit_advance_pc sz) = 0"
  "list_all plain_op jit_emit_bus_read" "nbails jit_emit_bus_read = 0"
  "list_all plain_op jit_emit_bus_write" "nbails jit_emit_bus_write = 0"
  "list_all plain_op jit_emit_bail_if_jit_disabled" "nbails jit_emit_bail_if_jit_disabled = 1"
  "list_all plain_op jit_emit_update_zn" "nbails jit_emit_update_zn = 0"
  "list_all plain_op jit_emit_pop" "nbails jit_emit_pop = 0"
  by (simp_all add: jit_emit_advance_pc_def jit_emit_bus_read_def jit_emit_bus_write_def jit_emit_pop_def
      jit_emit_bail_if_jit_disabled_def jit_emit_update_zn_def size_defs)

lemma effaddr_size: "jit_emit_effaddr bi = Some c \<Longrightarrow> list_all plain_op c \<and> nbails c = 0"
  unfolding jit_emit_effaddr_def Let_def
  by (cases "mode (bi_id bi)") (auto simp: plain_op_def op_target_def)

lemma load_operand_size: "jit_emit_load_operand bi = Some c \<Longrightarrow> list_all plain_op c \<and> nbails c = 0"
  unfolding jit_emit_load_operand_def by (auto dest: effaddr_size split: option.splits if_splits)

lemma sum_size:
  assumes "list_all plain_op y" "nbails y = 0"
  shows "list_all plain_op (jit_emit_sum f y sz)" "nbails (jit_emit_sum f y sz) = 0"
  using assms by (simp_all add: jit_emit_sum_def plain_op_def op_target_def)

lemma group_size:
  "jit_emit_nop bi = Some c \<Longrightarrow> modest c" "jit_emit_flags bi = Some c \<Longrightarrow> modest c"
  "jit_emit_transfer bi = Some c \<Longrightarrow> modest c" "jit_emit_incdec bi = Some c \<Longrightarrow> modest c"
  "jit_emit_shift_acc bi = Some c \<Longrightarrow> modest c" "jit_emit_bitbranch bi = Some c \<Longrightarrow> modest c"
  "jit_emit_push bi = Some c \<Longrightarrow> modest c" "jit_emit_pull bi = Some c \<Longrightarrow> modest c"
  "jit_emit_bra bi = Some c \<Longrightarrow> modest c" "jit_emit_jump bi = Some c \<Longrightarrow> modest c"
  "jit_emit_subroutine bi = Some c \<Longrightarrow> modest c" "modest (jit_emit_fallback bi)"
  subgoal by (auto simp: modest_def jit_emit_nop_def Let_def plain_op_def op_target_def split: if_splits)
  subgoal by (auto simp: modest_def jit_emit_flags_def Let_def plain_op_def op_target_def split: if_splits)
  subgoal by (auto simp: modest_def jit_emit_transfer_def Let_def plain_op_def op_target_def split: if_splits)
  subgoal by (auto simp: modest_def jit_emit_incdec_def Let_def plain_op_def op_target_def split: if_splits)
  subgoal by (auto simp: modest_def jit_emit_shift_acc_def Let_def plain_op_def op_target_def split: if_splits)
  subgoal by (auto simp: modest_def jit_emit_bitbranch_def Let_def plain_op_def op_target_def split: if_splits)
  subgoal by (auto simp: modest_def jit_emit_push_def Let_def plain_op_def op_target_def split: if_splits)
  subgoal by (auto simp: modest_def jit_emit_pull_def Let_def plain_op_def op_target_def split: if_splits)
  subgoal by (auto simp: modest_def jit_emit_bra_def Let_def plain_op_def op_target_def split: if_splits)
  subgoal by (auto simp: modest_def jit_emit_jump_def Let_def plain_op_def op_target_def split: if_splits)
  subgoal by (auto simp: modest_def jit_emit_subroutine_def Let_def plain_op_def op_target_def split: if_splits)
  subgoal by (simp add: modest_def jit_emit_fallback_def plain_op_def op_target_def)
  done

lemma operand_group_size:
  "jit_emit_load bi = Some c \<Longrightarrow> modest c" "jit_emit_store bi = Some c \<Longrightarrow> modest c"
  "jit_emit_logic bi = Some c \<Longrightarrow> modest c" "jit_emit_adc bi = Some c \<Longrightarrow> modest c"
  "jit_emit_compare bi = Some c \<Longrightarrow> modest c" "jit_emit_sbc bi = Some c \<Longrightarrow> modest c"
  "jit_emit_incdec_mem bi = Some c \<Longrightarrow> modest c" "jit_emit_shift_mem bi = Some c \<Longrightarrow> modest c"
  "jit_emit_bit bi = Some c \<Longrightarrow> modest c" "jit_emit_bitmem bi = Some c \<Longrightarrow> modest c"
  "jit_emit_testbits bi = Some c \<Longrightarrow> modest c"
  subgoal by (auto simp: modest_def jit_emit_load_def Let_def plain_op_def op_target_def sum_size dest!: load_operand_size effaddr_size split: if_splits)
  subgoal by (auto simp: modest_def jit_emit_store_def Let_def plain_op_def op_target_def sum_size dest!: load_operand_size effaddr_size split: if_splits)
  subgoal by (auto simp: modest_def jit_emit_logic_def Let_def plain_op_def op_target_def sum_size dest!: load_operand_size effaddr_size split: if_splits)
  subgoal by (auto simp: modest_def jit_emit_adc_def Let_def plain_op_def op_target_def sum_size dest!: load_operand_size effaddr_size split: if_splits)
  subgoal by (auto simp: modest_def jit_emit_compare_def Let_def plain_op_def op_target_def sum_size dest!: load_operand_size effaddr_size split: if_splits)
  subgoal by (auto simp: modest_def jit_emit_sbc_def Let_def plain_op_def op_target_def sum_size dest!: load_operand_size effaddr_size split: if_splits)
  subgoal by (auto simp: modest_def jit_emit_incdec_mem_def Let_def plain_op_def op_target_def sum_size dest!: load_operand_size effaddr_size split: if_splits)
  subgoal by (auto simp: modest_def jit_emit_shift_mem_def Let_def plain_op_def op_target_def sum_size dest!: load_operand_size effaddr_size split: if_splits)
  subgoal by (auto simp: modest_def jit_emit_bit_def Let_def plain_op_def op_target_def sum_size dest!: load_operand_size effaddr_size split: if_splits)
  subgoal by (auto simp: modest_def jit_emit_bitmem_def Let_def plain_op_def op_target_def sum_size dest!: load_operand_size effaddr_size split: if_splits)
  subgoal by (auto simp: modest_def jit_emit_testbits_def Let_def plain_op_def op_target_def sum_size dest!: load_operand_size effaddr_size split: if_splits)
  done

lemma plain_target: "plain_op x \<Longrightarrow> op_target x \<noteq> Some (Label k)"
  by (cases x) (auto simp: plain_op_def op_target_def)

lemma modest_nijmps:
  assumes "modest c"
  shows "nijmps c = 0"
proof -
  from assms have "list_all plain_op c" by (simp add: modest_def)
  then show ?thesis by (induction c) (auto dest: plain_target)
qed

lemma advance_nijmps [simp]: "nijmps (jit_emit_advance_pc sz) = 0"
  by (rule modest_nijmps) (simp add: modest_def)

lemma guard_size [simp]: "nbails (jit_emit_backedge_guard n) = 3" "nijmps (jit_emit_backedge_guard n) = 0"
  by (simp_all add: jit_emit_backedge_guard_def op_target_def)

lemma branch_size:
  assumes "jit_emit_branch insn_addr k bi = Some c"
  shows "nbails c \<le> 3" "nijmps c \<le> 1"
  using assms
  by (auto elim!: branch_shape simp: branch_code_def Let_def op_target_def split: option.split)

lemma group_cases:
  assumes "Some c \<in> set (jit_emit_groups insn_addr k bi)"
  shows "jit_emit_branch insn_addr k bi = Some c \<or> modest c"
  using assms unfolding jit_emit_groups_def list.set
  by (elim insertE emptyE) (metis group_size(1-11) operand_group_size)+

lemma insn_modest: "jit_emit_branch insn_addr k bi = Some (jit_emit_insn insn_addr k bi) \<or> modest (jit_emit_insn insn_addr k bi)"
  by (rule emitted_cases [OF refl, of insn_addr k bi]) (metis group_cases, metis group_size(12))

lemma insn_size: "nbails (jit_emit_insn insn_addr k bi) \<le> 3" "nijmps (jit_emit_insn insn_addr k bi) \<le> 1"
  using insn_modest [of insn_addr k bi] branch_size [of insn_addr k bi "jit_emit_insn insn_addr k bi"]
    modest_nijmps [of "jit_emit_insn insn_addr k bi"] by (auto simp: modest_def)

lemma concat_size:
  assumes "\<And>k. nbails (f k) \<le> 3" "\<And>k. nijmps (f k) \<le> 1"
  shows "nbails (concat (map f [0..<n])) \<le> 3 * n \<and> nijmps (concat (map f [0..<n])) \<le> n"
proof (induction n)
  case (Suc n)
  with assms [of n] show ?case by simp
qed simp

text \<open>
  C29. The tables of the emission never overflow: compiling a block of at most
  \<open>JIT_BLOCK_MAX_INSNS\<close> instructions enters fewer than \<open>JIT_MAX_BAILS\<close> branches that leave
  the block and at most one internal jump per instruction, so the assertions that guard the two
  tables hold.
\<close>

theorem emission_tables_fit:
  assumes "length insns \<le> JIT_BLOCK_MAX_INSNS"
  shows "nbails (concat (jit_emit_block pc insns)) < JIT_MAX_BAILS \<and>
    nijmps (concat (jit_emit_block pc insns)) \<le> JIT_BLOCK_MAX_INSNS"
  using concat_size [of "\<lambda>k. jit_emit_insn (insn_addrs pc insns) k (insns ! k)" "length insns", OF insn_size] assms
  by (simp add: jit_emit_block_def)

theorem emission_tables_fit_witness:
  "length (concat (replicate 32 sample_loop)) \<le> JIT_BLOCK_MAX_INSNS \<and>
   nbails (concat (jit_emit_block 0x200 (concat (replicate 32 sample_loop)))) < JIT_MAX_BAILS \<and>
   nijmps (concat (jit_emit_block 0x200 (concat (replicate 32 sample_loop)))) \<le> JIT_BLOCK_MAX_INSNS"
proof -
  have "length (concat (replicate 32 sample_loop)) \<le> JIT_BLOCK_MAX_INSNS"
    by (simp add: length_concat sum_list_replicate sample_loop_def)
  with emission_tables_fit [OF this, of "0x200"] show ?thesis by simp
qed

section \<open>Native code returns\<close>

text \<open>A back edge takes one from the loop budget and leaves the block when nothing is left.\<close>

lemma budget_word:
  fixes b :: u32
  assumes "\<not> (scast b - 1 :: u64) \<le>s 0"
  shows "0 < sint (ucast (scast b - 1 :: u64) :: u32)" "sint (ucast (scast b - 1 :: u64) :: u32) < sint b"
proof -
  have range: "- (2 ^ 31) \<le> sint b" "sint b < 2 ^ 31"
    using sint_greater_eq [of b] sint_lt [of b] by simp_all
  have "sint (scast b :: u64) = sint b" by (rule sint_up_scast) (simp add: is_up)
  with range have s: "sint (scast b - 1 :: u64) = sint b - 1"
    by (simp add: sint_word_ariths signed_take_bit_int_eq_self)
  with assms have pos: "0 < sint b - 1" by (simp add: word_sle_eq)
  have "(ucast :: u64 \<Rightarrow> u32) = scast" by (rule down_cast_same) (simp add: is_down)
  then have "(ucast (scast b - 1 :: u64) :: u32) = word_of_int (sint b - 1)" by (simp only: scast_eq [of "scast b - 1"] s)
  then have "sint (ucast (scast b - 1 :: u64) :: u32) = sint b - 1"
    using range pos by (simp add: sint_word_ariths signed_take_bit_int_eq_self)
  with pos show "0 < sint (ucast (scast b - 1 :: u64) :: u32)" "sint (ucast (scast b - 1 :: u64) :: u32) < sint b"
    by simp_all
qed
lemma target_index_Some: "target_index a t as = Some i \<Longrightarrow> t \<le> i \<and> i < t + length as \<and> as ! (i - t) = a"
  by (induction a t as rule: target_index.induct) (auto split: if_splits simp: nth_Cons' Suc_diff_Suc)

fun counts_down :: "nat \<Rightarrow> u32 \<Rightarrow> jit_exit \<Rightarrow> u32 \<Rightarrow> bool" where
  "counts_down k b Fall b' = (b' = b)"
| "counts_down k b (Goto t) b' = (k < t \<and> b' = b \<or> 0 < sint b' \<and> sint b' < sint b)"
| "counts_down k b Leave_block b' = True"

lemma counts_plain: "b' = b \<Longrightarrow> (\<forall>t. x \<noteq> Goto t) \<Longrightarrow> counts_down k b x b'"
  by (cases x) simp_all

lemma branch_counts:
  assumes "jit_emit_branch insn_addr k bi = Some c"
  shows "ends (\<lambda>x m'. counts_down k (jit_loop_budget (memu m)) x (jit_loop_budget (memu m'))) (\<lambda>_. True) (run_code H c m)"
proof (cases "mr m JIT_R0")
  case Emu_ptr
  with assms show ?thesis
    by (cases "jit (memu m)") (auto elim!: branch_shape simp: branch_code_def Let_def jit_emit_advance_pc_def
        jit_emit_backedge_guard_def load_stat_def store_stat_def set_PC_def budget_word split: option.split)
qed (use assms in \<open>auto elim!: branch_shape simp: branch_code_def Let_def\<close>)

lemma insn_counts:
  assumes "keeps_budget H"
  shows "ends (\<lambda>x m'. counts_down k (jit_loop_budget (memu m)) x (jit_loop_budget (memu m'))) (\<lambda>_. True)
    (run_code H (jit_emit_insn insn_addr k bi) m)"
  using insn_modest [of insn_addr k bi]
proof
  assume "modest (jit_emit_insn insn_addr k bi)"
  with plain_code [OF assms, of "jit_emit_insn insn_addr k bi" m] show ?thesis
    unfolding modest_def
    by (cases "run_code H (jit_emit_insn insn_addr k bi) m") (auto intro: counts_plain)
qed (rule branch_counts)

lemma run_block_returns:
  fixes m :: "'h mach"
  assumes "\<And>k m. k < length codes \<Longrightarrow>
    ends (\<lambda>x m'. counts_down k (jit_loop_budget (memu m)) x (jit_loop_budget (memu m'))) (\<lambda>_. True) (run_code H (codes ! k) m)"
  shows "\<exists>r. run_block H codes k m = Some r"
proof -
  let ?R = "measures [\<lambda>(k, m). nat (sint (jit_loop_budget (memu m))), \<lambda>(k, m :: 'h mach). length codes - k]"
  have "wf ?R" by simp
  then have "case z of (k, m) \<Rightarrow> \<exists>r. run_block H codes k m = Some r" for z
  proof (induction z rule: wf_induct_rule)
    case (less z)
    obtain k m where z: "z = (k, m)" by force
    show ?case
    proof (cases "length codes \<le> k")
      case False
      with assms [of k m] less show ?thesis
        unfolding z by (subst run_block.simps, cases "run_code H (codes ! k) m")
          (auto split: jit_exit.split)
    qed (simp add: z run_block.simps)
  qed
  from this [of "(k, m)"] show ?thesis by simp
qed

text \<open>
  C5. Native code always returns: whatever the guest program and its memory, running the native
  code of a block ends after finitely many steps, because every backward jump takes one from the
  loop budget and leaves the block when none is left. The host's MMU callbacks must not reset
  the budget.
\<close>

theorem native_code_returns:
  assumes "host_keeps jit_loop_budget H"
  shows "\<exists>r. jit_native H pc insns e = Some r"
proof -
  have "\<exists>r. run_block H (jit_emit_block pc insns) 0 (enter_mach H e) = Some r"
    by (rule run_block_returns) (simp add: jit_emit_block_def insn_counts [OF assms])
  then show ?thesis by (auto simp: jit_native_def)
qed

theorem native_code_returns_witness:
  "host_keeps jit_loop_budget sample_host \<and> (\<exists>r. jit_native sample_host 0x200 sample_loop (sample_emu (\<lambda>_. 0) 0x200) = Some r)"
  using native_code_returns [OF sample_host_keeps, of "0x200" sample_loop "sample_emu (\<lambda>_. 0) 0x200"]
  by (simp add: sample_host_keeps)

end
