(* ===== verification/CpuSim.thy ===== *)
theory CpuSim
  imports ExecFrame
begin

text \<open>
  Contract between the processor core and a view of the machine that forgets part of its state:
  when guest accesses return and commute with the view, so does every instruction. It is the
  basis of comparing a machine that has a JIT with one that has none.
\<close>

section \<open>The modes of the table rows\<close>

definition addressed :: "addressing \<Rightarrow> bool" where
  "addressed md \<longleftrightarrow> md \<in> {ZP, ZPR, ZPX, ZPY, IZP, IZPX, IZPY, ABSOLUTE, ABSOLUTEX, ABSOLUTEY}"

definition reads_operand :: "emul_fn \<Rightarrow> bool" where
  "reads_operand f =
     (case f of
        EMUL_ADC \<Rightarrow> True | EMUL_AND \<Rightarrow> True | EMUL_ASL \<Rightarrow> True | EMUL_BBR _ \<Rightarrow> True | EMUL_BBS _ \<Rightarrow> True
      | EMUL_BIT \<Rightarrow> True | EMUL_CMP \<Rightarrow> True | EMUL_CPX \<Rightarrow> True | EMUL_CPY \<Rightarrow> True | EMUL_DEC \<Rightarrow> True
      | EMUL_EOR \<Rightarrow> True | EMUL_INC \<Rightarrow> True | EMUL_LDA \<Rightarrow> True | EMUL_LDX \<Rightarrow> True | EMUL_LDY \<Rightarrow> True
      | EMUL_LSR \<Rightarrow> True | EMUL_ORA \<Rightarrow> True | EMUL_RMB _ \<Rightarrow> True | EMUL_ROL \<Rightarrow> True | EMUL_ROR \<Rightarrow> True
      | EMUL_SBC \<Rightarrow> True | EMUL_SMB _ \<Rightarrow> True | EMUL_TRB \<Rightarrow> True | EMUL_TSB \<Rightarrow> True | _ \<Rightarrow> False)"

definition writes_operand :: "emul_fn \<Rightarrow> bool" where
  "writes_operand f =
     (case f of
        EMUL_ASL \<Rightarrow> True | EMUL_DEC \<Rightarrow> True | EMUL_INC \<Rightarrow> True | EMUL_LSR \<Rightarrow> True | EMUL_RMB _ \<Rightarrow> True
      | EMUL_ROL \<Rightarrow> True | EMUL_ROR \<Rightarrow> True | EMUL_SMB _ \<Rightarrow> True | EMUL_STA \<Rightarrow> True | EMUL_STX \<Rightarrow> True
      | EMUL_STY \<Rightarrow> True | EMUL_STZ \<Rightarrow> True | EMUL_TRB \<Rightarrow> True | EMUL_TSB \<Rightarrow> True | _ \<Rightarrow> False)"

lemma row_modes:
  assumes "emul (instruction_decode opc) = Some f"
  shows "reads_operand f \<Longrightarrow> addressed (mode (instruction_decode opc)) \<or> mode (instruction_decode opc) \<in> {ACCUMULATOR, IMMEDIATE}"
    and "writes_operand f \<Longrightarrow> addressed (mode (instruction_decode opc)) \<or> mode (instruction_decode opc) = ACCUMULATOR"
proof -
  have "list_all (\<lambda>r. \<forall>f. emul r = Some f \<longrightarrow> (reads_operand f \<longrightarrow> addressed (mode r) \<or> mode r \<in> {ACCUMULATOR, IMMEDIATE}) \<and>
      (writes_operand f \<longrightarrow> addressed (mode r) \<or> mode r = ACCUMULATOR)) instrs"
    by (simp add: instrs_def row_def reads_operand_def writes_operand_def addressed_def)
  from decode_all [OF this, of opc] assms
  show "reads_operand f \<Longrightarrow> addressed (mode (instruction_decode opc)) \<or> mode (instruction_decode opc) \<in> {ACCUMULATOR, IMMEDIATE}"
    and "writes_operand f \<Longrightarrow> addressed (mode (instruction_decode opc)) \<or> mode (instruction_decode opc) = ACCUMULATOR"
    by blast+
qed

section \<open>The contract\<close>

locale cpu_sim =
  fixes D :: "'h emu \<Rightarrow> bool" and g :: "'h emu \<Rightarrow> 'h emu" and H :: "'h host"
  assumes g_regs: "regs (g e) = regs e"
    and g_put_regs: "(g e)\<lparr>regs := r\<rparr> = g (e\<lparr>regs := r\<rparr>)"
    and g_irq: "irq (g e) = irq e"
    and g_put_irq: "(g e)\<lparr>irq := b\<rparr> = g (e\<lparr>irq := b\<rparr>)"
    and g_stop: "(g e)\<lparr>state := s, stopreason := sr\<rparr> = g (e\<lparr>state := s, stopreason := sr\<rparr>)"
    and g_control: "state (g e) = state e" "mmu_fault_reexec (g e) = mmu_fault_reexec e" "bps_head (g e) = bps_head e"
    and g_reexec: "(g e)\<lparr>mmu_fault_reexec := x\<rparr> = g (e\<lparr>mmu_fault_reexec := x\<rparr>)"
    and g_quiet: "D e \<Longrightarrow> \<not> trace e \<and> \<not> runtime_disassembly e \<and> \<not> trace (g e) \<and> \<not> runtime_disassembly (g e)"
    and D_regs: "D (e\<lparr>regs := r\<rparr>) = D e"
    and D_irq: "D e \<Longrightarrow> D (e\<lparr>irq := False\<rparr>)"
    and D_stop: "D (e\<lparr>state := s, stopreason := sr\<rparr>) = D e"
    and D_reexec: "D e \<Longrightarrow> D (e\<lparr>mmu_fault_reexec := False\<rparr>)"
    and D_fetch: "D e \<Longrightarrow> \<exists>v e'. rk65c02_mem_fetch_1 H a e = Ret v e' \<and> rk65c02_mem_fetch_1 H a (g e) = Ret v (g e') \<and> D e'"
    and D_read: "D e \<Longrightarrow> \<exists>v e'. rk65c02_mem_read_1 H a e = Ret v e' \<and> rk65c02_mem_read_1 H a (g e) = Ret v (g e') \<and> D e'"
    and D_write: "D e \<Longrightarrow> \<exists>e'. rk65c02_mem_write_1 H a v e = Ret () e' \<and> rk65c02_mem_write_1 H a v (g e) = Ret () (g e') \<and> D e'"
begin

definition sim :: "('h, 'a) run \<Rightarrow> ('h, 'a) run \<Rightarrow> bool" where
  "sim m n \<longleftrightarrow> (\<exists>v e. m = Ret v e \<and> n = Ret v (g e) \<and> D e)"

lemma sim_Ret: "D e \<Longrightarrow> sim (Ret v e) (Ret v (g e))"
  by (simp add: sim_def)

lemma sim_andthen: "sim m n \<Longrightarrow> (\<And>v e. D e \<Longrightarrow> sim (f v e) (f' v (g e))) \<Longrightarrow> sim (andthen m f) (andthen n f')"
  by (auto simp: sim_def)

lemma sim_if: "(c \<Longrightarrow> sim m n) \<Longrightarrow> (\<not> c \<Longrightarrow> sim m' n') \<Longrightarrow> sim (if c then m else m') (if c then n else n')"
  by simp

lemma sim_access:
  "D e \<Longrightarrow> sim (rk65c02_mem_fetch_1 H a e) (rk65c02_mem_fetch_1 H a (g e))"
  "D e \<Longrightarrow> sim (rk65c02_mem_read_1 H a e) (rk65c02_mem_read_1 H a (g e))"
  "D e \<Longrightarrow> sim (rk65c02_mem_write_1 H a v e) (rk65c02_mem_write_1 H a v (g e))"
  using D_fetch [of e a] D_read [of e a] D_write [of e a v] by (auto simp: sim_def)

lemma g_sets:
  "set_A v (g e) = g (set_A v e)" "set_X v (g e) = g (set_X v e)" "set_Y v (g e) = g (set_Y v e)"
  "set_SP v (g e) = g (set_SP v e)" "set_PC w (g e) = g (set_PC w e)" "set_P v (g e) = g (set_P v e)"
  by (simp_all add: set_A_def set_X_def set_Y_def set_SP_def set_PC_def set_P_def g_regs g_put_regs)

lemma g_if: "(if c then g x else g y) = g (if c then x else y)"
  by simp

lemma g_flags:
  "flag_set m (g e) = g (flag_set m e)" "flag_clear m (g e) = g (flag_clear m e)"
  "flag_put m c (g e) = g (flag_put m c e)" "status_zn v (g e) = g (status_zn v e)"
  "program_counter_increment idf (g e) = g (program_counter_increment idf e)"
  "program_counter_branch b (g e) = g (program_counter_branch b e)"
  by (simp_all add: flag_set_def flag_clear_def flag_put_def status_zn_def instruction_status_adjust_zero_def
      instruction_status_adjust_negative_def program_counter_increment_def program_counter_branch_def g_sets g_regs g_put_regs)

lemma D_sets:
  "D (set_A v e) = D e" "D (set_X v e) = D e" "D (set_Y v e) = D e" "D (set_SP v e) = D e" "D (set_PC w e) = D e"
  "D (set_P v e) = D e" "D (flag_set m e) = D e" "D (flag_clear m e) = D e" "D (flag_put m c e) = D e"
  "D (status_zn v e) = D e" "D (program_counter_increment idf e) = D e" "D (program_counter_branch b e) = D e"
  by (simp_all add: register_defs D_regs)

lemma D_if: "D x \<Longrightarrow> D y \<Longrightarrow> D (if c then x else y)"
  by simp

lemmas g_push = g_sets g_flags g_if g_regs g_put_regs g_irq g_put_irq g_stop g_control g_reexec D_sets D_regs D_stop

lemmas sim_rules = sim_andthen sim_Ret sim_if sim_access D_if

lemma sim_fetch: "D e \<Longrightarrow> sim (instruction_fetch_emu H a e) (instruction_fetch_emu H a (g e))"
  unfolding instruction_fetch_emu_def Let_def by (rule sim_rules | assumption)+

lemma sim_address:
  assumes "D e" "addressed (mode idf)"
  shows "sim (instruction_data_address H idf i e) (instruction_data_address H idf i (g e))"
  using assms unfolding instruction_data_address_def read_pointer_def addressed_def
  by (auto simp: g_push intro!: sim_rules)

lemma sim_data_read:
  assumes "D e" "addressed (mode idf) \<or> mode idf \<in> {ACCUMULATOR, IMMEDIATE}"
  shows "sim (instruction_data_read_1 H idf i e) (instruction_data_read_1 H idf i (g e))"
  using assms unfolding instruction_data_read_1_def by (auto simp: g_push intro!: sim_rules sim_address)

lemma sim_data_write:
  assumes "D e" "addressed (mode idf) \<or> mode idf = ACCUMULATOR"
  shows "sim (instruction_data_write_1 H idf i v e) (instruction_data_write_1 H idf i v (g e))"
  using assms unfolding instruction_data_write_1_def
  by (auto simp: g_push addressed_def [of IMMEDIATE] intro!: sim_rules sim_address)

lemma sim_push: "D e \<Longrightarrow> sim (stack_push H v e) (stack_push H v (g e))"
  unfolding stack_push_def by (auto simp: g_push intro!: sim_rules)

lemma sim_pop: "D e \<Longrightarrow> sim (stack_pop H e) (stack_pop H (g e))"
  unfolding stack_pop_def Let_def by (auto simp: g_push intro!: sim_rules)

lemma sim_irq: "D e \<Longrightarrow> sim (rk65c02_irq H e) (rk65c02_irq H (g e))"
  unfolding rk65c02_irq_def Let_def by (rule sim_rules sim_push D_irq | simp only: g_push | assumption)+

lemma sim_jmp:
  assumes "D e" "mode idf \<in> {ABSOLUTE, IABSOLUTE, IABSOLUTEX}"
  shows "sim (emul_jmp H idf i e) (emul_jmp H idf i (g e))"
  using assms unfolding emul_jmp_def Let_def by (auto simp: g_push intro!: sim_rules)

lemma sim_emul:
  assumes D: "D e" and jmp: "f = EMUL_JMP \<Longrightarrow> mode idf \<in> {ABSOLUTE, IABSOLUTE, IABSOLUTEX}"
    and r: "reads_operand f \<Longrightarrow> addressed (mode idf) \<or> mode idf \<in> {ACCUMULATOR, IMMEDIATE}"
    and w: "writes_operand f \<Longrightarrow> addressed (mode idf) \<or> mode idf = ACCUMULATOR"
  shows "sim (emul_call f H idf i e) (emul_call f H idf i (g e))"
proof (cases "f = EMUL_JMP")
  case True
  with sim_jmp [OF D jmp] show ?thesis by simp
next
  case False
  with D r w show ?thesis
    by (cases f; simp only: emul_call.simps handler_defs Let_def reads_operand_def writes_operand_def emul_fn.case simp_thms)
      ((rule sim_rules sim_push sim_pop sim_data_read sim_data_write sim_irq | simp only: g_push | assumption)+)
qed

lemma sim_dispatch: "D e \<Longrightarrow> sim (emul_dispatch H (instruction_decode opc) i e) (emul_dispatch H (instruction_decode opc) i (g e))"
  using emul_present [of opc] jmp_modes [of opc] row_modes [of opc]
  by (auto simp: emul_dispatch_def intro!: sim_emul split: option.split)

lemma sim_advance: "exec_advance idf (g e) = g (exec_advance idf e)" "D e \<Longrightarrow> D (exec_advance idf e)"
  by (simp_all add: exec_advance_def g_push D_reexec)

lemma sim_exec:
  assumes "D e"
  shows "sim (rk65c02_exec H e) (rk65c02_exec H (g e))"
proof -
  have run: "sim (andthen (instruction_fetch_emu H pc e) (\<lambda>i e.
        let idf = instruction_decode (opcode i) in
        andthen (emul_dispatch H idf i e) (\<lambda>_ e.
        let e = exec_advance idf e in Ret () (if trace e then debug_trace_savestate tpc i e else e))))
      (andthen (instruction_fetch_emu H pc (g e)) (\<lambda>i e.
        let idf = instruction_decode (opcode i) in
        andthen (emul_dispatch H idf i e) (\<lambda>_ e.
        let e = exec_advance idf e in Ret () (if trace e then debug_trace_savestate tpc i e else e))))"
    if "D e" for e pc tpc
    unfolding Let_def
    by (intro sim_andthen sim_fetch sim_dispatch that) (simp_all add: sim_advance g_quiet sim_Ret)
  have "sim (if irq e \<and> \<not> flag P_IRQ_DISABLE e then rk65c02_irq H e else Ret () e)
      (if irq e \<and> \<not> flag P_IRQ_DISABLE e then rk65c02_irq H (g e) else Ret () (g e))"
    using assms by (intro sim_if sim_irq sim_Ret)
  then show ?thesis
    unfolding rk65c02_exec_def Let_def g_irq g_regs
    by (rule sim_andthen)
      (auto simp: debug_PC_is_breakpoint_def g_push g_quiet intro!: sim_Ret run [unfolded Let_def])
qed

end

end
