(* ===== verification/JitGuest.thy ===== *)
theory JitGuest
  imports CpuSim RamMachine HostControl
begin

text \<open>
  What a guest program and its host can see of a machine: everything but the JIT and the run
  loop's own bookkeeping. On a machine with 64K of RAM and the MMU off, executing an instruction
  with the JIT attached does to this part of the state what executing it without a JIT does.
\<close>

definition guest :: "'h emu \<Rightarrow> 'h emu" where
  "guest e = e\<lparr>jit := None, use_jit := False, in_jit_run := False, jit_loop_budget := 0\<rparr>"

definition direct :: "'h emu \<Rightarrow> bool" where
  "direct e \<longleftrightarrow> mem_read_1_fn e = MEM_DIRECT \<and> mem_write_1_fn e = MEM_DIRECT \<and> full_ram (bus e) \<and> \<not> mmu_enabled e"

text \<open>Nothing outside the processor interferes: no interrupt, no debugger, no callback of the host.\<close>

definition undisturbed :: "'h emu \<Rightarrow> bool" where
  "undisturbed e \<longleftrightarrow> direct e \<and> \<not> irq e \<and> bps_head e = [] \<and> \<not> trace e \<and> \<not> runtime_disassembly e \<and>
     \<not> mmu_fault_reexec e \<and> \<not> stop_requested e \<and> tick e = None \<and> idle_wait e = None \<and>
     on_stop e = None"

lemma guest_fields [simp]:
  "regs (guest e) = regs e" "bus (guest e) = bus e" "irq (guest e) = irq e" "state (guest e) = state e"
  "stopreason (guest e) = stopreason e" "mmu_fault_reexec (guest e) = mmu_fault_reexec e" "bps_head (guest e) = bps_head e"
  "trace (guest e) = trace e" "runtime_disassembly (guest e) = runtime_disassembly e" "mem (guest e) = mem e"
  "jit (guest e) = None" "guest (guest e) = guest e" "stop_requested (guest e) = stop_requested e"
  by (simp_all add: guest_def mem_def fun_eq_iff)

lemma guest_bookkeeping [simp]:
  "guest (e\<lparr>jit := j\<rparr>) = guest e" "guest (e\<lparr>use_jit := u\<rparr>) = guest e"
  "guest (e\<lparr>in_jit_run := i\<rparr>) = guest e" "guest (e\<lparr>jit_loop_budget := b\<rparr>) = guest e"
  "direct (e\<lparr>jit := j\<rparr>) = direct e" "direct (e\<lparr>use_jit := u\<rparr>) = direct e"
  "direct (e\<lparr>in_jit_run := i\<rparr>) = direct e" "direct (e\<lparr>jit_loop_budget := b\<rparr>) = direct e"
  "undisturbed (e\<lparr>jit := j\<rparr>) = undisturbed e" "undisturbed (e\<lparr>use_jit := u\<rparr>) = undisturbed e"
  "undisturbed (e\<lparr>in_jit_run := i\<rparr>) = undisturbed e" "undisturbed (e\<lparr>jit_loop_budget := b\<rparr>) = undisturbed e"
  "undisturbed (guest e) = undisturbed e" "direct (guest e) = direct e"
  by (simp_all add: guest_def direct_def undisturbed_def)

lemma undisturbed_fields [simp]:
  "direct (regs_update f e) = direct e" "direct (state_update s e) = direct e" "direct (stopreason_update r e) = direct e"
  "undisturbed (regs_update f e) = undisturbed e" "undisturbed (state_update s e) = undisturbed e"
  "undisturbed (stopreason_update r e) = undisturbed e"
  by (simp_all add: direct_def undisturbed_def)

lemma undisturbed_direct: "undisturbed e \<Longrightarrow> direct e"
  by (simp add: undisturbed_def)

lemma direct_ram: "direct e \<Longrightarrow> ram_machine (guest e)"
  by (simp add: direct_def ram_machine_def plain_def guest_def)

lemma direct_cell: "direct e \<Longrightarrow> bus_cell (bus e) a = Some (the (bus_cell (bus e) a))"
  using ram_cell [OF direct_ram, of e a] by simp

lemma direct_read:
  assumes "direct e"
  shows "rk65c02_mem_read_1 H a e = Ret (mem e a) e" "rk65c02_mem_fetch_1 H a e = Ret (mem e a) e"
  using assms bus_read_cell [OF direct_cell [OF assms, of a], of "h_dev H"]
  by (simp_all add: direct_def rk65c02_mem_read_1_def rk65c02_mem_fetch_1_def rk65c02_mem_read_direct_def mem_def)

lemma direct_write:
  assumes "direct e"
  shows "rk65c02_mem_write_1 H a v e = Ret () (rk65c02_jit_note_guest_write H a (poke a v e))"
  using assms bus_write_cell [OF direct_cell [OF assms, of a], of "h_dev H" v]
  by (simp add: direct_def rk65c02_mem_write_1_def rk65c02_mem_write_direct_def poke_def
      rk65c02_jit_note_guest_write_def [of H a "e\<lparr>bus := b\<rparr>" for b])

lemma guest_poke: "poke a v (guest e) = guest (poke a v e)" "direct (poke a v e) = direct e"
  "undisturbed (poke a v e) = undisturbed e"
  by (simp_all add: poke_def guest_def direct_def undisturbed_def full_ram_def)

lemma mem_poke_direct: "direct e \<Longrightarrow> mem (poke a v e) = (mem e)(a := v)"
  using mem_poke [OF direct_ram, of e a v] by (simp add: guest_poke)

text \<open>With the MMU off the hook of a guest store touches the JIT and its switch only.\<close>

lemma note_write_cases:
  assumes "\<not> mmu_enabled e"
  shows "rk65c02_jit_note_guest_write H a e = e \<or>
    (\<exists>j. in_jit_run e \<and> rk65c02_jit_note_guest_write H a e = e\<lparr>use_jit := False, jit := Some j\<rparr>) \<or>
    (\<exists>j. \<not> in_jit_run e \<and> rk65c02_jit_note_guest_write H a e = e\<lparr>jit := Some j\<rparr>)"
proof (cases "jit e")
  case None
  then show ?thesis by (simp add: rk65c02_jit_note_guest_write_def)
next
  case (Some j)
  have "jit_translate_paddr H a MMU_WRITE e = (fst (jit_translate_paddr H a MMU_WRITE e), e)"
    using assms by (simp add: jit_translate_paddr_def rk65c02_mmu_translate_cached_def)
  then obtain t where t: "(if compiled_phys_refs_total j \<noteq> 0 then jit_translate_paddr H a MMU_WRITE e else (None, e)) = (t, e)"
    by (cases "compiled_phys_refs_total j = 0") auto
  show ?thesis
    unfolding rk65c02_jit_note_guest_write_def Some option.case t Let_def prod.case by (simp only: split: if_split) blast
qed

lemma note_write_guest:
  assumes "\<not> mmu_enabled e"
  shows "guest (rk65c02_jit_note_guest_write H a e) = guest e" "undisturbed (rk65c02_jit_note_guest_write H a e) = undisturbed e"
    "direct (rk65c02_jit_note_guest_write H a e) = direct e" "state (rk65c02_jit_note_guest_write H a e) = state e"
    "mem (rk65c02_jit_note_guest_write H a e) = mem e" "in_jit_run (rk65c02_jit_note_guest_write H a e) = in_jit_run e"
  using note_write_cases [OF assms, of H a] by (auto simp: mem_def)

text \<open>
  The view is a simulation on every class of undisturbed machines that guest accesses, register
  updates and stops keep.
\<close>

locale undisturbed_class =
  fixes D :: "'h emu \<Rightarrow> bool" and H :: "'h host"
  assumes D_undisturbed: "D e \<Longrightarrow> undisturbed e"
    and D_put_regs: "D (e\<lparr>regs := r\<rparr>) = D e"
    and D_put_stop: "D (e\<lparr>state := s, stopreason := sr\<rparr>) = D e"
    and D_store: "D e \<Longrightarrow> D (rk65c02_jit_note_guest_write H a (poke a v e))"

sublocale undisturbed_class \<subseteq> cpu_sim D guest H
proof
  fix e a v
  assume e: "D e"
  have "e\<lparr>irq := False\<rparr> = e" "e\<lparr>mmu_fault_reexec := False\<rparr> = e"
    using D_undisturbed [OF e] by (simp_all add: undisturbed_def)
  with e show "D (e\<lparr>irq := False\<rparr>)" "D (e\<lparr>mmu_fault_reexec := False\<rparr>)" by simp_all
  from e have d: "direct e" using D_undisturbed undisturbed_direct by blast
  show "\<exists>v e'. rk65c02_mem_fetch_1 H a e = Ret v e' \<and> rk65c02_mem_fetch_1 H a (guest e) = Ret v (guest e') \<and> D e'"
    "\<exists>v e'. rk65c02_mem_read_1 H a e = Ret v e' \<and> rk65c02_mem_read_1 H a (guest e) = Ret v (guest e') \<and> D e'"
    using e direct_read [OF d] ram_read [OF direct_ram [OF d]] by simp_all
  have "\<not> mmu_enabled (poke a v e)" using d by (simp add: direct_def poke_def)
  with e d show "\<exists>e'. rk65c02_mem_write_1 H a v e = Ret () e' \<and> rk65c02_mem_write_1 H a v (guest e) = Ret () (guest e') \<and> D e'"
    using direct_write [OF d] ram_write [OF direct_ram [OF d]] note_write_guest(1) [of "poke a v e" H a] D_store [OF e] by (simp add: guest_poke)
qed (use D_undisturbed in \<open>simp_all add: guest_def undisturbed_def D_put_regs D_put_stop\<close>)

interpretation guest: undisturbed_class undisturbed H for H
proof
  fix e :: "'a emu" and a v
  assume "undisturbed e"
  then show "undisturbed (rk65c02_jit_note_guest_write H a (poke a v e))"
    using note_write_guest(2) [of "poke a v e" H a] by (simp add: guest_poke) (simp add: poke_def undisturbed_def direct_def)
qed simp_all

lemma exec_guest:
  assumes "undisturbed e"
  shows "\<exists>e'. rk65c02_exec H e = Ret () e' \<and> rk65c02_exec H (guest e) = Ret () (guest e') \<and> undisturbed e'"
  using guest.sim_exec [OF assms, of H] by (auto simp: guest.sim_def)

end
