(* ===== verification/NativeBlock.thy ===== *)
theory NativeBlock
  imports NativeInsn NativeSafety JitGuest JitProps
begin

text \<open>
  A whole block of native code against the interpreter, on a machine with 64K of RAM and the MMU
  off: the run of the block is a run of instructions of the interpreter, self-modifying code
  included.
\<close>

declare bit_numeral_word_iff [simp del]

section \<open>The machine while native code runs\<close>

text \<open>The bytes of the live blocks.\<close>

definition live_code :: "(u16 \<Rightarrow> jit_block option) \<Rightarrow> u16 set" where
  "live_code B = {a. \<exists>i b. B i = Some b \<and> fn b \<noteq> None \<and> jit_block_contains_addr b a}"

text \<open>
  While native code of a cache with blocks \<open>B\<close> runs: a byte of live code that differs from its
  content \<open>M\<close> at entry is recorded, and as long as the JIT is on there is none.
\<close>

definition native_state :: "(u16 \<Rightarrow> jit_block option) \<Rightarrow> (u16 \<Rightarrow> u8) \<Rightarrow> 'h emu \<Rightarrow> bool" where
  "native_state B M e \<longleftrightarrow> undisturbed e \<and> in_jit_run e \<and>
     (\<exists>j. jit e = Some j \<and> blocks j = B \<and> jit_inv j \<and> \<not> needs_flush j \<and>
        (\<forall>a \<in> live_code B. mem e a \<noteq> M a \<longrightarrow> recorded j a \<and> \<not> use_jit e))"

lemma mem_bookkeeping [simp]:
  "mem (e\<lparr>jit := j\<rparr>) = mem e" "mem (e\<lparr>use_jit := u\<rparr>) = mem e" "mem (e\<lparr>in_jit_run := i\<rparr>) = mem e"
  "mem (e\<lparr>jit_loop_budget := b\<rparr>) = mem e"
  by (simp_all add: mem_def fun_eq_iff)

lemma recorded_stats [simp]: "recorded (j\<lparr>stats := st\<rparr>) = recorded j"
  by (simp add: recorded_def fun_eq_iff)

lemma record_pending_fields [simp]:
  "blocks (jit_record_pending a p j) = blocks j" "needs_flush (jit_record_pending a p j) = needs_flush j"
  by (simp_all add: jit_record_pending_def Let_def)

lemma recorded_record: "recorded (jit_record_pending a p j) a" "recorded j a' \<Longrightarrow> recorded (jit_record_pending a p j) a'"
proof -
  show "recorded (jit_record_pending a p j) a"
    by (auto simp: recorded_def jit_record_pending_def Let_def)
  show "recorded (jit_record_pending a p j) a'" if "recorded j a'"
    using that unfolding recorded_def
  proof
    assume "\<exists>k < pending_writes j. pending_write_addr j k = a'"
    then obtain k where "k < pending_writes j" "pending_write_addr j k = a'" by blast
    then show "pending_write_overflow (jit_record_pending a p j) \<or>
      (\<exists>k < pending_writes (jit_record_pending a p j). pending_write_addr (jit_record_pending a p j) k = a')"
      by (cases "pending_writes j < JIT_WRITE_EVENT_SLOTS")
        (auto simp: jit_record_pending_def Let_def intro!: disjI2 exI [of _ k])
  qed (simp add: jit_record_pending_def Let_def)
qed

lemma native_fields [simp]:
  "native_state B M (regs_update f e) = native_state B M e" "native_state B M (state_update s e) = native_state B M e"
  "native_state B M (stopreason_update r e) = native_state B M e" "native_state B M (jit_loop_budget_update b e) = native_state B M e"
  by (simp_all add: native_state_def undisturbed_def direct_def mem_def)

lemma native_stat [simp]: "native_state B M (store_stat w e) = native_state B M e"
  by (auto simp: native_state_def store_stat_def)

lemma native_undisturbed: "native_state B M e \<Longrightarrow> undisturbed e" "native_state B M e \<Longrightarrow> direct e"
  by (simp_all add: native_state_def undisturbed_def)

lemma native_intact: "native_state B M e \<Longrightarrow> use_jit e \<Longrightarrow> \<forall>a \<in> live_code B. mem e a = M a"
  by (auto simp: native_state_def)

text \<open>The hook of a guest store with the MMU off, while native code runs.\<close>

lemma note_write_native:
  assumes e: "\<not> mmu_enabled e" "in_jit_run e" "jit e = Some j" and j: "jit_inv j"
  shows "(a \<notin> live_code (blocks j) \<and> rk65c02_jit_note_guest_write H a e = e) \<or>
    (\<exists>p st. rk65c02_jit_note_guest_write H a e = e\<lparr>use_jit := False, jit := Some (jit_record_pending a p (j\<lparr>stats := st\<rparr>))\<rparr>)"
proof -
  have "jit_translate_paddr H a MMU_WRITE e = (fst (jit_translate_paddr H a MMU_WRITE e), e)"
    using e by (simp add: jit_translate_paddr_def rk65c02_mmu_translate_cached_def)
  then obtain t where t: "(if compiled_phys_refs_total j \<noteq> 0 then jit_translate_paddr H a MMU_WRITE e else (None, e)) = (t, e)"
    by (cases "compiled_phys_refs_total j = 0") auto
  let ?cv = "compiled_page_refcnt j (hi8 a) \<noteq> 0 \<and> covered_addr_refcnt j a \<noteq> 0"
  define phys where "phys = (case t of None \<Rightarrow> None
    | Some paddr \<Rightarrow> if covered_phys_addr_refcnt j paddr \<noteq> 0 \<or> compiled_phys_page_refcnt j (hi8 paddr) \<noteq> 0 then Some paddr else None)"
  define st where "st = (stats j)\<lparr>write_events := write_events (stats j) + 1\<rparr>"
  have n: "rk65c02_jit_note_guest_write H a e = (if active_blocks j = 0 \<or> \<not> ?cv \<and> phys = None then e
      else e\<lparr>use_jit := False, jit := Some (jit_record_pending a phys (j\<lparr>stats := st\<rparr>))\<rparr>)"
    unfolding rk65c02_jit_note_guest_write_def e(3) option.case t Let_def prod.case phys_def st_def
    using jit_inv_magic [OF j] e by auto
  show ?thesis
  proof (cases "active_blocks j = 0 \<or> \<not> ?cv \<and> phys = None")
    case True
    with no_active [OF j] uncovered_addr [OF j, of a] have "a \<notin> live_code (blocks j)"
      by (auto simp: live_code_def live_block_def)
    with n True show ?thesis by simp
  next
    case False
    with n show ?thesis by (simp only: if_False) blast
  qed
qed

lemma native_state_store:
  assumes "native_state B M e"
  shows "native_state B M (rk65c02_jit_note_guest_write H a (poke a v e))"
    and "regs (rk65c02_jit_note_guest_write H a (poke a v e)) = regs e"
proof -
  from assms obtain j where e: "undisturbed e" "in_jit_run e" "jit e = Some j" "jit_inv j" "blocks j = B" "\<not> needs_flush j"
      and M: "\<forall>a \<in> live_code B. mem e a \<noteq> M a \<longrightarrow> recorded j a \<and> \<not> use_jit e"
    by (auto simp: native_state_def)
  let ?p = "poke a v e"
  have d: "direct e" using e(1) by (rule undisturbed_direct)
  have p: "\<not> mmu_enabled ?p" "in_jit_run ?p" "jit ?p = Some j" "undisturbed ?p" "use_jit ?p = use_jit e" "mem ?p = (mem e)(a := v)"
    using e d by (simp_all add: guest_poke mem_poke_direct) (simp_all add: poke_def direct_def)
  from note_write_native [OF p(1-3) e(4), of a H]
  have "native_state B M (rk65c02_jit_note_guest_write H a ?p) \<and> regs (rk65c02_jit_note_guest_write H a ?p) = regs e"
  proof
    assume "a \<notin> live_code (blocks j) \<and> rk65c02_jit_note_guest_write H a ?p = ?p"
    with p e M show ?thesis by (auto simp: native_state_def)
  next
    assume "\<exists>p st. rk65c02_jit_note_guest_write H a ?p = ?p\<lparr>use_jit := False, jit := Some (jit_record_pending a p (j\<lparr>stats := st\<rparr>))\<rparr>"
    with p e M recorded_record(2) [of j] recorded_record(1) [of a] show ?thesis
      by (auto simp: native_state_def record_pending_inv recorded_record)
  qed
  then show "native_state B M (rk65c02_jit_note_guest_write H a ?p)" "regs (rk65c02_jit_note_guest_write H a ?p) = regs e" by auto
qed

lemma native_read:
  "native_state B M e \<Longrightarrow> rk65c02_mem_read_1 H a e = Ret (mem e a) e"
  "native_state B M e \<Longrightarrow> rk65c02_mem_fetch_1 H a e = Ret (mem e a) e"
  by (simp_all add: native_undisturbed direct_read)

lemma native_panic: "native_state B M e \<Longrightarrow> post Q (\<lambda>_. True) (rk65c02_panic H e)"
  by (simp add: rk65c02_panic_def emu_stop_error_def Let_def native_state_def)

interpretation nat_sim: undisturbed_class "native_state B M" H for B M H
  by unfold_locales (auto simp: native_undisturbed native_state_store)

text \<open>Instructions that leave the program counter alone also keep its value.\<close>

definition native_at :: "(u16 \<Rightarrow> jit_block option) \<Rightarrow> (u16 \<Rightarrow> u8) \<Rightarrow> u16 \<Rightarrow> 'h emu \<Rightarrow> bool" where
  "native_at B M pc e \<longleftrightarrow> native_state B M e \<and> rPC (regs e) = pc"

interpretation nat_line: data_inv "native_at B M pc" "\<lambda>_. True" H for B M pc H
proof
  fix e :: "'a emu" and a v
  assume "native_at B M pc e"
  then show "post (\<lambda>_. native_at B M pc) (\<lambda>_. True) (rk65c02_mem_write_1 H a v e)"
    using direct_write [OF native_undisturbed(2), of B M e H a v] native_state_store [of B M e H a v] by (auto simp: native_at_def)
qed (auto simp: native_at_def native_read native_panic register_defs)

section \<open>One instruction of the interpreter\<close>

lemma native_fetch: "native_state B M e \<Longrightarrow> instruction_fetch_emu H a e = Ret (insn_at H (mem e) a) e"
  using mode_operands_le [of "mode (instruction_decode (mem e a))"]
  by (auto simp: instruction_fetch_emu_def insn_at_def Let_def native_read)

lemma native_exec_step:
  assumes e: "native_state B M e" and bi: "bi_i bi = insn_at H (mem e) (rPC (regs e))" "decoded bi"
  shows "rk65c02_exec H e = insn_step H bi e"
proof -
  have q: "\<not> irq e" "bps_head e = []" "\<not> runtime_disassembly e" using native_undisturbed(1) [OF e] by (simp_all add: undisturbed_def)
  obtain e1 where e1: "emul_dispatch H (bi_id bi) (bi_i bi) e = Ret () e1" "native_state B M e1"
    using nat_sim.sim_dispatch [OF e, of H "opcode (bi_i bi)" "bi_i bi"] bi(2) by (auto simp: nat_sim.sim_def)
  have "\<not> mmu_fault_reexec e1" "\<not> trace e1" using native_undisturbed(1) [OF e1(2)] by (simp_all add: undisturbed_def)
  then show ?thesis
    by (simp add: rk65c02_exec_def insn_step_def q debug_PC_is_breakpoint_def native_fetch [OF e] bi(1) [symmetric] bi(2) [symmetric]
        exec_advance_def e1(1) program_counter_increment_def Let_def)
qed

lemma native_exec:
  assumes "native_state B M e"
  shows "\<exists>e'. rk65c02_exec H e = Ret () e' \<and> native_state B M e' \<and> rk65c02_exec H (guest e) = Ret () (guest e')"
  using nat_sim.sim_exec [OF assms, of H] by (auto simp: nat_sim.sim_def)

lemma native_line:
  assumes e: "native_state B M e" "decoded bi" and "\<not> instruction_modify_pc (bi_id bi)" "opcode (bi_i bi) \<noteq> 0x60"
    and "insn_step H bi e = Ret () e'"
  shows "rPC (regs e') = rPC (regs e) + ucast (isize (bi_id bi))"
proof -
  from line_rows [of "opcode (bi_i bi)"] assms obtain f where f: "emul (bi_id bi) = Some f" "\<not> pc_handler f" by auto
  have "native_at B M (rPC (regs e)) e" using e by (simp add: native_at_def)
  from nat_line.holds_data_emul [OF this f(2), of H "bi_id bi" "bi_i bi"] assms(3,5) show ?thesis
    by (cases "emul_call f H (bi_id bi) (bi_i bi) e")
      (auto simp: insn_step_def emul_dispatch_def f(1) nat_line.holds_def native_at_def program_counter_increment_def)
qed

section \<open>What native code calls\<close>

text \<open>
  Native code other than the fallback calls the memory accessors and the decimal helpers only. A
  property of the emulator that these and the stores to registers and counters keep holds
  wherever the code goes.
\<close>

definition calls :: "bool \<Rightarrow> jit_op \<Rightarrow> bool" where
  "calls w x \<longleftrightarrow> (case x of Finishi f _ \<Rightarrow> f \<noteq> FN_jit_exec_fallback \<and> (f = FN_jit_bus_write_1 \<longrightarrow> w) | _ \<Rightarrow> True)"

lemma set_after: "x \<in> set (after n xs) \<Longrightarrow> x \<in> set xs"
  by (induction xs) (auto split: if_splits)

locale call_inv =
  fixes K :: "'h emu \<Rightarrow> bool" and w :: bool and H :: "'h host"
  assumes K_regs: "K (regs_update f e) = K e"
    and K_budget: "K (jit_loop_budget_update b e) = K e"
    and K_stat: "K (store_stat n e) = K e"
    and K_read: "K e \<Longrightarrow> post (\<lambda>_. K) (\<lambda>_. True) (rk65c02_mem_read_1 H a e)"
    and K_write: "w \<Longrightarrow> K e \<Longrightarrow> post (\<lambda>_. K) (\<lambda>_. True) (rk65c02_mem_write_1 H a v e)"
begin

lemma K_stores:
  "store_c f x e = Some e' \<Longrightarrow> K e' = K e" "store_s f x e = Some e' \<Longrightarrow> K e' = K e" "store_i f x e = Some e' \<Longrightarrow> K e' = K e"
  by (cases f; auto simp: register_defs set_P_def K_regs K_budget)+

lemma K_on_emu:
  "post (\<lambda>_. K) (\<lambda>_. True) r \<Longrightarrow>
     ends (\<lambda>_ m. K (memu m)) (\<lambda>_. True) (andthen (on_emu m r) (\<lambda>v m. Ret () (clobber H (m\<lparr>mret := g v m\<rparr>))))"
  by (cases r) (simp_all add: on_emu_def)

lemma K_call:
  assumes "K (memu m)" "f \<noteq> FN_jit_exec_fallback" "f = FN_jit_bus_write_1 \<Longrightarrow> w"
  shows "ends (\<lambda>_ m. K (memu m)) (\<lambda>_. True) (jit_call H f vs m)"
  using assms
  by (cases "(H, f, vs, m)" rule: jit_call.cases)
    (auto simp: Let_def jit_mem_read_1_def jit_bus_write_1_def rk65c02_do_adc_bcd_def rk65c02_do_sbc_bcd_def register_defs K_regs
      intro!: ends_use K_on_emu K_read K_write)

lemma K_step: "K (memu m) \<Longrightarrow> calls w x \<Longrightarrow> ends (\<lambda>_ m. K (memu m)) (\<lambda>_. True) (jit_step H x m)"
  using K_call [of m]
  by (cases x) (auto simp: calls_def K_stat K_stores intro!: ends_use ends_andthen [where Q = "\<lambda>_ m. K (memu m)"])

lemma K_code: "list_all (calls w) xs \<Longrightarrow> K (memu m) \<Longrightarrow> ends (\<lambda>_ m. K (memu m)) (\<lambda>_. True) (run_code H xs m)"
proof (induction xs arbitrary: m rule: measure_induct_rule [where f = length])
  case (less xs)
  show ?case
  proof (cases xs)
    case (Cons x ys)
    have ys: "list_all (calls w) ys" "list_all (calls w) (after n ys)" for n
      using less.prems(1) Cons by (auto simp: list_all_iff dest: set_after)
    have "ends (\<lambda>_ m. K (memu m)) (\<lambda>_. True) (resume H ys t m')" if "K (memu m')" for t m'
      using that less.IH [of ys m'] less.IH [of "after _ ys" m'] ys after_length [of _ ys]
      by (cases "(H, ys, t, m')" rule: resume.cases) (auto simp: Cons less_Suc_eq_le)
    with K_step [OF less.prems(2), of x] less.prems(1) show ?thesis
      unfolding Cons run_code_Cons by (auto intro: ends_andthen)
  qed (use less.prems in simp)
qed

end

text \<open>Without stores the JIT switch stays as it is; without the fallback the run state does.\<close>

interpretation still_on: call_inv "\<lambda>e. direct e \<and> use_jit e = u" False H for u H
  by unfold_locales (auto simp: direct_read direct_def store_stat_def)

interpretation still_running: call_inv "\<lambda>e. direct e \<and> state e = s" True H for s H
proof
  fix e :: "'a emu" and a v
  assume e: "direct e \<and> state e = s"
  then have "\<not> mmu_enabled (poke a v e)" by (simp add: direct_def poke_def)
  with e show "post (\<lambda>_ e. direct e \<and> state e = s) (\<lambda>_. True) (rk65c02_mem_write_1 H a v e)"
    by (simp add: direct_write note_write_guest guest_poke)
qed (auto simp: direct_read direct_def store_stat_def)

lemma helpers_calls [simp]:
  "list_all (calls w) (jit_emit_advance_pc sz)" "list_all (calls w) jit_emit_bus_read"
  "list_all (calls w) jit_emit_update_zn" "list_all (calls w) jit_emit_pop" "list_all (calls True) jit_emit_bus_write"
  "list_all (calls w) jit_emit_bail_if_jit_disabled"
  by (simp_all add: jit_emit_advance_pc_def jit_emit_bus_read_def jit_emit_pop_def jit_emit_update_zn_def jit_emit_bus_write_def
      jit_emit_bail_if_jit_disabled_def calls_def)

lemma operand_calls:
  "jit_emit_effaddr bi = Some c \<Longrightarrow> list_all (calls w) c" "jit_emit_load_operand bi = Some c \<Longrightarrow> list_all (calls w) c"
proof -
  show e: "jit_emit_effaddr bi = Some c \<Longrightarrow> list_all (calls w) c" for c
    unfolding jit_emit_effaddr_def Let_def by (cases "mode (bi_id bi)") (auto simp: calls_def)
  show "jit_emit_load_operand bi = Some c \<Longrightarrow> list_all (calls w) c"
    unfolding jit_emit_load_operand_def by (auto dest: e split: option.splits if_splits)
qed

lemma groups_read:
  "jit_emit_nop bi = Some c \<Longrightarrow> list_all (calls w) c" "jit_emit_flags bi = Some c \<Longrightarrow> list_all (calls w) c"
  "jit_emit_transfer bi = Some c \<Longrightarrow> list_all (calls w) c" "jit_emit_incdec bi = Some c \<Longrightarrow> list_all (calls w) c"
  "jit_emit_shift_acc bi = Some c \<Longrightarrow> list_all (calls w) c" "jit_emit_bitbranch bi = Some c \<Longrightarrow> list_all (calls w) c"
  "jit_emit_pull bi = Some c \<Longrightarrow> list_all (calls w) c" "jit_emit_bra bi = Some c \<Longrightarrow> list_all (calls w) c"
  "jit_emit_jump bi = Some c \<Longrightarrow> list_all (calls w) c" "jit_emit_load bi = Some c \<Longrightarrow> list_all (calls w) c"
  "jit_emit_logic bi = Some c \<Longrightarrow> list_all (calls w) c" "jit_emit_adc bi = Some c \<Longrightarrow> list_all (calls w) c"
  "jit_emit_compare bi = Some c \<Longrightarrow> list_all (calls w) c" "jit_emit_sbc bi = Some c \<Longrightarrow> list_all (calls w) c"
  "jit_emit_bit bi = Some c \<Longrightarrow> list_all (calls w) c"
  subgoal by (auto simp: jit_emit_nop_def Let_def calls_def split: if_splits)
  subgoal by (auto simp: jit_emit_flags_def Let_def calls_def split: if_splits)
  subgoal by (auto simp: jit_emit_transfer_def Let_def calls_def split: if_splits)
  subgoal by (auto simp: jit_emit_incdec_def Let_def calls_def split: if_splits)
  subgoal by (auto simp: jit_emit_shift_acc_def Let_def calls_def split: if_splits)
  subgoal by (auto simp: jit_emit_bitbranch_def Let_def calls_def split: if_splits)
  subgoal by (auto simp: jit_emit_pull_def Let_def calls_def split: if_splits)
  subgoal by (auto simp: jit_emit_bra_def Let_def calls_def split: if_splits)
  subgoal by (auto simp: jit_emit_jump_def Let_def calls_def split: if_splits)
  subgoal by (auto simp: jit_emit_load_def Let_def calls_def dest!: operand_calls split: if_splits)
  subgoal by (auto simp: jit_emit_logic_def Let_def calls_def dest!: operand_calls split: if_splits)
  subgoal by (auto simp: jit_emit_adc_def jit_emit_sum_def Let_def calls_def dest!: operand_calls split: if_splits)
  subgoal by (auto simp: jit_emit_compare_def Let_def calls_def dest!: operand_calls split: if_splits)
  subgoal by (auto simp: jit_emit_sbc_def jit_emit_sum_def Let_def calls_def dest!: operand_calls split: if_splits)
  subgoal by (auto simp: jit_emit_bit_def Let_def calls_def dest!: operand_calls split: if_splits)
  done

lemma groups_write:
  "jit_emit_store bi = Some c \<Longrightarrow> list_all (calls True) c" "jit_emit_incdec_mem bi = Some c \<Longrightarrow> list_all (calls True) c"
  "jit_emit_shift_mem bi = Some c \<Longrightarrow> list_all (calls True) c" "jit_emit_bitmem bi = Some c \<Longrightarrow> list_all (calls True) c"
  "jit_emit_testbits bi = Some c \<Longrightarrow> list_all (calls True) c" "jit_emit_push bi = Some c \<Longrightarrow> list_all (calls True) c"
  "jit_emit_subroutine bi = Some c \<Longrightarrow> list_all (calls True) c"
  subgoal by (auto simp: jit_emit_store_def Let_def calls_def [of True] dest!: operand_calls split: if_splits)
  subgoal by (auto simp: jit_emit_incdec_mem_def Let_def calls_def [of True] dest!: operand_calls split: if_splits)
  subgoal by (auto simp: jit_emit_shift_mem_def Let_def calls_def [of True] dest!: operand_calls split: if_splits)
  subgoal by (auto simp: jit_emit_bitmem_def Let_def calls_def [of True] dest!: operand_calls split: if_splits)
  subgoal by (auto simp: jit_emit_testbits_def Let_def calls_def [of True] dest!: operand_calls split: if_splits)
  subgoal by (auto simp: jit_emit_push_def Let_def calls_def [of True] dest!: operand_calls split: if_splits)
  subgoal by (auto simp: jit_emit_subroutine_def Let_def calls_def [of True] dest!: operand_calls split: if_splits)
  done

section \<open>Conditional branches\<close>

text \<open>The bookkeeping of a back edge: the loop budget and the instruction counter.\<close>

definition counted :: "'h emu \<Rightarrow> 'h emu \<Rightarrow> bool" where
  "counted e e' \<longleftrightarrow> (\<exists>b. e' = e\<lparr>jit_loop_budget := b\<rparr>) \<or> (\<exists>b w. e' = store_stat w (e\<lparr>jit_loop_budget := b\<rparr>))"

lemma counted_refl: "counted e e"
  unfolding counted_def by (rule disjI1, rule exI [of _ "jit_loop_budget e"]) simp

lemma counted_simps:
  assumes "counted e e'"
  shows "guest e' = guest e" "native_state B M e' = native_state B M e" "use_jit e' = use_jit e" "regs e' = regs e" "state e' = state e"
  using assms by (auto simp: counted_def, auto simp: store_stat_def)

definition branch_ends :: "u16 list \<Rightarrow> bool \<Rightarrow> u16 \<Rightarrow> u8 \<Rightarrow> 'h emu \<Rightarrow> ('h, jit_exit) mrun \<Rightarrow> bool" where
  "branch_ends as taken target sz e r \<longleftrightarrow>
     (\<exists>x m'. r = Ret x m' \<and> ready m' \<and>
        (if taken then counted (set_PC target e) (memu m') \<and>
           (x = Leave_block \<or> (\<exists>t. x = Goto t \<and> t < length as \<and> as ! t = target))
         else x = Fall \<and> memu m' = set_PC (rPC (regs e) + ucast sz) e))"

lemma branch_code_run:
  fixes m :: "'h mach"
  assumes m: "ready m" "jit (memu m) = Some j" and k: "k < length as"
    and test: "\<And>(m :: 'h mach) w t. mr m JIT_R1 = Word w \<Longrightarrow> jit_step H (test t) m = branch_if (P w) t m"
    and target: "target = as ! k + ucast (isize (bi_id bi)) + scast (op1 (bi_i bi))"
  shows "branch_ends as (P (ucast (rP (regs (memu m))))) target (isize (bi_id bi)) (memu m) (run_code H (branch_code as k bi test) m)"
proof (cases "P (ucast (rP (regs (memu m))))")
  case True
  have jit: "jit (set_PC v (memu m)) = Some j" for v using m(2) by (simp add: set_PC_def)
  show ?thesis
    using m True target_index_Some [of target 0 as]
    by (auto simp: branch_code_def Let_def test jit_emit_advance_pc_def jit_emit_backedge_guard_def target [symmetric] ready_def
        branch_ends_def load_stat_def counted_refl jit split: option.split) (auto simp: counted_def)
next
  case False
  with m show ?thesis
    by (auto simp: branch_code_def Let_def test jit_emit_advance_pc_def jit_emit_backedge_guard_def ready_def branch_ends_def
        split: option.split)
qed

lemma branch_tests:
  fixes m :: "'h mach"
  shows "mr m JIT_R1 = Word w \<Longrightarrow> jit_step H (Bmci JIT_R1 i t) m = branch_if (w AND i = 0) t m"
    "mr m JIT_R1 = Word w \<Longrightarrow> jit_step H (Bmsi JIT_R1 i t) m = branch_if (w AND i \<noteq> 0) t m"
  by simp_all

lemma widen_test [simp]: "(ucast (p :: u8) :: u64) AND ucast (q :: u8) = 0 \<longleftrightarrow> p AND q = 0"
  using widen_zero [of "p AND q"] by (simp add: unsigned_and_eq del: widen_zero)

text \<open>What a conditional branch does in the interpreter.\<close>

definition branch_taken :: "u8 \<Rightarrow> u8 \<Rightarrow> bool" where
  "branch_taken opc p \<longleftrightarrow>
     (if opc = 0x90 then p AND P_CARRY = 0 else if opc = 0xB0 then p AND P_CARRY \<noteq> 0
      else if opc = 0xF0 then p AND P_ZERO \<noteq> 0 else if opc = 0xD0 then p AND P_ZERO = 0
      else if opc = 0x30 then p AND P_NEGATIVE \<noteq> 0 else if opc = 0x10 then p AND P_NEGATIVE = 0
      else if opc = 0x70 then p AND P_SIGN_OVERFLOW \<noteq> 0 else p AND P_SIGN_OVERFLOW = 0)"

lemma branch_step:
  assumes "decoded bi" "jit_opcode_is_cond_branch (opcode (bi_i bi))"
  shows "insn_step H bi e = Ret () (set_PC (rPC (regs e) + ucast (isize (bi_id bi)) +
    (if branch_taken (opcode (bi_i bi)) (rP (regs e)) then scast (op1 (bi_i bi)) else 0)) e)"
proof -
  have sum: "x + (2 + y) = x + y + 2" for x y :: u16 by simp
  from assms(2) show ?thesis
    unfolding jit_opcode_is_cond_branch_def list.set
    by (elim insertE emptyE; simp add: assms(1) insn_step_def decode_rows emul_dispatch_def instruction_modify_pc_def handler_defs
        program_counter_branch_def program_counter_increment_def branch_taken_def set_PC_def add.assoc sum add.commute [of 2])
qed

lemma branch_emitted:
  assumes "jit_emit_branch as k bi = Some c"
  shows "jit_opcode_is_cond_branch (opcode (bi_i bi))" "jit_emit_insn as k bi = c"
proof -
  show b: "jit_opcode_is_cond_branch (opcode (bi_i bi))"
    using assms by (simp add: jit_emit_branch_def jit_opcode_is_cond_branch_def Let_def split: if_split_asm)
  have none: "jit_emit_nop bi = None" "jit_emit_flags bi = None" "jit_emit_transfer bi = None" "jit_emit_incdec bi = None"
    "jit_emit_load bi = None" "jit_emit_store bi = None" "jit_emit_logic bi = None" "jit_emit_adc bi = None"
    "jit_emit_compare bi = None" "jit_emit_sbc bi = None" "jit_emit_incdec_mem bi = None"
    "jit_emit_shift_acc bi = None" "jit_emit_shift_mem bi = None" "jit_emit_bit bi = None" "jit_emit_bitmem bi = None"
    "jit_emit_testbits bi = None" "jit_emit_bitbranch bi = None" "jit_emit_push bi = None" "jit_emit_pull bi = None"
    "jit_emit_bra bi = None"
    using b unfolding jit_opcode_is_cond_branch_def list.set
    by (elim insertE emptyE; simp add: jit_emit_nop_def jit_emit_flags_def jit_emit_transfer_def jit_emit_incdec_def jit_emit_load_def
        jit_emit_store_def jit_emit_logic_def jit_emit_adc_def jit_emit_compare_def jit_emit_sbc_def
        jit_emit_incdec_mem_def jit_emit_shift_acc_def jit_emit_shift_mem_def jit_emit_bit_def jit_emit_bitmem_def
        jit_emit_testbits_def jit_emit_bitbranch_def jit_emit_push_def jit_emit_pull_def jit_emit_bra_def)+
  show "jit_emit_insn as k bi = c" by (simp add: jit_emit_insn_def jit_emit_groups_def none assms)
qed

lemma branch_none: "jit_emit_branch as k bi = None \<Longrightarrow> \<not> jit_opcode_is_cond_branch (opcode (bi_i bi))"
  by (simp add: jit_emit_branch_def jit_opcode_is_cond_branch_def Let_def split: if_split_asm)

lemma branch_codes:
  "jit_emit_branch as k bi =
     (let opc = opcode (bi_i bi); c = (\<lambda>test. Some (branch_code as k bi test)) in
      if opc = 0x90 then c (Bmci JIT_R1 (ucast P_CARRY)) else if opc = 0xB0 then c (Bmsi JIT_R1 (ucast P_CARRY))
      else if opc = 0xF0 then c (Bmsi JIT_R1 (ucast P_ZERO)) else if opc = 0xD0 then c (Bmci JIT_R1 (ucast P_ZERO))
      else if opc = 0x30 then c (Bmsi JIT_R1 (ucast P_NEGATIVE)) else if opc = 0x10 then c (Bmci JIT_R1 (ucast P_NEGATIVE))
      else if opc = 0x70 then c (Bmsi JIT_R1 (ucast P_SIGN_OVERFLOW)) else if opc = 0x50 then c (Bmci JIT_R1 (ucast P_SIGN_OVERFLOW))
      else None)"
  unfolding jit_emit_branch_def branch_code_def Let_def ..

lemma native_branch:
  fixes m :: "'h mach"
  assumes "jit_emit_branch as k bi = Some c" "ready m" "jit (memu m) = Some j" "k < length as"
  shows "branch_ends as (branch_taken (opcode (bi_i bi)) (rP (regs (memu m)))) (as ! k + ucast (isize (bi_id bi)) + scast (op1 (bi_i bi)))
    (isize (bi_id bi)) (memu m) (run_code H c m)"
proof -
  have clear: "branch_ends as (rP (regs (memu m)) AND q = 0) (as ! k + ucast (isize (bi_id bi)) + scast (op1 (bi_i bi)))
      (isize (bi_id bi)) (memu m) (run_code H (branch_code as k bi (Bmci JIT_R1 (ucast q))) m)" for q
    using branch_code_run [of m j k as H "Bmci JIT_R1 (ucast q)" "\<lambda>w. w AND ucast q = 0" _ bi, OF assms(2-4) branch_tests(1) refl] by simp
  have tested: "branch_ends as (rP (regs (memu m)) AND q \<noteq> 0) (as ! k + ucast (isize (bi_id bi)) + scast (op1 (bi_i bi)))
      (isize (bi_id bi)) (memu m) (run_code H (branch_code as k bi (Bmsi JIT_R1 (ucast q))) m)" for q
    using branch_code_run [of m j k as H "Bmsi JIT_R1 (ucast q)" "\<lambda>w. w AND ucast q \<noteq> 0" _ bi, OF assms(2-4) branch_tests(2) refl] by simp
  from branch_emitted(1) [OF assms(1)] show ?thesis
    using assms(1) unfolding jit_opcode_is_cond_branch_def list.set branch_codes Let_def
    by (elim insertE emptyE; insert clear [of P_CARRY] clear [of P_ZERO] clear [of P_NEGATIVE] clear [of P_SIGN_OVERFLOW]
        tested [of P_CARRY] tested [of P_ZERO] tested [of P_NEGATIVE] tested [of P_SIGN_OVERFLOW]; simp add: branch_taken_def)
qed

text \<open>
  C4. Native code is equivalent to the interpreter, instruction by instruction, whenever the
  compiler emits its own code for the instruction. Running that code reaches the state, or unwinds
  in the state, that the instruction's handler and the update of the program counter reach; it
  then runs on into the next instruction, or leaves the block when the instruction writes memory
  and the JIT has been switched off. A conditional branch reaches the interpreter's state up to
  the loop budget and the counter of back edges; it runs on when it is not taken, and when
  taken leaves the block or goes to the code of the instruction at its target. The host's
  callbacks must leave the registers alone, and BIT with a memory operand needs reads without
  effect, because its handler reads the operand twice.
\<close>

theorem native_insn_equivalent:
  assumes "host_keeps regs H" "bi_id bi = instruction_decode (opcode (bi_i bi))"
    and "jit_emit_insn as k bi \<noteq> jit_emit_fallback bi"
    and "emul (bi_id bi) = Some EMUL_BIT \<Longrightarrow> mode (bi_id bi) = IMMEDIATE \<or> steady H (memu m)"
    and "mr m JIT_R0 = Emu_ptr" "mr m JIT_V0 = Emu_ptr"
    and "jit_opcode_is_cond_branch (opcode (bi_i bi)) \<Longrightarrow>
      jit (memu m) \<noteq> None \<and> k < length as \<and> as ! k = rPC (regs (memu m))"
  shows "if jit_opcode_is_cond_branch (opcode (bi_i bi))
    then \<exists>x m' e1. insn_step H bi (memu m) = Ret () e1 \<and> run_code H (jit_emit_insn as k bi) m = Ret x m' \<and>
      counted e1 (memu m') \<and>
      (if branch_taken (opcode (bi_i bi)) (rP (regs (memu m)))
       then x = Leave_block \<or> (\<exists>t. x = Goto t \<and> t < length as \<and> as ! t = rPC (regs e1))
       else x = Fall)
    else leave_mach (run_code H (jit_emit_insn as k bi) m) =
      andthen (insn_step H bi (memu m)) (\<lambda>_ e. Ret (exit_of bi e) e)"
proof (cases "jit_emit_branch as k bi")
  case None
  with branch_none [OF None] show ?thesis
    using matches_leave [OF native_code_matches [OF assms(1,2) _ assms(3) None assms(4)]] assms(5,6) by (simp add: ready_def)
next
  case (Some c)
  note b = branch_emitted [OF Some]
  from assms(7) [OF b(1)] obtain j where j: "jit (memu m) = Some j" and k: "k < length as" "as ! k = rPC (regs (memu m))" by blast
  have "ready m" using assms(5,6) by (simp add: ready_def)
  from native_branch [OF Some this j k(1), of H] b branch_step [OF assms(2) b(1), of H "memu m"] k(2) show ?thesis
    by (auto simp: branch_ends_def counted_refl set_PC_def split: if_split_asm)
qed

definition sample_insn :: "u8 \<Rightarrow> u8 \<Rightarrow> u8 \<Rightarrow> jit_block_insn" where
  "sample_insn opc o1 o2 = \<lparr>bi_i = \<lparr>opcode = opc, op1 = o1, op2 = o2\<rparr>, bi_id = instruction_decode opc\<rparr>"

text \<open>An ADC, and a BNE to itself, which is taken.\<close>

theorem native_insn_equivalent_witness:
  "leave_mach (run_code sample_host (jit_emit_insn [0x0200] 0 (sample_insn 0x69 0x50 0))
       (enter_mach sample_host (sample_emu (\<lambda>_. 0) 0x0200))) =
     andthen (insn_step sample_host (sample_insn 0x69 0x50 0) (sample_emu (\<lambda>_. 0) 0x0200)) (\<lambda>_ e. Ret Fall e) \<and>
   (\<exists>x m'. run_code sample_host (jit_emit_insn [0x0200] 0 (sample_insn 0xD0 0xFE 0))
       (enter_mach sample_host ((sample_emu (\<lambda>_. 0) 0x0200)\<lparr>jit := Some sample_jit\<rparr>)) = Ret x m' \<and>
     rPC (regs (memu m')) = 0x0200 \<and> x \<noteq> Fall)"
proof
  let ?bi = "sample_insn 0x69 0x50 0"
  have bi: "opcode (bi_i ?bi) = 0x69" "bi_id ?bi = instruction_decode 0x69" by (simp_all add: sample_insn_def)
  have "jit_emit_insn [0x0200] 0 ?bi \<noteq> jit_emit_fallback ?bi"
    by (simp add: jit_emit_insn_def jit_emit_groups_def bi jit_emit_nop_def jit_emit_flags_def jit_emit_transfer_def
        jit_emit_incdec_def jit_emit_load_def jit_emit_store_def jit_emit_logic_def jit_emit_adc_def
        jit_emit_load_operand_def jit_emit_effaddr_def decode_rows jit_emit_fallback_def)
  then show "leave_mach (run_code sample_host (jit_emit_insn [0x0200] 0 ?bi) (enter_mach sample_host (sample_emu (\<lambda>_. 0) 0x0200))) =
     andthen (insn_step sample_host ?bi (sample_emu (\<lambda>_. 0) 0x0200)) (\<lambda>_ e. Ret Fall e)"
    using native_insn_equivalent [of sample_host ?bi "[0x0200]" 0 "enter_mach sample_host (sample_emu (\<lambda>_. 0) 0x0200)"]
    by (simp add: bi jit_opcode_is_cond_branch_def decode_rows exit_of_def leaves_def)
next
  let ?bi = "sample_insn 0xD0 0xFE 0" and ?e = "(sample_emu (\<lambda>_. 0) 0x0200)\<lparr>jit := Some sample_jit\<rparr> :: unit emu"
  have bi: "opcode (bi_i ?bi) = 0xD0" "op1 (bi_i ?bi) = 0xFE" "bi_id ?bi = instruction_decode 0xD0" by (simp_all add: sample_insn_def)
  have b: "jit_opcode_is_cond_branch (opcode (bi_i ?bi))" by (simp add: bi jit_opcode_is_cond_branch_def)
  obtain c where c: "jit_emit_branch [0x0200] 0 ?bi = Some c" by (simp add: branch_codes bi)
  have "jit_emit_insn [0x0200] 0 ?bi \<noteq> jit_emit_fallback ?bi"
    using branch_emitted(2) [OF c] c by (auto simp: branch_codes bi branch_code_def jit_emit_fallback_def Let_def)
  moreover have "branch_taken (opcode (bi_i ?bi)) (rP (regs ?e))" by (simp add: bi branch_taken_def)
  moreover from this have "insn_step sample_host ?bi ?e = Ret () (set_PC 0x0200 ?e)"
    using branch_step [OF _ b, of sample_host ?e] by (simp add: bi decode_rows)
  ultimately show "\<exists>x m'. run_code sample_host (jit_emit_insn [0x0200] 0 ?bi) (enter_mach sample_host ?e) = Ret x m' \<and>
     rPC (regs (memu m')) = 0x0200 \<and> x \<noteq> Fall"
    using native_insn_equivalent [of sample_host ?bi "[0x0200]" 0 "enter_mach sample_host ?e"] b
    by (auto simp: bi decode_rows counted_simps set_PC_def)
qed

section \<open>A block\<close>

lemma insn_addrs_length [simp]: "length (insn_addrs a insns) = length insns"
  by (induction insns arbitrary: a) simp_all

lemma insn_addrs_Suc:
  "Suc k < length insns \<Longrightarrow> insn_addrs a insns ! Suc k = insn_addrs a insns ! k + ucast (isize (bi_id (insns ! k)))"
proof (induction insns arbitrary: a k)
  case (Cons bi insns)
  then show ?case by (cases k; cases insns) simp_all
qed simp

lemma block_ok_nth:
  assumes "block_ok start a insns" "k < length insns"
  shows "decoded (insns ! k)" "Suc k < length insns \<Longrightarrow> \<not> ends_block (opcode (bi_i (insns ! k)))"
  using assms
  by (induction insns arbitrary: a k; auto simp: nth_Cons split: nat.splits)+

text \<open>The instructions of a block are those in memory at their addresses, all bytes in \<open>S\<close>.\<close>

definition code_at :: "'h host \<Rightarrow> u16 set \<Rightarrow> (u16 \<Rightarrow> u8) \<Rightarrow> u16 \<Rightarrow> jit_block_insn list \<Rightarrow> bool" where
  "code_at H S M pc insns \<longleftrightarrow>
     (\<forall>k < length insns. bi_i (insns ! k) = insn_at H M (insn_addrs pc insns ! k) \<and>
        (\<forall>i < unat (isize (bi_id (insns ! k))). insn_addrs pc insns ! k + of_nat i \<in> S))"

lemma insn_at_cong:
  assumes "\<And>i. i < 1 + mode_operands (mode (instruction_decode (M a))) \<Longrightarrow> M' (a + of_nat i) = M (a + of_nat i)"
  shows "insn_at H M' a = insn_at H M a"
  using assms [of 0] assms [of 1] assms [of 2] by (simp add: insn_at_def Let_def)

lemma insn_at_opcode [simp]: "opcode (insn_at H M a) = M a"
  by (simp add: insn_at_def Let_def)

lemma fetched_le_size: "1 + mode_operands (mode (instruction_decode opc)) \<le> unat (isize (instruction_decode opc))"
proof -
  have "list_all (\<lambda>r. 1 + mode_operands (mode r) \<le> unat (isize r)) instrs"
    by (simp add: instrs_def row_def mode_operands_def)
  from decode_all [OF this] show ?thesis .
qed

lemma code_fetch:
  assumes "code_at H S M pc insns" "k < length insns" "decoded (insns ! k)" "\<forall>a \<in> S. M' a = M a"
  shows "bi_i (insns ! k) = insn_at H M' (insn_addrs pc insns ! k)"
proof -
  let ?a = "insn_addrs pc insns ! k"
  from assms(1,2) have i: "bi_i (insns ! k) = insn_at H M ?a"
    and S: "\<And>i. i < unat (isize (bi_id (insns ! k))) \<Longrightarrow> ?a + of_nat i \<in> S" by (auto simp: code_at_def)
  have "1 + mode_operands (mode (instruction_decode (M ?a))) \<le> unat (isize (bi_id (insns ! k)))"
    using assms(3) i fetched_le_size [of "M ?a"] by simp
  with S assms(4) have "insn_at H M' ?a = insn_at H M ?a" by (intro insn_at_cong) auto
  with i show ?thesis by simp
qed

lemma native_calls:
  assumes bi: "decoded bi" and c: "jit_emit_insn as k bi \<noteq> jit_emit_fallback bi" "jit_emit_branch as k bi = None"
  shows "list_all (calls True) (jit_emit_insn as k bi)"
    and "\<not> leaves (bi_id bi) \<Longrightarrow> opcode (bi_i bi) \<noteq> 0x60 \<Longrightarrow> list_all (calls False) (jit_emit_insn as k bi)"
proof -
  let ?c = "jit_emit_insn as k bi"
  from emitted_group [OF c(1)] c(2)
  consider "jit_emit_nop bi = Some ?c" | "jit_emit_flags bi = Some ?c" | "jit_emit_transfer bi = Some ?c"
    | "jit_emit_incdec bi = Some ?c" | "jit_emit_load bi = Some ?c" | "jit_emit_store bi = Some ?c"
    | "jit_emit_logic bi = Some ?c" | "jit_emit_adc bi = Some ?c" | "jit_emit_compare bi = Some ?c" | "jit_emit_sbc bi = Some ?c"
    | "jit_emit_incdec_mem bi = Some ?c" | "jit_emit_shift_acc bi = Some ?c" | "jit_emit_shift_mem bi = Some ?c"
    | "jit_emit_bit bi = Some ?c" | "jit_emit_bitmem bi = Some ?c" | "jit_emit_testbits bi = Some ?c" | "jit_emit_bitbranch bi = Some ?c"
    | "jit_emit_push bi = Some ?c" | "jit_emit_pull bi = Some ?c" | "jit_emit_bra bi = Some ?c" | "jit_emit_jump bi = Some ?c"
    | "jit_emit_subroutine bi = Some ?c"
    unfolding jit_emit_groups_def list.set by auto
  then have "list_all (calls True) ?c \<and> (\<not> leaves (bi_id bi) \<longrightarrow> opcode (bi_i bi) \<noteq> 0x60 \<longrightarrow> list_all (calls False) ?c)"
    using groups_read [of bi ?c True] groups_read [of bi ?c False] groups_write [of bi ?c] leaves_writes [OF bi, of ?c]
      stays_other(11,12) [OF bi, of ?c]
    by cases (simp_all, blast)
  then show "list_all (calls True) ?c" "\<not> leaves (bi_id bi) \<Longrightarrow> opcode (bi_i bi) \<noteq> 0x60 \<Longrightarrow> list_all (calls False) ?c"
    by blast+
qed

lemma ends_block_straight:
  "\<not> ends_block opc \<Longrightarrow> \<not> jit_opcode_is_cond_branch opc \<Longrightarrow> \<not> instruction_modify_pc (instruction_decode opc) \<and> opc \<noteq> 0x60"
  by (simp add: ends_block_def)

lemma native_steady: "native_state B M e \<Longrightarrow> steady H e"
  unfolding steady_def by (rule exI [of _ "mem e"]) (simp add: set_P_def native_read mem_def)

definition next_insn :: "u16 \<Rightarrow> jit_block_insn list \<Rightarrow> nat \<Rightarrow> jit_exit \<Rightarrow> 'h emu \<Rightarrow> bool" where
  "next_insn pc insns k x e \<longleftrightarrow>
     (case x of
        Fall \<Rightarrow> Suc k < length insns \<longrightarrow> state e = RUNNING \<and> use_jit e \<and> rPC (regs e) = insn_addrs pc insns ! Suc k
      | Goto t \<Rightarrow> state e = RUNNING \<and> use_jit e \<and> t < length insns \<and> rPC (regs e) = insn_addrs pc insns ! t
      | Leave_block \<Rightarrow> True)"

lemma fallback_run:
  assumes "ready m" "rk65c02_exec H (memu m) = Ret () e1"
  shows "\<exists>m'. run_code H (jit_emit_fallback bi) m =
    Ret (if modify_pc (bi_id bi) \<or> state e1 \<noteq> RUNNING \<or> \<not> use_jit e1 then Leave_block else Fall) m' \<and> memu m' = e1 \<and> ready m'"
  using assms
  by (cases "state e1"; auto simp: jit_emit_fallback_def ready_def jit_exec_fallback_def on_emu_def clobber_def state_num_def)

lemma block_step:
  assumes H: "host_keeps regs H" and ok: "block_ok pc pc insns" and k: "k < length insns"
    and m: "ready m" "native_state B M (memu m)" "use_jit (memu m)" "state (memu m) = RUNNING"
    and i: "bi_i (insns ! k) = insn_at H (mem (memu m)) (rPC (regs (memu m)))" "rPC (regs (memu m)) = insn_addrs pc insns ! k"
  shows "\<exists>x m' e1. run_code H (jit_emit_insn (insn_addrs pc insns) k (insns ! k)) m = Ret x m' \<and>
    rk65c02_exec H (memu m) = Ret () e1 \<and> counted e1 (memu m') \<and> ready m' \<and> next_insn pc insns k x e1"
proof -
  let ?as = "insn_addrs pc insns" and ?bi = "insns ! k"
  let ?c = "jit_emit_insn ?as k ?bi"
  from native_exec [OF m(2), of H] obtain e1 where e1: "rk65c02_exec H (memu m) = Ret () e1" by blast
  note bi = block_ok_nth [OF ok k]
  have step: "insn_step H ?bi (memu m) = Ret () e1" using native_exec_step [OF m(2) i(1) bi(1)] e1 by simp
  have line: "rPC (regs e1) = ?as ! Suc k"
    if "\<not> jit_opcode_is_cond_branch (opcode (bi_i ?bi))" "Suc k < length insns"
    using native_line [OF m(2) bi(1) _ _ step] ends_block_straight [OF bi(2) [OF that(2)] that(1)] bi(1) insn_addrs_Suc [OF that(2)] i(2)
    by simp
  consider (fallback) "?c = jit_emit_fallback ?bi" "jit_emit_branch ?as k ?bi = None" | (branch) c where "jit_emit_branch ?as k ?bi = Some c"
    | (native) "?c \<noteq> jit_emit_fallback ?bi" "jit_emit_branch ?as k ?bi = None" by fastforce
  then show ?thesis
  proof cases
    case fallback
    from fallback_run [OF m(1) e1, of ?bi] obtain m' where m': "run_code H (jit_emit_fallback ?bi) m =
        Ret (if modify_pc (bi_id ?bi) \<or> state e1 \<noteq> RUNNING \<or> \<not> use_jit e1 then Leave_block else Fall) m'" "memu m' = e1" "ready m'"
      by blast
    with e1 line branch_none [OF fallback(2)] show ?thesis by (simp add: fallback(1) counted_refl next_insn_def)
  next
    case branch
    from m(2) obtain j where "jit (memu m) = Some j" by (auto simp: native_state_def)
    from native_branch [OF branch m(1) this, of H] k
    have ends: "branch_ends ?as (branch_taken (opcode (bi_i ?bi)) (rP (regs (memu m)))) (?as ! k + ucast (isize (bi_id ?bi)) + scast (op1 (bi_i ?bi)))
      (isize (bi_id ?bi)) (memu m) (run_code H ?c m)" using branch_emitted(2) [OF branch] by simp
    have "e1 = set_PC (?as ! k + ucast (isize (bi_id ?bi)) +
        (if branch_taken (opcode (bi_i ?bi)) (rP (regs (memu m))) then scast (op1 (bi_i ?bi)) else 0)) (memu m)"
      using branch_step [OF bi(1) branch_emitted(1) [OF branch], of H "memu m"] step i(2) by simp
    with ends e1 insn_addrs_Suc [of k insns pc] i(2) m(3,4) show ?thesis
      by (auto simp: branch_ends_def counted_refl next_insn_def set_PC_def split: if_split_asm)
  next
    case native
    from native_code_matches [OF H bi(1) m(1) native native_steady [OF m(2), THEN disjI2]] step
    obtain m' where m': "run_code H ?c m = Ret (exit_of ?bi e1) m'" "memu m' = e1" "ready m'"
      by (cases "run_code H ?c m") auto
    have "use_jit e1" if "\<not> leaves (bi_id ?bi)" "Suc k < length insns"
    proof -
      have "opcode (bi_i ?bi) \<noteq> 0x60" using ends_block_straight [OF bi(2) [OF that(2)] branch_none [OF native(2)]] by simp
      from still_on.K_code [where u = True and m = m and H = H, OF native_calls(2) [OF bi(1) native that(1) this]] native_undisturbed(2) [OF m(2)] m(3) m'
      show ?thesis by simp
    qed
    moreover have "state e1 = RUNNING"
      using still_running.K_code [where s = RUNNING and m = m and H = H, OF native_calls(1) [OF bi(1) native]] native_undisturbed(2) [OF m(2)] m(4) m' by simp
    ultimately show ?thesis using m' e1 line branch_none [OF native(2)]
      by (auto simp: counted_refl next_insn_def exit_of_def split: if_splits)
  qed
qed

section \<open>The run of a block\<close>

text \<open>The interpreter executes instructions as long as the machine is running.\<close>

definition run_step :: "'h host \<Rightarrow> 'h emu \<Rightarrow> 'h emu \<Rightarrow> bool" where
  "run_step H e e' \<longleftrightarrow> state e = RUNNING \<and> rk65c02_exec H e = Ret () e'"

lemma block_run:
  fixes m :: "'h mach"
  assumes H: "host_keeps regs H" and ok: "block_ok pc pc insns" and code: "code_at H (live_code B) M pc insns"
    and run: "run_block H (jit_emit_block pc insns) k m = Some r" and k: "k < length insns"
    and m: "ready m" "native_state B M (memu m)" "use_jit (memu m)" "state (memu m) = RUNNING" "rPC (regs (memu m)) = insn_addrs pc insns ! k"
  shows "\<exists>m'. r = Ret () m' \<and> native_state B M (memu m') \<and> (run_step H)\<^sup>+\<^sup>+ (guest (memu m)) (guest (memu m'))"
proof -
  let ?codes = "jit_emit_block pc insns"
  let ?ready = "\<lambda>k (m :: 'h mach). k < length insns \<and> ready m \<and> native_state B M (memu m) \<and> use_jit (memu m) \<and>
    state (memu m) = RUNNING \<and> rPC (regs (memu m)) = insn_addrs pc insns ! k"
  let ?done = "\<lambda>m r. \<exists>m' :: 'h mach. r = Ret () m' \<and> native_state B M (memu m') \<and> (run_step H)\<^sup>+\<^sup>+ (guest (memu m)) (guest (memu m'))"
  let ?P = "\<lambda>H' codes k (m :: 'h mach) r. H' = H \<longrightarrow> codes = ?codes \<longrightarrow>
    (?ready k m \<longrightarrow> ?done m r) \<and> (k \<ge> length insns \<longrightarrow> r = Ret () m)"
  have "?P H ?codes k m r"
  proof (rule run_block.raw_induct [OF _ run, of ?P], intro impI conjI)
    fix f :: "'h host \<Rightarrow> jit_op list list \<Rightarrow> nat \<Rightarrow> 'h mach \<Rightarrow> ('h, unit) mrun option" and H' codes k and m :: "'h mach" and r
    assume IH: "\<And>H codes k m r. f H codes k m = Some r \<Longrightarrow> ?P H codes k m r" and H': "H' = H" and codes: "codes = ?codes"
    assume body: "(if length codes \<le> k then Some (Ret () m)
      else case run_code H' (codes ! k) m of
             Ret Fall m \<Rightarrow> f H' codes (k + 1) m
           | Ret (Goto t) m \<Rightarrow> f H' codes t m
           | Ret Leave_block m \<Rightarrow> Some (Ret () m)
           | Longjmp m \<Rightarrow> Some (Longjmp m) | Abort \<Rightarrow> Some Abort) = Some r"
    have len: "length ?codes = length insns" by (simp add: jit_emit_block_def)
    show "r = Ret () m" if "length insns \<le> k" using body that by (simp add: codes len)
    assume m: "?ready k m"
    then have i: "bi_i (insns ! k) = insn_at H (mem (memu m)) (rPC (regs (memu m)))"
      using code_fetch [OF code, of k "mem (memu m)"] block_ok_nth(1) [OF ok] native_intact [of B M "memu m"] by simp
    obtain x m' e1 where s: "run_code H (?codes ! k) m = Ret x m'" "rk65c02_exec H (memu m) = Ret () e1"
        "counted e1 (memu m')" "ready m'" "next_insn pc insns k x e1"
      using block_step [of H pc insns k m B M, OF H ok _ _ _ _ _ i] m by (simp add: jit_emit_block_def) blast
    have e1: "native_state B M e1" "run_step H (guest (memu m)) (guest e1)"
      using native_exec [of B M "memu m" H] m s(2) by (auto simp: run_step_def)
    have m': "native_state B M (memu m')" "guest (memu m') = guest e1" "use_jit (memu m') = use_jit e1" "regs (memu m') = regs e1"
      "state (memu m') = state e1"
      using counted_simps [OF s(3)] e1(1) by simp_all
    have go: "?done m r" if "?done m' r"
      using that m'(2) e1(2) by (auto intro: tranclp_into_tranclp2)
    have stop: "?done m r" if "r = Ret () m'" using that m' e1(2) by (auto simp: m'(2))
    show "?done m r"
    proof (cases x)
      case Fall
      with body s m have f: "f H' codes (Suc k) m' = Some r" by (simp add: H' codes len)
      show ?thesis
      proof (cases "Suc k < length insns")
        case True
        with IH [OF f] s(4,5) m' have "?done m' r" by (simp add: H' codes next_insn_def Fall)
        then show ?thesis by (rule go)
      next
        case False
        with IH [OF f] have "r = Ret () m'" by (simp add: H' codes)
        then show ?thesis by (rule stop)
      qed
    next
      case (Goto t)
      with body s m have f: "f H' codes t m' = Some r" by (simp add: H' codes len)
      from IH [OF f] s(4,5) m' have "?done m' r" by (simp add: H' codes next_insn_def Goto)
      then show ?thesis by (rule go)
    next
      case Leave_block
      with body s m have "r = Ret () m'" by (simp add: H' codes len)
      then show ?thesis by (rule stop)
    qed
  qed
  with k m show ?thesis by blast
qed

end
