(* ===== verification/JitRefine.thy ===== *)
theory JitRefine
  imports NativeBlock JitProps
begin

text \<open>
  The JIT is invisible to the guest: on a machine with 64K of RAM and the MMU off that nothing
  outside disturbs, a run with the JIT ends exactly when the interpreter alone would, and in the
  same state.
\<close>

section \<open>The cache mirrors memory\<close>

definition synced :: "'h host \<Rightarrow> (u16 \<Rightarrow> u8) \<Rightarrow> (u16 \<Rightarrow> jit_block option) \<Rightarrow> bool" where
  "synced H M B \<longleftrightarrow> (\<forall>i b insns. B i = Some b \<longrightarrow> fn b = Some insns \<longrightarrow>
     (\<forall>k < length insns. bi_i (insns ! k) = insn_at H M (insn_addrs i insns ! k)))"

definition mirrored :: "'h host \<Rightarrow> 'h emu \<Rightarrow> bool" where
  "mirrored H e \<longleftrightarrow> undisturbed e \<and> \<not> in_jit_run e \<and>
     (\<exists>j. jit e = Some j \<and> jit_inv j \<and> blocks_wf j \<and> synced H (mem e) (blocks j) \<and>
        pending_writes j = 0 \<and> \<not> pending_write_overflow j \<and> \<not> needs_flush j \<and>
        (\<forall>i b. live_block j i b \<longrightarrow> \<not> mmu_phys_page_valid b))"

lemma insn_addrs_len: "k < length insns \<Longrightarrow> insn_addrs a insns ! k = a + of_nat (insns_len (take k insns))"
proof (induction insns arbitrary: a k)
  case (Cons bi insns)
  then show ?case by (cases k) (simp_all add: insns_len_def add.assoc)
qed simp

lemma insns_len_take:
  assumes "k < length insns"
  shows "insns_len (take k insns) + unat (isize (bi_id (insns ! k))) \<le> insns_len insns"
proof -
  have "insns = take k insns @ insns ! k # drop (Suc k) insns" using assms by (simp add: id_take_nth_drop)
  then have "insns_len insns = insns_len (take k insns) + unat (isize (bi_id (insns ! k))) + insns_len (drop (Suc k) insns)"
    unfolding insns_len_def by (metis (no_types, lifting) add.assoc list.simps(9) map_append sum_list.Cons sum_list_append)
  then show ?thesis by simp
qed

text \<open>A block covers every byte of its instructions.\<close>

lemma block_bytes:
  assumes wf: "block_wf i b" and fn: "fn b = Some insns" and k: "k < length insns" and n: "n < unat (isize (bi_id (insns ! k)))"
  shows "jit_block_contains_addr b (insn_addrs i insns ! k + of_nat n)"
proof -
  have b: "start_pc b = i" "insns \<noteq> []" "block_ok i i insns" "end_pc_exclusive b = i + of_nat (insns_len insns)"
    using wf fn by (simp_all add: block_wf_def insns_end_len)
  let ?d = "insns_len (take k insns) + n"
  have d: "?d < insns_len insns" using insns_len_take [OF k] n by simp
  moreover have "insns_len insns \<le> 256" using block_ok_len [OF b(3,2)] by simp
  ultimately have "(of_nat ?d :: u16) < of_nat (insns_len insns)"
    unfolding word_less_nat_alt by (subst (1 2) unat_of_nat) simp
  then show ?thesis
    unfolding contains_span insn_addrs_len [OF k] b by (simp add: in_span_def add.assoc)
qed

lemma synced_code:
  assumes "synced H M B" "B i = Some b" "fn b = Some insns" "block_wf i b"
  shows "code_at H {a. jit_block_contains_addr b a} M i insns" "code_at H (live_code B) M i insns"
proof -
  show c: "code_at H {a. jit_block_contains_addr b a} M i insns"
    using assms block_bytes [OF assms(4,3)] by (auto simp: code_at_def synced_def)
  have "{a. jit_block_contains_addr b a} \<subseteq> live_code B" using assms(2,3) by (auto simp: live_code_def)
  with c show "code_at H (live_code B) M i insns" by (auto simp: code_at_def)
qed

text \<open>Blocks that survive, over bytes that did not change, still mirror memory.\<close>

lemma synced_survivors:
  assumes "synced H M B" "\<And>i b. B i = Some b \<Longrightarrow> block_wf i b"
    and "\<And>i b. B' i = Some b \<Longrightarrow> fn b \<noteq> None \<Longrightarrow> B i = Some b \<and> (\<forall>a. jit_block_contains_addr b a \<longrightarrow> M' a = M a)"
  shows "synced H M' B'"
  unfolding synced_def
proof (intro allI impI)
  fix i b insns k
  assume b: "B' i = Some b" "fn b = Some insns" "k < length insns"
  then have B: "B i = Some b" and M: "\<And>a. jit_block_contains_addr b a \<Longrightarrow> M' a = M a" using assms(3) by force+
  note wf = assms(2) [OF B]
  from wf b have "decoded (insns ! k)" by (auto simp: block_wf_def dest: block_ok_nth(1))
  from code_fetch [OF synced_code(1) [OF assms(1) B b(2) wf] b(3) this, of M'] M
  show "bi_i (insns ! k) = insn_at H M' (insn_addrs i insns ! k)" by simp
qed

section \<open>Stores outside native code\<close>

lemma settled_refs_update [simp]:
  "pending_writes (jit_block_page_refs_update add b j) = pending_writes j"
  "pending_write_overflow (jit_block_page_refs_update add b j) = pending_write_overflow j"
  "needs_flush (jit_block_page_refs_update add b j) = needs_flush j"
  by (simp_all add: jit_block_page_refs_update_def Let_def split: prod.split)

lemma settled_sweep [simp]:
  "pending_writes (jit_sweep p j) = pending_writes j" "pending_write_overflow (jit_sweep p j) = pending_write_overflow j"
  "needs_flush (jit_sweep p j) = needs_flush j"
proof -
  have slot: "pending_writes (jit_sweep_slot p i j) = pending_writes j"
    "pending_write_overflow (jit_sweep_slot p i j) = pending_write_overflow j" "needs_flush (jit_sweep_slot p i j) = needs_flush j" for i j
    by (simp_all add: jit_sweep_slot_def jit_discard_block_def Let_def split: option.split)
  have "pending_writes (fold (jit_sweep_slot p) is j) = pending_writes j \<and>
      pending_write_overflow (fold (jit_sweep_slot p) is j) = pending_write_overflow j \<and>
      needs_flush (fold (jit_sweep_slot p) is j) = needs_flush j" for "is"
    by (induction "is" arbitrary: j) (simp_all add: slot)
  then show "pending_writes (jit_sweep p j) = pending_writes j" "pending_write_overflow (jit_sweep p j) = pending_write_overflow j"
    "needs_flush (jit_sweep p j) = needs_flush j"
    unfolding jit_sweep_def fold_u16 by simp_all
qed

lemma settled_invalidate [simp]:
  "pending_writes (jit_invalidate_write a phys j) = pending_writes j"
  "pending_write_overflow (jit_invalidate_write a phys j) = pending_write_overflow j"
  "needs_flush (jit_invalidate_write a phys j) = needs_flush j"
  "pending_writes (jit_invalidate_blocks_for_page p j) = pending_writes j"
  "pending_write_overflow (jit_invalidate_blocks_for_page p j) = pending_write_overflow j"
  "needs_flush (jit_invalidate_blocks_for_page p j) = needs_flush j"
  by (simp_all add: jit_invalidate_write_def jit_count_page_event_def Let_def jit_invalidate_blocks_for_addr_def
      jit_invalidate_blocks_for_page_def jit_invalidate_blocks_for_phys_addr_def split: option.split)

lemma note_write_interp:
  assumes e: "\<not> mmu_enabled e" "\<not> in_jit_run e" "jit e = Some j" and j: "jit_inv j"
  shows "((\<forall>i b. live_block j i b \<longrightarrow> \<not> jit_block_contains_addr b a) \<and> rk65c02_jit_note_guest_write H a e = e) \<or>
    (\<exists>p st. rk65c02_jit_note_guest_write H a e = e\<lparr>jit := Some (jit_invalidate_write a p (j\<lparr>stats := st\<rparr>))\<rparr>)"
proof -
  have "jit_translate_paddr H a MMU_WRITE e = (fst (jit_translate_paddr H a MMU_WRITE e), e)"
    using e by (simp add: jit_translate_paddr_def rk65c02_mmu_translate_cached_def)
  then obtain t where t: "(if compiled_phys_refs_total j \<noteq> 0 then jit_translate_paddr H a MMU_WRITE e else (None, e)) = (t, e)"
    by (cases "compiled_phys_refs_total j = 0") auto
  let ?cv = "compiled_page_refcnt j (hi8 a) \<noteq> 0 \<and> covered_addr_refcnt j a \<noteq> 0"
  define phys where "phys = (case t of None \<Rightarrow> None
    | Some paddr \<Rightarrow> if covered_phys_addr_refcnt j paddr \<noteq> 0 \<or> compiled_phys_page_refcnt j (hi8 paddr) \<noteq> 0 then Some paddr else None)"
  define st where "st = (stats j)\<lparr>write_events := write_events (stats j) + 1\<rparr>"
  have n: "rk65c02_jit_note_guest_write H a e = (if active_blocks j = 0 \<or> \<not> ?cv \<and> phys = None then e
      else e\<lparr>jit := Some (jit_invalidate_write a phys (j\<lparr>stats := st\<rparr>))\<rparr>)"
    unfolding rk65c02_jit_note_guest_write_def e(3) option.case t Let_def prod.case phys_def st_def
    using jit_inv_magic [OF j] e by auto
  show ?thesis
  proof (cases "active_blocks j = 0 \<or> \<not> ?cv \<and> phys = None")
    case True
    with no_active [OF j] uncovered_addr [OF j, of a] n show ?thesis by simp blast
  next
    case False
    with n show ?thesis by (simp only: if_False) blast
  qed
qed

lemma mirrored_jit:
  assumes m: "mirrored H e" "jit e = Some j" and j': "jit_inv j'" "blocks_wf j'"
    and settled: "pending_writes j' = 0" "\<not> pending_write_overflow j'" "\<not> needs_flush j'"
    and live: "\<And>i b. live_block j' i b \<Longrightarrow> live_block j i b \<and> (\<forall>a. jit_block_contains_addr b a \<longrightarrow> mem e' a = mem e a)"
    and e': "undisturbed e'" "\<not> in_jit_run e'" "jit e' = Some j'"
  shows "mirrored H e'"
proof -
  from m have "synced H (mem e) (blocks j)" "\<And>i b. blocks j i = Some b \<Longrightarrow> block_wf i b"
    by (auto simp: mirrored_def blocks_wf_def)
  then have "synced H (mem e') (blocks j')"
    by (rule synced_survivors) (use live in \<open>auto simp: live_block_def\<close>)
  moreover have "\<forall>i b. live_block j i b \<longrightarrow> \<not> mmu_phys_page_valid b" using m by (auto simp: mirrored_def)
  then have "\<forall>i b. live_block j' i b \<longrightarrow> \<not> mmu_phys_page_valid b" using live by blast
  ultimately show ?thesis using j' settled e' by (auto simp: mirrored_def)
qed

lemma mirrored_store:
  assumes m: "mirrored H e"
  shows "mirrored H (rk65c02_jit_note_guest_write H a (poke a v e))"
proof -
  from m obtain j where e: "undisturbed e" "\<not> in_jit_run e" "jit e = Some j" and j: "jit_inv j" "blocks_wf j"
      "pending_writes j = 0" "\<not> pending_write_overflow j" "\<not> needs_flush j"
    by (auto simp: mirrored_def)
  let ?p = "poke a v e"
  have d: "direct e" using e(1) by (rule undisturbed_direct)
  have p: "\<not> mmu_enabled ?p" "\<not> in_jit_run ?p" "jit ?p = Some j" "undisturbed ?p" "mem ?p = (mem e)(a := v)"
    using e d by (simp_all add: guest_poke mem_poke_direct) (simp_all add: poke_def direct_def)
  from note_write_interp [OF p(1-3) j(1), of a H] show ?thesis
  proof
    assume n: "(\<forall>i b. live_block j i b \<longrightarrow> \<not> jit_block_contains_addr b a) \<and> rk65c02_jit_note_guest_write H a ?p = ?p"
    show ?thesis
      by (rule mirrored_jit [OF m e(3) j]) (use n p in auto)
  next
    assume "\<exists>q st. rk65c02_jit_note_guest_write H a ?p = ?p\<lparr>jit := Some (jit_invalidate_write a q (j\<lparr>stats := st\<rparr>))\<rparr>"
    then obtain q st where n: "rk65c02_jit_note_guest_write H a ?p = ?p\<lparr>jit := Some (jit_invalidate_write a q (j\<lparr>stats := st\<rparr>))\<rparr>" by blast
    let ?j = "j\<lparr>stats := st\<rparr>"
    have i: "jit_inv ?j" using j(1) by simp
    show ?thesis
      by (rule mirrored_jit [OF m e(3), of "jit_invalidate_write a q ?j"])
        (use n p e j invalidate_write_live [OF i, of a q] in \<open>auto simp: invalidate_write_inv invalidate_write_wf\<close>)
  qed
qed

lemma mem_updates [simp]:
  "mem (use_jit_update u e) = mem e" "mem (jit_loop_budget_update b e) = mem e" "mem (jit_update j e) = mem e"
  "mem (tick_countdown_update c e) = mem e" "mem (jit_requested_update r e) = mem e"
  by (simp_all add: mem_def fun_eq_iff)

lemma mirrored_fields [simp]:
  "mirrored H (regs_update f e) = mirrored H e" "mirrored H (state_update s e) = mirrored H e"
  "mirrored H (stopreason_update r e) = mirrored H e" "mirrored H (use_jit_update u e) = mirrored H e"
  "mirrored H (jit_loop_budget_update b e) = mirrored H e" "mirrored H (tick_countdown_update c e) = mirrored H e"
  "mirrored H (jit_requested_update q e) = mirrored H e"
  by (simp_all add: mirrored_def undisturbed_def direct_def)

interpretation mir_sim: undisturbed_class "mirrored H" H for H
  by unfold_locales (auto simp: mirrored_store, simp add: mirrored_def)

lemma mirrored_exec:
  assumes "mirrored H e" "state e = RUNNING"
  shows "\<exists>e'. rk65c02_exec H e = Ret () e' \<and> mirrored H e' \<and> run_step H (guest e) (guest e')"
  using mir_sim.sim_exec [OF assms(1)] assms(2) by (auto simp: mir_sim.sim_def run_step_def)

section \<open>Compiling\<close>

lemma undisturbed_fetch: "undisturbed e \<Longrightarrow> instruction_fetch_emu H a e = Ret (insn_at H (mem e) a) e"
  using mode_operands_le [of "mode (instruction_decode (mem e a))"] direct_read(2) [of e H]
  by (auto simp: instruction_fetch_emu_def insn_at_def Let_def undisturbed_direct)

lemma build_loop_code:
  assumes e: "undisturbed e" "state e = RUNNING"
  shows "\<exists>new. jit_build_loop H start n pc acc e = Ret (acc @ new) e \<and>
    (\<forall>k < length new. bi_i (new ! k) = insn_at H (mem e) (insn_addrs pc new ! k))"
proof (induction n arbitrary: pc acc)
  case (Suc n)
  let ?i = "insn_at H (mem e) pc"
  let ?bi = "\<lparr>bi_i = ?i, bi_id = instruction_decode (opcode ?i)\<rparr>"
  obtain new where new: "jit_build_loop H start n (pc + ucast (isize (bi_id ?bi))) (acc @ [?bi]) e = Ret ((acc @ [?bi]) @ new) e"
      "\<forall>k < length new. bi_i (new ! k) = insn_at H (mem e) (insn_addrs (pc + ucast (isize (bi_id ?bi))) new ! k)"
    using Suc.IH by blast
  then have "\<forall>k < length (?bi # new). bi_i ((?bi # new) ! k) = insn_at H (mem e) (insn_addrs pc (?bi # new) ! k)"
    by (auto simp: nth_Cons split: nat.split)
  then have go: "\<exists>new. jit_build_loop H start n (pc + ucast (isize (bi_id ?bi))) (acc @ [?bi]) e = Ret (acc @ new) e \<and>
      (\<forall>k < length new. bi_i (new ! k) = insn_at H (mem e) (insn_addrs pc new ! k))"
    using new(1) by (intro exI [of _ "?bi # new"]) simp
  have none: "\<exists>new. Ret acc e = Ret (acc @ new) e \<and> (\<forall>k < length new. bi_i (new ! k) = insn_at H (mem e) (insn_addrs pc new ! k))"
    by (rule exI [of _ "[]"]) simp
  have one: "\<exists>new. Ret (acc @ [?bi]) e = Ret (acc @ new) e \<and> (\<forall>k < length new. bi_i (new ! k) = insn_at H (mem e) (insn_addrs pc new ! k))"
    by (rule exI [of _ "[?bi]"]) simp
  show ?case
    using go none one e by (simp add: undisturbed_fetch Let_def)
qed simp

text \<open>What the theorems of this theory take from the host: its MMU callbacks are not destructive.\<close>

definition benign :: "'h host \<Rightarrow> bool" where
  "benign H \<longleftrightarrow> jit_host H \<and> host_keeps regs H \<and> host_keeps jit_loop_budget H"

lemma put_block_settled:
  assumes m: "mirrored H e" "jit e = Some j" and j': "jit_inv j'" "blocks_wf j'"
    and "pending_writes j' = pending_writes j" "pending_write_overflow j' = pending_write_overflow j" "needs_flush j' = needs_flush j"
    and B: "\<And>i b. live_block j' i b \<Longrightarrow> i \<noteq> pc \<Longrightarrow> live_block j i b"
    and new: "\<And>b insns. blocks j' pc = Some b \<Longrightarrow> fn b = Some insns \<Longrightarrow> \<not> mmu_phys_page_valid b \<and>
      (\<forall>k < length insns. bi_i (insns ! k) = insn_at H (mem e) (insn_addrs pc insns ! k))"
  shows "mirrored H (e\<lparr>jit := Some j'\<rparr>)"
proof -
  from m have e: "undisturbed e" "\<not> in_jit_run e" "synced H (mem e) (blocks j)" "pending_writes j = 0" "\<not> pending_write_overflow j"
      "\<not> needs_flush j" and ph: "\<forall>i b. live_block j i b \<longrightarrow> \<not> mmu_phys_page_valid b"
    by (auto simp: mirrored_def)
  have "synced H (mem e) (blocks j')"
    unfolding synced_def
  proof (intro allI impI)
    fix i b insns k
    assume b: "blocks j' i = Some b" "fn b = Some insns" "k < length insns"
    show "bi_i (insns ! k) = insn_at H (mem e) (insn_addrs i insns ! k)"
    proof (cases "i = pc")
      case True
      with b new show ?thesis by blast
    next
      case False
      with b B [of i b] have "blocks j i = Some b" by (auto simp: live_block_def)
      with b e(3) show ?thesis by (auto simp: synced_def)
    qed
  qed
  moreover have "\<not> mmu_phys_page_valid b" if "live_block j' i b" for i b
    using that B [OF that] ph new [of b] by (cases "i = pc") (auto simp: live_block_def)
  ultimately show ?thesis using e j' assms(5-7) by (auto simp: mirrored_def)
qed

lemma room_cache: "mirrored H e \<Longrightarrow> cache_ok e"
  by (auto simp: mirrored_def cache_ok_def)

lemma publish_settled [simp]:
  "blocks (jit_publish b j) = blocks j" "pending_writes (jit_publish b j) = pending_writes j"
  "pending_write_overflow (jit_publish b j) = pending_write_overflow j" "needs_flush (jit_publish b j) = needs_flush j"
  by (simp_all add: jit_publish_def Let_def)

text \<open>The block compiled at \<open>pc\<close> mirrors the memory it was built from.\<close>

lemma compile_mirrors:
  assumes H: "jit_host H" and m: "mirrored H e" "room e" "state e = RUNNING"
  shows "\<exists>bo j. jit_compile_block H pc e = Ret bo (e\<lparr>jit := Some j\<rparr>) \<and> mirrored H (e\<lparr>jit := Some j\<rparr>) \<and>
    (\<forall>b. bo = Some b \<longrightarrow> blocks j pc = Some b)"
proof -
  from m obtain j where e: "undisturbed e" "jit e = Some j" and j: "jit_inv j" by (auto simp: mirrored_def)
  note cache = compile_cache [OF H room_cache [OF m(1)] m(2), of pc]
  define b where "b = (case blocks j pc of None \<Rightarrow> jit_block_new pc | Some b \<Rightarrow> b)"
  let ?j = "j\<lparr>blocks := (blocks j)(pc := Some b)\<rparr>"
  have put: "jit_put_block pc b e = e\<lparr>jit := Some ?j\<rparr>" using e by (simp add: jit_put_block_def)
  note unfold = jit_compile_block_def [of H pc e, unfolded e(2), simplified,
      folded b_def, unfolded jit_inv_magic [OF j] Let_def, simplified, unfolded put]
  have settled: "mirrored H (e\<lparr>jit := Some j'\<rparr>)"
    if "post (\<lambda>b e'. cache_ok e' \<and> R b) cache_ok (Ret bo (e\<lparr>jit := Some j'\<rparr>))" "pending_writes j' = pending_writes j"
      "pending_write_overflow j' = pending_write_overflow j" "needs_flush j' = needs_flush j" "blocks j' = (blocks j)(pc := Some c)"
      "\<And>insns. fn c = Some insns \<Longrightarrow> \<not> mmu_phys_page_valid c \<and>
         (\<forall>k < length insns. bi_i (insns ! k) = insn_at H (mem e) (insn_addrs pc insns ! k))" for j' c bo and R :: "jit_block option \<Rightarrow> bool"
    by (rule put_block_settled [OF m(1) e(2), of j' pc]) (use that in \<open>auto simp: cache_ok_def live_block_def\<close>)
  show ?thesis
  proof (cases "fn b")
    case (Some insns)
    then have "blocks j pc = Some b" by (auto simp: b_def jit_block_new_def split: option.splits)
    moreover have "e\<lparr>jit := Some j\<rparr> = e" using e(2) by simp
    ultimately show ?thesis using m Some by (auto simp: unfold fun_upd_idem intro!: exI [of _ j])
  next
    case None
    have "undisturbed (e\<lparr>jit := Some ?j\<rparr>)" "state (e\<lparr>jit := Some ?j\<rparr>) = RUNNING" using e m by simp_all
    from build_loop_code [OF this, of H pc JIT_BLOCK_MAX_INSNS pc "[]"] obtain insns where
      insns: "jit_build_block_insns H pc JIT_BLOCK_MAX_INSNS (e\<lparr>jit := Some ?j\<rparr>) = Ret insns (e\<lparr>jit := Some ?j\<rparr>)"
      "\<forall>k < length insns. bi_i (insns ! k) = insn_at H (mem e) (insn_addrs pc insns ! k)"
      by (auto simp: jit_build_block_insns_def)
    show ?thesis
    proof (cases "insns = []")
      case True
      with None insns have r: "jit_compile_block H pc e = Ret None (e\<lparr>jit := Some ?j\<rparr>)" by (simp add: unfold)
      from settled [OF cache [unfolded r], of b] r None show ?thesis by auto
    next
      case False
      define c where "c = b\<lparr>end_pc_exclusive := insns_end pc insns, mmu_phys_page_valid := False, mmu_phys_byte_cov := False,
        mmu_phys_start := 0, lightning_state := True, fn := if h_emit_ok H insns then Some insns else None,
        num_insns := if h_emit_ok H insns then of_nat (length insns) else num_insns b\<rparr>"
      let ?j2 = "j\<lparr>blocks := (blocks j)(pc := Some c)\<rparr>"
      define j' where "j' = (if h_emit_ok H insns then jit_publish c ?j2 else ?j2)"
      have "\<not> mmu_enabled e" using e by (simp add: undisturbed_def direct_def)
      with None insns(1) False have r: "jit_compile_block H pc e = Ret (Some c) (e\<lparr>jit := Some j'\<rparr>)"
        by (simp add: unfold jit_block_phys_tag_def Let_def jit_put_block_def c_def j'_def)
      have j': "pending_writes j' = pending_writes j" "pending_write_overflow j' = pending_write_overflow j"
        "needs_flush j' = needs_flush j" "blocks j' = (blocks j)(pc := Some c)"
        by (simp_all add: j'_def)
      have c: "\<not> mmu_phys_page_valid c" "\<And>is. fn c = Some is \<Longrightarrow> is = insns" by (simp_all add: c_def split: if_splits)
      have "mirrored H (e\<lparr>jit := Some j'\<rparr>)"
        by (rule settled [OF cache [unfolded r] j']) (use c insns(2) in blast)
      with r j'(4) show ?thesis by (intro exI [of _ "Some c"] exI [of _ j']) simp
    qed
  qed
qed

section \<open>Native execution and settlement\<close>

lemma quiet [simp]:
  assumes "undisturbed e"
  shows "rk65c02_poll_host_controls H e = e" "rk65c02_maybe_wait_on_idle H e = (False, e)"
  using assms by (simp_all add: rk65c02_poll_host_controls_def rk65c02_maybe_tick_def
      rk65c02_apply_host_stop_request_def rk65c02_maybe_wait_on_idle_def undisturbed_def)

lemma pending_fold_fields:
  "needs_flush (fold jit_pending_event ks j) = needs_flush j"
  by (induction ks arbitrary: j) (simp_all add: jit_pending_event_def)

lemma process_pending_fields:
  "\<not> needs_flush j \<Longrightarrow> \<not> needs_flush (snd (jit_process_pending_writes j))"
  "\<not> pending_write_overflow (snd (jit_process_pending_writes j))"
  by (simp_all add: jit_process_pending_writes_def Let_def pending_fold_fields jit_backend_flush_eq)

text \<open>
  Between blocks the recorded stores are settled: no block survives over a byte that native code
  stored to.
\<close>

lemma settle_writes_mirrors:
  assumes m: "mirrored H e" "jit e = Some j" and n: "native_state (blocks j) (mem e) e1"
  shows "mirrored H (snd (jit_settle_writes dis (e1\<lparr>in_jit_run := False\<rparr>)))"
    "guest (snd (jit_settle_writes dis (e1\<lparr>in_jit_run := False\<rparr>))) = guest e1"
proof -
  let ?e = "e1\<lparr>in_jit_run := False\<rparr>"
  from n obtain j1 where e1: "undisturbed e1" "jit e1 = Some j1" and B: "blocks j1 = blocks j" and j1: "jit_inv j1" "\<not> needs_flush j1"
      and rec: "\<And>a. a \<in> live_code (blocks j) \<Longrightarrow> mem e1 a \<noteq> mem e a \<Longrightarrow> recorded j1 a"
    by (auto simp: native_state_def)
  have wf: "blocks_wf j1" using m B by (auto simp: mirrored_def blocks_wf_def)
  have live: "live_block j1 = live_block j" by (simp add: live_block_def fun_eq_iff B)
  have same: "live_block j i b \<Longrightarrow> jit_block_contains_addr b a \<Longrightarrow> \<not> recorded j1 a \<Longrightarrow> mem e1 a = mem e a" for i b a
    using rec [of a] by (force simp: live_code_def live_block_def)
  let ?j2 = "snd (jit_process_pending_writes j1)"
  have "mirrored H (snd (jit_settle_writes dis ?e)) \<and> guest (snd (jit_settle_writes dis ?e)) = guest e1"
  proof (cases "pending_writes j1 > 0 \<or> pending_write_overflow j1")
    case False
    then have "mirrored H ?e"
      by (intro mirrored_jit [OF m j1(1) wf]) (use e1 j1 live same in \<open>auto simp: recorded_def\<close>)
    with False e1 show ?thesis by (simp add: jit_settle_writes_def)
  next
    case True
    define st where "st = (if fst (jit_process_pending_writes j1) \<and> \<not> dis
      then (stats ?j2)\<lparr>run_jit_disables := run_jit_disables (stats ?j2) + 1\<rparr> else stats ?j2)"
    define u where "u = (\<not> (dis \<or> fst (jit_process_pending_writes j1)) \<and> jit_requested e1)"
    have s: "snd (jit_settle_writes dis ?e) = ?e\<lparr>jit := Some (?j2\<lparr>stats := st\<rparr>), use_jit := u\<rparr>"
      using e1(2) True by (simp add: jit_settle_writes_def Let_def case_prod_beta st_def u_def)
    have l: "live_block j i b \<and> (\<forall>a. jit_block_contains_addr b a \<longrightarrow> mem e1 a = mem e a)" if "live_block ?j2 i b" for i b
      using process_pending(2) [OF j1(1) that] same by (auto simp: live recorded_def)
    have "mirrored H (?e\<lparr>jit := Some (?j2\<lparr>stats := st\<rparr>), use_jit := u\<rparr>)"
      by (rule mirrored_jit [OF m, of "?j2\<lparr>stats := st\<rparr>"])
        (use process_pending [OF j1(1)] process_pending_fields shrinks_wf [OF shrinks_process_pending wf] e1 j1 l
          in \<open>auto simp: live_block_def blocks_wf_def\<close>)
    with s show ?thesis by simp
  qed
  then show "mirrored H (snd (jit_settle_writes dis ?e))" "guest (snd (jit_settle_writes dis ?e)) = guest e1" by simp_all
qed

lemma settle_flush_mirrored: "mirrored H e \<Longrightarrow> jit_settle_flush dis e = e"
  by (auto simp: mirrored_def jit_settle_flush_def)

text \<open>The native code of a live block executes some instructions of the interpreter and returns.\<close>

lemma native_run:
  assumes H: "benign H" and m: "mirrored H e" "state e = RUNNING" "use_jit e" "jit e = Some j"
    and b: "blocks j (rPC (regs e)) = Some b" "fn b = Some insns"
  shows "\<exists>e'. jit_native H (rPC (regs e)) insns (e\<lparr>jit := Some (j\<lparr>stats := st\<rparr>), jit_loop_budget := budget, in_jit_run := True\<rparr>)
      = Some (Ret () e') \<and> native_state (blocks j) (mem e) e' \<and> (run_step H)\<^sup>+\<^sup>+ (guest e) (guest e')"
proof -
  let ?pc = "rPC (regs e)"
  define e0 where "e0 = e\<lparr>jit := Some (j\<lparr>stats := st\<rparr>), jit_loop_budget := budget, in_jit_run := True\<rparr>"
  from m have j: "jit_inv j" "blocks_wf j" "synced H (mem e) (blocks j)" "\<not> needs_flush j" "undisturbed e"
    by (auto simp: mirrored_def)
  have wf: "block_wf ?pc b" using j(2) b by (auto simp: blocks_wf_def)
  have ok: "insns \<noteq> []" "block_ok ?pc ?pc insns" using wf b by (simp_all add: block_wf_def)
  have e0: "native_state (blocks j) (mem e) e0" "use_jit e0" "state e0 = RUNNING" "regs e0 = regs e" "guest e0 = guest e"
    using m j by (simp_all add: e0_def native_state_def)
  have "\<exists>r. run_block H (jit_emit_block ?pc insns) 0 (enter_mach H e0) = Some r"
    by (rule run_block_returns) (use H in \<open>simp add: jit_emit_block_def insn_counts benign_def\<close>)
  then obtain r where r: "run_block H (jit_emit_block ?pc insns) 0 (enter_mach H e0) = Some r" by blast
  have in0: "ready (enter_mach H e0)" "memu (enter_mach H e0) = e0" by (simp_all add: enter_mach_def ready_def)
  have "insn_addrs ?pc insns ! 0 = ?pc" using ok(1) by (cases insns) simp_all
  then obtain m' where m': "r = Ret () m'" "native_state (blocks j) (mem e) (memu m')" "(run_step H)\<^sup>+\<^sup>+ (guest e) (guest (memu m'))"
    using block_run [of H ?pc insns "blocks j" "mem e" 0 "enter_mach H e0" r] H ok r e0 in0
      synced_code(2) [OF j(3) b wf] by (auto simp: benign_def)
  have "jit_native H ?pc insns e0 = Some (Ret () (memu m'))" by (simp add: jit_native_def leave_mach_def r m'(1))
  with m' show ?thesis unfolding e0_def by blast
qed

lemma native_step_mirrors:
  assumes H: "benign H" and m: "mirrored H e" "state e = RUNNING" "use_jit e" "jit e = Some j"
    and b: "blocks j (rPC (regs e)) = Some b" "fn b = Some insns"
  shows "\<exists>e' dis'. mirrored H e' \<and> (run_step H)\<^sup>+\<^sup>+ (guest e) (guest e') \<and>
    jit_native_step H dis (rPC (regs e)) b e = (if state e' \<noteq> RUNNING then Leave dis' e' else Again dis' e')"
proof -
  let ?st = "(stats j)\<lparr>blocks_executed := blocks_executed (stats j) + 1,
      insns_executed := insns_executed (stats j) + ucast (num_insns b)\<rparr>"
  from native_run [OF H m b, of JIT_LOOP_BUDGET ?st] obtain e1 where
    e1: "jit_native H (rPC (regs e)) insns (e\<lparr>jit := Some (j\<lparr>stats := ?st\<rparr>), jit_loop_budget := JIT_LOOP_BUDGET, in_jit_run := True\<rparr>)
      = Some (Ret () e1)" "native_state (blocks j) (mem e) e1" "(run_step H)\<^sup>+\<^sup>+ (guest e) (guest e1)" by blast
  let ?s = "jit_settle_writes dis (e1\<lparr>in_jit_run := False\<rparr>)"
  note s = settle_writes_mirrors [OF m(1,4) e1(2), of dis]
  have "undisturbed (snd ?s)" using s(1) by (simp add: mirrored_def)
  then have "jit_native_step H dis (rPC (regs e)) b e =
      (if state (snd ?s) \<noteq> RUNNING then Leave (fst ?s) (snd ?s) else Again (fst ?s) (snd ?s))"
    unfolding jit_native_step_def Let_def using e1(1)
    by (simp add: m(4) b case_prod_beta settle_flush_mirrored [OF s(1)])
  with s e1(3) show ?thesis by (intro exI [of _ "snd ?s"] exI [of _ "fst ?s"]) simp
qed

section \<open>The run loop\<close>

text \<open>A pass of the loop that keeps going has executed at least one instruction.\<close>

definition advances :: "'h host \<Rightarrow> 'h emu \<Rightarrow> 'h jit_next \<Rightarrow> bool" where
  "advances H e n \<longleftrightarrow> (\<exists>e' dis. (n = Again dis e' \<or> n = Leave dis e' \<and> state e' \<noteq> RUNNING) \<and>
     mirrored H e' \<and> (run_step H)\<^sup>+\<^sup>+ (guest e) (guest e'))"

lemma exec_advances:
  assumes "mirrored H e" "state e = RUNNING"
  shows "advances H e (jit_exec_then H dis e)"
    "advances H e (case rk65c02_exec H e of
       Ret _ e \<Rightarrow> (if state e \<noteq> RUNNING then Leave dis e else Again dis e)
     | Longjmp e \<Rightarrow> jit_longjmp dis e | Abort \<Rightarrow> Fail)"
  using mirrored_exec [OF assms] by (auto simp: advances_def jit_exec_then_def)

lemma dispatch_advances:
  assumes H: "benign H" and m: "mirrored H e" "state e = RUNNING" "use_jit e" "jit e = Some j"
    and b: "\<And>b. bo = Some b \<Longrightarrow> blocks j (rPC (regs e)) = Some b"
  shows "advances H e (jit_dispatch H dis (rPC (regs e)) bo e)"
proof (cases "\<exists>b insns. bo = Some b \<and> fn b = Some insns")
  case True
  then obtain b' insns where b': "bo = Some b'" "fn b' = Some insns" by blast
  with b have slot: "blocks j (rPC (regs e)) = Some b'" by simp
  with m b' have "\<not> mmu_phys_page_valid b'" by (auto simp: mirrored_def live_block_def)
  with native_step_mirrors [OF H m slot b'(2), of dis] b' show ?thesis
    by (auto simp: jit_dispatch_def advances_def)
next
  case False
  with exec_advances(2) [OF m(1,2), of dis] show ?thesis
    by (cases bo) (auto simp: jit_dispatch_def)
qed

lemma flush_mirrors:
  assumes "mirrored H e" "jit e = Some j"
  shows "mirrored H (e\<lparr>jit := Some (jit_backend_flush j)\<rparr>)" "room (e\<lparr>jit := Some (jit_backend_flush j)\<rparr>)"
proof -
  have "jit_inv j" "blocks_wf j" "undisturbed e" "\<not> in_jit_run e" using assms by (auto simp: mirrored_def)
  moreover have "\<not> live_block (jit_backend_flush j) i b" for i b
    by (auto simp: live_block_def jit_backend_flush_eq killed_def)
  moreover have "pending_writes (jit_backend_flush j) = 0" "\<not> pending_write_overflow (jit_backend_flush j)" "\<not> needs_flush (jit_backend_flush j)"
    by (simp_all add: jit_backend_flush_eq)
  ultimately show "mirrored H (e\<lparr>jit := Some (jit_backend_flush j)\<rparr>)"
    by (intro mirrored_jit [OF assms, of "jit_backend_flush j"]) (auto simp: flush_cache)
  show "room (e\<lparr>jit := Some (jit_backend_flush j)\<rparr>)" by (simp add: room_def jit_backend_flush_eq)
qed

lemma run_body_advances:
  assumes H: "benign H" and m: "mirrored H e" "state e = RUNNING"
  shows "\<not> use_jit e \<and> jit_run_body H dis e = Interp e \<or> advances H e (jit_run_body H dis e)"
proof -
  from m obtain j where e: "undisturbed e" "jit e = Some j" "jit_inv j" by (auto simp: mirrored_def)
  let ?pc = "rPC (regs e)"
  have compile: "advances H e (case jit_compile_block H ?pc e2 of
        Abort \<Rightarrow> Fail | Longjmp e \<Rightarrow> jit_longjmp dis e
      | Ret b e \<Rightarrow> if state e \<noteq> RUNNING then Leave dis e else jit_dispatch H dis ?pc b e)"
    if u: "use_jit e" and e2: "mirrored H e2" "room e2" "e2 = e\<lparr>jit := k\<rparr>" for e2 k
  proof -
    have "jit_host H" "state e2 = RUNNING" using H m e2 by (simp_all add: benign_def)
    from compile_mirrors [OF this(1) e2(1,2) this(2), of ?pc] e2(3) obtain bo j' where
      c: "jit_compile_block H ?pc e2 = Ret bo (e\<lparr>jit := Some j'\<rparr>)" "mirrored H (e\<lparr>jit := Some j'\<rparr>)"
        "\<And>b. bo = Some b \<Longrightarrow> blocks j' ?pc = Some b" by auto
    from dispatch_advances [OF H c(2), of j' bo dis] c u m(2) show ?thesis by (simp add: advances_def)
  qed
  have dispatch: "use_jit e \<Longrightarrow> advances H e (jit_dispatch H dis ?pc (blocks j ?pc) e)"
    using dispatch_advances [OF H m _ e(2), of "blocks j ?pc" dis] by simp
  have comp1: "use_jit e \<Longrightarrow> \<not> JIT_MAX_ACTIVE_BLOCKS \<le> active_blocks j \<Longrightarrow> advances H e (case jit_compile_block H ?pc e of
        Abort \<Rightarrow> Fail | Longjmp e \<Rightarrow> jit_longjmp dis e
      | Ret b e \<Rightarrow> if state e \<noteq> RUNNING then Leave dis e else jit_dispatch H dis ?pc b e)"
    by (rule compile [OF _ m(1), of "jit e"]) (simp_all add: room_def e(2))
  have comp2: "use_jit e \<Longrightarrow> advances H e (case jit_compile_block H ?pc (e\<lparr>jit := Some (jit_backend_flush j)\<rparr>) of
        Abort \<Rightarrow> Fail | Longjmp e \<Rightarrow> jit_longjmp dis e
      | Ret b e \<Rightarrow> if state e \<noteq> RUNNING then Leave dis e else jit_dispatch H dis ?pc b e)"
    by (rule compile [OF _ flush_mirrors [OF m(1) e(2)] refl])
  have "\<not> (trace e \<or> runtime_disassembly e \<or> bps_head e \<noteq> [])" "\<not> irq e" using e(1) by (simp_all add: undisturbed_def)
  then have body: "jit_run_body H dis e = (if \<not> use_jit e then Interp e
      else if mutable_code_page j (hi8 ?pc) then jit_exec_then H dis e
      else if (case blocks j ?pc of None \<Rightarrow> True | Some b \<Rightarrow> fn b = None) then
        (let e = (if active_blocks j \<ge> JIT_MAX_ACTIVE_BLOCKS then e\<lparr>jit := Some (jit_backend_flush j)\<rparr> else e)
         in case jit_compile_block H ?pc e of
              Abort \<Rightarrow> Fail | Longjmp e \<Rightarrow> jit_longjmp dis e
            | Ret b e \<Rightarrow> if state e \<noteq> RUNNING then Leave dis e else jit_dispatch H dis ?pc b e)
      else jit_dispatch H dis ?pc (blocks j ?pc) e)"
    using m e by (simp add: jit_run_body_def Let_def jit_find_block_def jit_inv_magic)
  show ?thesis
    unfolding body Let_def using exec_advances(1) [OF m] dispatch comp1 comp2 by (simp only: split: if_split) blast
qed

section \<open>Both run loops\<close>

lemma run_step_det:
  assumes "run_step H x y" "(run_step H ^^ n) x f" "state f \<noteq> RUNNING"
  shows "\<exists>k < n. (run_step H ^^ k) y f"
proof (cases n)
  case 0
  with assms show ?thesis by (simp add: run_step_def)
next
  case (Suc k)
  from relpowp_Suc_D2 [OF assms(2) [unfolded Suc]] obtain z where "run_step H x z" "(run_step H ^^ k) z f" by blast
  moreover from this assms(1) have "z = y" by (simp add: run_step_def)
  ultimately show ?thesis using Suc by blast
qed

lemma run_steps_det:
  assumes "(run_step H)\<^sup>+\<^sup>+ x y" "(run_step H ^^ n) x f" "state f \<noteq> RUNNING"
  shows "\<exists>k < n. (run_step H ^^ k) y f"
  using assms(1)
proof induction
  case (base y)
  with run_step_det [OF _ assms(2,3)] show ?case by blast
next
  case (step y z)
  from step.IH obtain k where k: "k < n" "(run_step H ^^ k) y f" by blast
  from run_step_det [OF step.hyps(2) k(2) assms(3)] k(1) show ?case using less_trans by blast
qed

lemma undisturbed_exec:
  assumes "undisturbed e" "state e = RUNNING"
  shows "\<exists>e'. rk65c02_exec H e = Ret () e' \<and> undisturbed e' \<and> run_step H (guest e) (guest e')"
  using exec_guest [OF assms(1), of H] assms(2) by (auto simp: run_step_def)

lemma interp_next:
  assumes "undisturbed e" "state e = RUNNING" "rk65c02_exec H e = Ret () e1" "undisturbed e1"
  shows "interp_loop H e = interp_loop H e1"
  using assms by (subst interp_loop.simps) (simp add: interp_loop.simps [of H e1])

lemma stopped_steps:
  assumes "state x \<noteq> RUNNING" "(run_step H ^^ n) x f"
  shows "x = f"
proof (cases n)
  case (Suc k)
  with relpowp_Suc_D2 [of k "run_step H" x f] assms show ?thesis unfolding run_step_def by blast
qed (use assms in simp)

lemma interp_returns:
  assumes "undisturbed e" "(run_step H ^^ n) (guest e) f" "state f \<noteq> RUNNING"
  shows "\<exists>e'. interp_loop H e = Some (Ret () e') \<and> guest e' = f"
  using assms(1,2)
proof (induction n arbitrary: e rule: less_induct)
  case (less n)
  show ?case
  proof (cases "state e = RUNNING")
    case False
    with stopped_steps [OF _ less.prems(2)] show ?thesis by (subst interp_loop.simps) auto
  next
    case True
    from undisturbed_exec [OF less.prems(1) this, of H] obtain e1 where
      e1: "rk65c02_exec H e = Ret () e1" "undisturbed e1" "run_step H (guest e) (guest e1)" by blast
    from run_step_det [OF e1(3) less.prems(2) assms(3)] obtain k where k: "k < n" "(run_step H ^^ k) (guest e1) f" by blast
    from less.IH [OF k(1) e1(2) k(2)] interp_next [OF less.prems(1) True e1(1,2)] show ?thesis by simp
  qed
qed

lemma interp_sound:
  assumes D: "\<And>e. D e \<Longrightarrow> undisturbed e"
      "\<And>e. D e \<Longrightarrow> state e = RUNNING \<Longrightarrow> \<exists>e'. rk65c02_exec H e = Ret () e' \<and> D e' \<and> run_step H (guest e) (guest e')"
    and e: "D e" "interp_loop H e = Some r"
  shows "\<exists>e'. r = Ret () e' \<and> D e' \<and> (run_step H)\<^sup>*\<^sup>* (guest e) (guest e') \<and> state e' \<noteq> RUNNING"
proof -
  let ?I = "\<lambda>e'. D e' \<and> (run_step H)\<^sup>*\<^sup>* (guest e) (guest e')"
  have "post (\<lambda>_ e'. ?I e' \<and> state e' \<noteq> RUNNING) (\<lambda>_. False) r"
  proof (rule interp_loop_post [OF _ _ _ e(2), of ?I "\<lambda>_. False"])
    fix e1
    assume e1: "?I e1"
    with D(1) show "?I (rk65c02_poll_host_controls H e1)" "?I (snd (rk65c02_maybe_wait_on_idle H e1))" by simp_all
    assume "state e1 = RUNNING"
    with D(2) [of e1] e1 show "post (\<lambda>_. ?I) (\<lambda>_. False) (rk65c02_exec H e1)" by (auto intro: rtranclp.rtrancl_into_rtrancl)
  qed (simp add: e(1))
  then show ?thesis by (cases r) auto
qed

lemma jit_loop_returns:
  assumes H: "benign H" and "mirrored H e" "(run_step H ^^ n) (guest e) f" "state f \<noteq> RUNNING"
  shows "\<exists>e'. jit_run_loop H dis e = Some (Ret () e') \<and> guest e' = f"
  using assms(2,3)
proof (induction n arbitrary: e dis rule: less_induct)
  case (less n)
  have u: "undisturbed e" using less.prems(1) by (simp add: mirrored_def)
  show ?case
  proof (cases "state e = RUNNING")
    case False
    with stopped_steps [OF _ less.prems(2)] show ?thesis by (subst jit_run_loop.simps) auto
  next
    case True
    from run_body_advances [OF H less.prems(1) True, of dis] show ?thesis
    proof
      assume "\<not> use_jit e \<and> jit_run_body H dis e = Interp e"
      with interp_returns [OF u less.prems(2) assms(4)] True show ?thesis by (subst jit_run_loop.simps) auto
    next
      assume "advances H e (jit_run_body H dis e)"
      then obtain e1 d where e1: "jit_run_body H dis e = Again d e1 \<or> jit_run_body H dis e = Leave d e1 \<and> state e1 \<noteq> RUNNING"
          "mirrored H e1" "(run_step H)\<^sup>+\<^sup>+ (guest e) (guest e1)"
        by (auto simp: advances_def)
      from run_steps_det [OF e1(3) less.prems(2) assms(4)] obtain k where k: "k < n" "(run_step H ^^ k) (guest e1) f" by blast
      from stopped_steps [OF _ k(2)] have "state e1 \<noteq> RUNNING \<Longrightarrow> guest e1 = f" by simp
      with less.IH [OF k(1) e1(2) k(2), of d] e1(1) True show ?thesis by (subst jit_run_loop.simps) auto
    qed
  qed
qed

lemma jit_loop_sound:
  fixes H :: "'h host"
  assumes H: "benign H" and run: "jit_run_loop H dis e = Some r" and m: "mirrored H e"
  shows "\<exists>e'. r = Ret () e' \<and> mirrored H e' \<and> (run_step H)\<^sup>*\<^sup>* (guest e) (guest e') \<and> state e' \<noteq> RUNNING"
proof -
  let ?ok = "\<lambda>(e :: 'h emu) r. \<exists>e'. r = Ret () e' \<and> mirrored H e' \<and> (run_step H)\<^sup>*\<^sup>* (guest e) (guest e') \<and> state e' \<noteq> RUNNING"
  let ?P = "\<lambda>H' dis e r. H' = H \<longrightarrow> mirrored H e \<longrightarrow> ?ok e r"
  have "?P H dis e r"
  proof (rule jit_run_loop.raw_induct [OF _ run, of ?P], intro impI)
    fix loop :: "'h host \<Rightarrow> bool \<Rightarrow> 'h emu \<Rightarrow> ('h, unit) run option" and H' dis e r
    assume IH: "\<And>H dis e r. loop H dis e = Some r \<Longrightarrow> ?P H dis e r" and H': "H' = H" and e: "mirrored H e"
    assume body: "(if state e \<noteq> RUNNING then Some (Ret () e)
      else case jit_run_body H' dis e of
             Again dis e \<Rightarrow> loop H' dis e
           | Leave dis e \<Rightarrow> Some (Ret () e)
           | Interp e \<Rightarrow>
               (case interp_loop H' e of
                  None \<Rightarrow> None
                | Some (Longjmp e) \<Rightarrow> (let (dis, e) = jit_settle_writes dis e in loop H' dis e)
                | Some r \<Rightarrow> Some r)
           | Fail \<Rightarrow> Some Abort
           | Diverge \<Rightarrow> None) = Some r"
    show "?ok e r"
    proof (cases "state e = RUNNING")
      case True
      from run_body_advances [OF H e True, of dis] show ?thesis
      proof
        assume i: "\<not> use_jit e \<and> jit_run_body H dis e = Interp e"
        with body True obtain r1 where r1: "interp_loop H e = Some r1" by (auto simp: H' split: option.splits)
        have "?ok e r1"
          by (rule interp_sound [where D = "mirrored H", OF _ _ e r1]) (simp_all add: mirrored_exec, simp add: mirrored_def)
        with body True i r1 show ?thesis by (auto simp: H')
      next
        assume "advances H e (jit_run_body H dis e)"
        then obtain e1 d where e1: "jit_run_body H dis e = Again d e1 \<or> jit_run_body H dis e = Leave d e1 \<and> state e1 \<noteq> RUNNING"
            "mirrored H e1" "(run_step H)\<^sup>+\<^sup>+ (guest e) (guest e1)"
          by (auto simp: advances_def)
        with body True have "?ok e1 r" by (auto simp: H' dest!: IH)
        with e1(3) show ?thesis by (auto intro: rtranclp_trans [OF tranclp_into_rtranclp])
      qed
    qed (use body e in auto)
  qed
  with m show ?thesis by simp
qed

lemma loops_agree:
  assumes H: "benign H" and e: "mirrored H e" "undisturbed g" "guest g = guest e"
  shows "(jit_run_loop H dis e = None \<and> interp_loop H g = None) \<or>
    (\<exists>e1 e2. jit_run_loop H dis e = Some (Ret () e1) \<and> interp_loop H g = Some (Ret () e2) \<and> mirrored H e1 \<and> guest e2 = guest e1)"
proof (cases "jit_run_loop H dis e")
  case None
  have "interp_loop H g = None"
  proof (rule ccontr)
    assume "interp_loop H g \<noteq> None"
    then obtain r where r: "interp_loop H g = Some r" by blast
    obtain f where f: "(run_step H)\<^sup>*\<^sup>* (guest e) (guest f)" "state f \<noteq> RUNNING"
      using interp_sound [where D = undisturbed, OF _ _ e(2) r] undisturbed_exec e(3) by auto
    from rtranclp_imp_relpowp [OF f(1)] obtain n where "(run_step H ^^ n) (guest e) (guest f)" by blast
    from jit_loop_returns [OF H e(1) this, of dis] f(2) None show False by simp
  qed
  with None show ?thesis by simp
next
  case (Some r)
  from jit_loop_sound [OF H Some e(1)] obtain e1 where
    e1: "r = Ret () e1" "mirrored H e1" "(run_step H)\<^sup>*\<^sup>* (guest e) (guest e1)" "state e1 \<noteq> RUNNING" by blast
  from rtranclp_imp_relpowp [OF e1(3)] obtain n where "(run_step H ^^ n) (guest g) (guest e1)" by (auto simp: e(3))
  from interp_returns [OF e(2) this] e1 Some show ?thesis by auto
qed

section \<open>Starting the emulator\<close>

text \<open>What the guest and the host see of the outcome of a run.\<close>

fun seen :: "('h, 'a) run \<Rightarrow> ('h, 'a) run" where
  "seen (Ret v e) = Ret v (guest e)"
| "seen (Longjmp e) = Longjmp (guest e)"
| "seen Abort = Abort"

lemma start_finish_quiet: "undisturbed e \<Longrightarrow> start_finish H e = e"
  by (simp add: start_finish_def Let_def) (simp add: rk65c02_maybe_call_on_stop_def undisturbed_def)

lemma reset_settled [simp]:
  "jit_inv j \<Longrightarrow> jit_inv (jit_run_state_reset j)" "blocks (jit_run_state_reset j) = blocks j"
  "pending_writes (jit_run_state_reset j) = pending_writes j" "needs_flush (jit_run_state_reset j) = needs_flush j"
  "pending_write_overflow (jit_run_state_reset j) = pending_write_overflow j"
  by (simp_all add: jit_run_state_reset_def)

lemma start_undisturbed:
  assumes "undisturbed e"
  shows "rk65c02_start H e = map_option (\<lambda>r. andthen r (\<lambda>_ e. Ret () (start_finish H e)))
    (let e = e\<lparr>use_jit := jit_requested e, tick_countdown := tick_interval e, state := RUNNING\<rparr> in
     if jit_requested e \<and> jit e \<noteq> None then jit_run_loop H False (e\<lparr>jit := map_option jit_run_state_reset (jit e)\<rparr>)
     else interp_loop H e)"
proof -
  let ?e = "e\<lparr>use_jit := jit_requested e, tick_countdown := tick_interval e\<rparr>"
  have "rk65c02_mmu_refresh_accessors (e\<lparr>use_jit := jit_requested e, stop_requested := False, mmu_fault_reexec := False,
      tick_countdown := tick_interval e\<rparr>) = ?e"
    using assms by (simp add: undisturbed_def direct_def rk65c02_mmu_refresh_accessors_def)
  moreover have "rk65c02_can_use_jit ?e \<longleftrightarrow> jit_requested e \<and> jit e \<noteq> None" "\<not> trace e" "\<not> runtime_disassembly e" "bps_head e = []"
    using assms by (auto simp: rk65c02_can_use_jit_def undisturbed_def)
  ultimately show ?thesis
    by (auto simp: rk65c02_start_def rk65c02_run_jit_def Let_def split: option.split)
qed

lemma jit_off_loop:
  assumes H: "benign H" and m: "mirrored H e" "\<not> use_jit e"
  shows "jit_run_loop H dis e = interp_loop H e"
proof (cases "state e = RUNNING")
  case False
  then show ?thesis by (simp add: jit_run_loop.simps interp_loop.simps)
next
  case True
  have u: "undisturbed e" using m(1) by (simp add: mirrored_def)
  have "jit_run_body H dis e = Interp e"
    using m u True by (simp add: jit_run_body_def Let_def) (simp add: undisturbed_def)
  then have "jit_run_loop H dis e = (case interp_loop H e of None \<Rightarrow> None
      | Some (Longjmp e) \<Rightarrow> (let (dis, e) = jit_settle_writes dis e in jit_run_loop H dis e) | Some r \<Rightarrow> Some r)"
    using True by (simp add: jit_run_loop.simps)
  moreover have "\<exists>e'. r = Ret () e'" if "interp_loop H e = Some r" for r
    using interp_sound [where D = undisturbed, OF _ _ u that] undisturbed_exec by auto
  ultimately show ?thesis by (cases "interp_loop H e") auto
qed

text \<open>The start with a JIT is a run of the JIT loop, whether the JIT is on or not.\<close>

lemma start_runs:
  assumes H: "benign H" and m: "mirrored H e"
  shows "\<exists>e0. mirrored H e0 \<and> guest e0 = guest (e\<lparr>tick_countdown := tick_interval e, state := RUNNING\<rparr>) \<and>
    rk65c02_start H e = map_option (\<lambda>r. andthen r (\<lambda>_ e. Ret () (start_finish H e))) (jit_run_loop H False e0)"
proof -
  from m obtain j where e: "undisturbed e" "jit e = Some j" by (auto simp: mirrored_def)
  let ?e = "e\<lparr>use_jit := jit_requested e, tick_countdown := tick_interval e, state := RUNNING\<rparr>"
  let ?r = "?e\<lparr>jit := Some (jit_run_state_reset j)\<rparr>"
  have fields: "mirrored H ?e" using m by simp
  then have reset: "mirrored H ?r"
    using e(2) by (auto simp: mirrored_def live_block_def blocks_wf_def)
  show ?thesis
  proof (cases "jit_requested e")
    case True
    with e have "rk65c02_start H e = map_option (\<lambda>r. andthen r (\<lambda>_ e. Ret () (start_finish H e))) (jit_run_loop H False ?r)"
      by (simp add: start_undisturbed Let_def)
    with reset show ?thesis by (intro exI [of _ ?r]) (simp add: guest_def)
  next
    case False
    with e have "rk65c02_start H e = map_option (\<lambda>r. andthen r (\<lambda>_ e. Ret () (start_finish H e))) (interp_loop H ?e)"
      by (simp add: start_undisturbed Let_def)
    with jit_off_loop [OF H fields] False fields show ?thesis by (intro exI [of _ ?e]) (simp add: guest_def)
  qed
qed

lemma fresh_mirrored:
  assumes "undisturbed e" "\<not> in_jit_run e" "jit e = None"
  shows "mirrored H (rk65c02_jit_enable True e)"
  using assms create_inv
  by (simp add: mirrored_def rk65c02_jit_enable_def synced_def live_block_def)
    (simp add: jit_backend_create_def undisturbed_def direct_def)

section \<open>Properties\<close>

text \<open>A machine for the concrete instances: it loads the accumulator and stops.\<close>

definition sample_code :: "u16 \<Rightarrow> u8" where
  "sample_code a = (if a = 0x200 then 0xA9 else if a = 0x201 then 1 else 0xDB)"

lemma sample_benign: "benign sample_host"
  by (simp add: benign_def jit_host_def sample_host_jit) (simp add: sample_host_def)

lemma sample_undisturbed: "undisturbed (sample_emu f pc)"
  by (simp add: undisturbed_def direct_def sample_full_ram) (simp add: sample_emu_def rk65c02_init_def zero_emu_def)

lemma sample_mirrored: "mirrored sample_host (rk65c02_jit_enable True (sample_emu f pc))"
  by (rule fresh_mirrored) (simp_all add: sample_undisturbed)

lemma sample_jit_mirrored: "mirrored sample_host (sample_emu sample_code 0x200\<lparr>jit := Some sample_jit\<rparr>)"
proof -
  have "insn_at sample_host sample_code 0x200 = \<lparr>opcode = 0xA9, op1 = 1, op2 = 0\<rparr>"
    by (simp add: insn_at_def sample_code_def Let_def decode_simps sample_host_def)
  then have "synced sample_host sample_code (blocks sample_jit)"
    by (auto simp: synced_def sample_jit_def sample_block_def jit_backend_create_def split: if_splits)
  moreover have "blocks_wf sample_jit"
    by (auto simp: blocks_wf_def block_wf_def sample_jit_def sample_block_def jit_backend_create_def jit_block_new_def
        insns_end_def decode_simps hi8_def split: if_splits)
  moreover have "\<not> needs_flush sample_jit" "pending_writes sample_jit = 0" "\<not> pending_write_overflow sample_jit"
    by (simp_all add: sample_jit_def jit_backend_create_def)
  moreover have "\<not> mmu_phys_page_valid sample_block" by (simp add: sample_block_def jit_block_new_def)
  ultimately show ?thesis
    by (simp add: mirrored_def sample_undisturbed sample_jit_inv sample_jit_live)
qed

text \<open>
  C1. The JIT is transparent: on a machine with 64K of RAM and the MMU off that nothing outside
  disturbs, whose cache mirrors its memory, a start with the JIT attached returns exactly when a
  start of the same machine without a JIT does, and leaves the same processor, memory and stop
  reason behind. Programs that modify their own code are included. The cache mirrors memory again
  after the run, so that the next run is transparent as well.
\<close>

theorem jit_transparent:
  assumes "benign H" "mirrored H e"
  shows "map_option seen (rk65c02_start H e) = map_option seen (rk65c02_start H (e\<lparr>jit := None\<rparr>)) \<and>
    (\<forall>e'. rk65c02_start H e = Some (Ret () e') \<longrightarrow> mirrored H e')"
proof -
  have u: "undisturbed e" using assms(2) by (simp add: mirrored_def)
  from start_runs [OF assms] obtain e0 where
    e0: "mirrored H e0" "guest e0 = guest (e\<lparr>tick_countdown := tick_interval e, state := RUNNING\<rparr>)"
      "rk65c02_start H e = map_option (\<lambda>r. andthen r (\<lambda>_ e. Ret () (start_finish H e))) (jit_run_loop H False e0)" by blast
  let ?g = "e\<lparr>jit := None, use_jit := jit_requested e, tick_countdown := tick_interval e, state := RUNNING\<rparr>"
  have g: "undisturbed ?g" "guest ?g = guest e0" using u by (simp_all add: e0(2)) (simp_all add: guest_def undisturbed_def direct_def)
  have start: "rk65c02_start H (e\<lparr>jit := None\<rparr>) = map_option (\<lambda>r. andthen r (\<lambda>_ e. Ret () (start_finish H e))) (interp_loop H ?g)"
    using u by (simp add: start_undisturbed Let_def)
  have quiet_end: "start_finish H f = f" if "mirrored H f1" "guest f = guest f1" for f f1
    using that by (intro start_finish_quiet) (metis guest_bookkeeping(13) mirrored_def)
  from loops_agree [OF assms(1) e0(1) g, of False] quiet_end show ?thesis
    unfolding e0(3) start by auto
qed

text \<open>The JIT is on and the cache holds a block at the program counter.\<close>

theorem jit_transparent_witness:
  "let e = (sample_emu sample_code 0x200)\<lparr>jit := Some sample_jit, jit_requested := True\<rparr> in
   benign sample_host \<and> mirrored sample_host e \<and>
   map_option seen (rk65c02_start sample_host e) = map_option seen (rk65c02_start sample_host (e\<lparr>jit := None\<rparr>))"
proof -
  have "mirrored sample_host ((sample_emu sample_code 0x200)\<lparr>jit := Some sample_jit, jit_requested := True\<rparr>)"
    using sample_jit_mirrored by simp
  from jit_transparent [OF sample_benign this] this sample_benign show ?thesis unfolding Let_def by blast
qed

text \<open>
  C3. A run of the JIT makes progress and returns: if the guest program, executed one instruction
  at a time, stops after \<open>n\<close> instructions, then a start with the JIT returns with the machine in
  that state.
\<close>

theorem jit_run_returns:
  assumes "benign H" "mirrored H e" "state f \<noteq> RUNNING"
    and "(run_step H ^^ n) (guest (e\<lparr>tick_countdown := tick_interval e, state := RUNNING\<rparr>)) f"
  shows "\<exists>e'. rk65c02_start H e = Some (Ret () e') \<and> guest e' = f"
proof -
  from start_runs [OF assms(1,2)] obtain e0 where
    e0: "mirrored H e0" "guest e0 = guest (e\<lparr>tick_countdown := tick_interval e, state := RUNNING\<rparr>)"
      "rk65c02_start H e = map_option (\<lambda>r. andthen r (\<lambda>_ e. Ret () (start_finish H e))) (jit_run_loop H False e0)" by blast
  from jit_loop_returns [OF assms(1) e0(1) _ assms(3), of n False] assms(4) obtain e1 where
    e1: "jit_run_loop H False e0 = Some (Ret () e1)" "guest e1 = f" by (auto simp: e0(2))
  from jit_loop_sound [OF assms(1) e1(1) e0(1)] have "undisturbed e1" by (auto simp: mirrored_def)
  with e0(3) e1 show ?thesis by (simp add: start_finish_quiet)
qed

theorem jit_run_returns_witness:
  "\<exists>e'. rk65c02_start sample_host (rk65c02_jit_enable True (sample_emu (\<lambda>_. 0xDB) 0x200)) = Some (Ret () e') \<and>
     state e' = STOPPED \<and> stopreason e' = STP \<and> rPC (regs e') = 0x201"
proof -
  let ?e = "rk65c02_jit_enable True (sample_emu (\<lambda>_. 0xDB) 0x200)"
  let ?g = "guest (?e\<lparr>tick_countdown := tick_interval ?e, state := RUNNING\<rparr>)"
  let ?f = "?g\<lparr>state := STOPPED, stopreason := STP, regs := (regs ?g)\<lparr>rPC := 0x201\<rparr>\<rparr>"
  have g: "ram_machine ?g" "quiet ?g" "mem ?g = (\<lambda>_. 0xDB)" "\<not> mmu_fault_reexec ?g" "\<not> trace ?g" "rPC (regs ?g) = 0x200"
    using sample_mirrored [of "\<lambda>_. 0xDB" "0x200"] direct_ram [of "?e\<lparr>tick_countdown := tick_interval ?e, state := RUNNING\<rparr>"]
    by (simp_all add: rk65c02_jit_enable_def quiet_def mirrored_def undisturbed_def direct_def sample_full_ram)
  have "rk65c02_exec sample_host ?g = Ret () ?f"
    using g by (simp add: exec_quiet insn_at_def Let_def decode_simps emul_dispatch_def emul_stp_def exec_advance_def
        program_counter_increment_def)
  then have "(run_step sample_host ^^ 1) ?g ?f" by (auto simp: run_step_def)
  from jit_run_returns [OF sample_benign sample_mirrored _ this] obtain e' where
    "rk65c02_start sample_host ?e = Some (Ret () e')" "guest e' = ?f" by auto
  moreover from this(2) have "state (guest e') = STOPPED" "stopreason (guest e') = STP" "rPC (regs (guest e')) = 0x201"
    by simp_all
  then have "state e' = STOPPED" "stopreason e' = STP" "rPC (regs e') = 0x201" by (simp_all only: guest_fields)
  ultimately show ?thesis by blast
qed

text \<open>
  C2. Native code refines the interpreter: the code compiled for a live block, entered at its
  address with any loop budget, returns, and what it does to the guest's machine is what the
  interpreter does in one or more instructions, also when the block stores into its own code.
\<close>

theorem native_block_refines:
  assumes "benign H" "mirrored H e" "state e = RUNNING" "use_jit e" "jit e = Some j"
    and "jit_find_block j (rPC (regs e)) = Some b" "fn b = Some insns"
  shows "\<exists>e'. jit_native H (rPC (regs e)) insns (e\<lparr>jit_loop_budget := budget, in_jit_run := True\<rparr>) = Some (Ret () e') \<and>
    (run_step H)\<^sup>+\<^sup>+ (guest e) (guest e')"
proof -
  have "blocks j (rPC (regs e)) = Some b" using assms(6) by (simp add: jit_find_block_def split: if_splits)
  moreover have "e\<lparr>jit := Some (j\<lparr>stats := stats j\<rparr>), jit_loop_budget := budget, in_jit_run := True\<rparr> =
      e\<lparr>jit_loop_budget := budget, in_jit_run := True\<rparr>" using assms(5) by simp
  ultimately show ?thesis using native_run [OF assms(1-5) _ assms(7), of budget "stats j"] by auto
qed

theorem native_block_refines_witness:
  "\<exists>e'. jit_native sample_host 0x200 (the (fn sample_block))
       (sample_emu sample_code 0x200\<lparr>jit := Some sample_jit, state := RUNNING, use_jit := True, jit_loop_budget := 1, in_jit_run := True\<rparr>)
     = Some (Ret () e') \<and>
     (run_step sample_host)\<^sup>+\<^sup>+ (guest (sample_emu sample_code 0x200\<lparr>jit := Some sample_jit, state := RUNNING, use_jit := True\<rparr>)) (guest e')"
proof -
  let ?e = "sample_emu sample_code 0x200\<lparr>jit := Some sample_jit, state := RUNNING, use_jit := True\<rparr>"
  have "mirrored sample_host ?e" using sample_jit_mirrored by simp
  moreover have "jit_find_block sample_jit 0x200 = Some sample_block" "fn sample_block = Some (the (fn sample_block))"
    using jit_inv_magic [OF sample_jit_inv] sample_jit_live [of "0x200" sample_block]
    by (auto simp: jit_find_block_def live_block_def)
  ultimately show ?thesis
    using native_block_refines [OF sample_benign, of ?e sample_jit sample_block "the (fn sample_block)" 1] by simp
qed

end
