(* ===== verification/JitStub.thy ===== *)
theory JitStub
  imports JitRefine
begin

text \<open>
  \<open>jit_stub.c\<close>, linked instead of \<open>jit.c\<close> when the library is built without GNU Lightning.
  The rest of the library calls the same names, so the library built with the stub is the model
  on machines that have no JIT state.
\<close>

definition stub_jit_enable :: "bool \<Rightarrow> 'h emu \<Rightarrow> 'h emu" where
  "stub_jit_enable enable e = e\<lparr>jit_requested := False, use_jit := False\<rparr>"

definition stub_jit_flush :: "'h emu \<Rightarrow> 'h emu" where
  "stub_jit_flush e = e"

definition stub_jit_invalidate_all :: "'h emu \<Rightarrow> 'h emu" where
  "stub_jit_invalidate_all e = e"

definition stub_jit_invalidate_vpage :: "u8 \<Rightarrow> 'h emu \<Rightarrow> 'h emu" where
  "stub_jit_invalidate_vpage vpage e = e"

definition stub_jit_invalidate_code_vpage :: "u8 \<Rightarrow> 'h emu \<Rightarrow> 'h emu" where
  "stub_jit_invalidate_code_vpage vpage e = e"

definition stub_jit_note_guest_write :: "u16 \<Rightarrow> 'h emu \<Rightarrow> 'h emu" where
  "stub_jit_note_guest_write addr e = e"

definition stub_jit_stats_get :: "'h emu \<Rightarrow> bool \<times> jit_stats" where
  "stub_jit_stats_get e = (False, jit_stats_zero)"

definition stub_jit_stats_reset :: "'h emu \<Rightarrow> 'h emu" where
  "stub_jit_stats_reset e = e"

text \<open>The loop of the stub is the interpreter loop of \<open>rk65c02_start\<close>, statement for statement.\<close>

definition stub_run_jit :: "'h host \<Rightarrow> 'h emu \<Rightarrow> ('h, unit) run option" where
  "stub_run_jit H e = interp_loop H (e\<lparr>state := RUNNING\<rparr>)"

text \<open>Without a JIT state every entry point of \<open>jit.c\<close> does what the stub does.\<close>

lemma stub_entry_points:
  assumes "jit e = None"
  shows "rk65c02_jit_flush e = stub_jit_flush e" "rk65c02_jit_invalidate_all e = stub_jit_invalidate_all e"
    "rk65c02_jit_invalidate_vpage p e = stub_jit_invalidate_vpage p e"
    "rk65c02_jit_invalidate_code_vpage p e = stub_jit_invalidate_code_vpage p e"
    "rk65c02_jit_note_guest_write H a e = stub_jit_note_guest_write a e"
    "rk65c02_jit_stats_get e = stub_jit_stats_get e" "rk65c02_jit_stats_reset e = stub_jit_stats_reset e"
    "rk65c02_run_jit H e = stub_run_jit H e"
  using assms
  by (simp_all add: rk65c02_jit_flush_def stub_jit_flush_def rk65c02_jit_invalidate_all_def stub_jit_invalidate_all_def
      rk65c02_jit_invalidate_vpage_def stub_jit_invalidate_vpage_def rk65c02_jit_invalidate_code_vpage_def
      stub_jit_invalidate_code_vpage_def rk65c02_jit_note_guest_write_def stub_jit_note_guest_write_def
      rk65c02_jit_stats_get_def stub_jit_stats_get_def rk65c02_jit_stats_reset_def stub_jit_stats_reset_def
      rk65c02_run_jit_def stub_run_jit_def jit_invalidate_deferred_def)

text \<open>Enabling the JIT of a library built with the stub leaves the machine to the interpreter.\<close>

lemma stub_enable_interprets:
  "\<not> use_jit (stub_jit_enable b e) \<and> \<not> jit_requested (stub_jit_enable b e) \<and> guest (stub_jit_enable b e) = guest (e\<lparr>jit_requested := False\<rparr>)"
  by (simp add: stub_jit_enable_def guest_def)

end
