(* ===== verification/Assembler.thy ===== *)
theory Assembler
  imports Instruction
begin

text \<open>
  The in-process assembler: \<open>assembler.c\<close>. An \<open>assembler_t\<close> is a bus and the address at
  which the next instruction goes. The round trip at the end runs what was assembled through
  the instruction fetch.
\<close>

record 'h assembler =
  asm_bus :: "'h bus"
  asm_pc :: u16

definition assemble_init :: "'h bus \<Rightarrow> u16 \<Rightarrow> 'h assembler" where
  "assemble_init b pc = \<lparr>asm_bus = b, asm_pc = pc\<rparr>"

text \<open>
  The buffer the code allocates and fills; its length is \<open>*bsize\<close>. \<open>None\<close> is the result
  false.
\<close>

definition assemble_single_buf ::
  "string \<Rightarrow> addressing \<Rightarrow> u8 \<Rightarrow> u8 \<Rightarrow> u8 list option" where
  "assemble_single_buf mn md o1 o2 =
     (case instruction_opcode_by_mnemonic mn md of
        None \<Rightarrow> None
      | Some (opc, idf) \<Rightarrow>
          (let buf = replicate (unat (isize idf)) 0;
               buf = buf[0 := opc];
               buf = (if isize idf > 1 then buf[1 := o1] else buf);
               buf = (if isize idf > 2 then buf[2 := o2] else buf)
           in Some buf))"

definition assemble_single_buf_implied :: "string \<Rightarrow> u8 list option" where
  "assemble_single_buf_implied mn = assemble_single_buf mn IMPLIED 0 0"

definition assemble_single ::
  "'h devhost \<Rightarrow> string \<Rightarrow> addressing \<Rightarrow> u8 \<Rightarrow> u8 \<Rightarrow> 'h assembler \<Rightarrow> ('h assembler, bool) outcome" where
  "assemble_single H mn md o1 o2 a =
     (case assemble_single_buf mn md o1 o2 of
        None \<Rightarrow> Ret False a
      | Some buf \<Rightarrow>
          (case bus_load_buf H (asm_bus a) (asm_pc a) buf of
             Ret rv b \<Rightarrow> Ret rv (a\<lparr>asm_bus := b, asm_pc := asm_pc a + of_nat (length buf)\<rparr>)
           | Longjmp b \<Rightarrow> Longjmp (a\<lparr>asm_bus := b\<rparr>)
           | Abort \<Rightarrow> Abort))"

definition assemble_single_implied ::
  "'h devhost \<Rightarrow> string \<Rightarrow> 'h assembler \<Rightarrow> ('h assembler, bool) outcome" where
  "assemble_single_implied H mn a = assemble_single H mn IMPLIED 0 0 a"

section \<open>The table lookup\<close>

lemma opcode_search_SomeD:
  "opcode_search mn md ix ids = Some (opc, idf) \<Longrightarrow>
     \<exists>k < length ids. opc = of_nat (ix + k) \<and> idf = ids ! k \<and> mnemonic idf = mn \<and> mode idf = md"
proof (induction ids arbitrary: ix)
  case Nil
  then show ?case by simp
next
  case (Cons r ids)
  show ?case
  proof (cases "mn = mnemonic r \<and> mode r = md")
    case True
    with Cons.prems show ?thesis by (intro exI [of _ 0]) auto
  next
    case False
    with Cons.prems have "opcode_search mn md (ix + 1) ids = Some (opc, idf)" by auto
    from Cons.IH [OF this] obtain k where "k < length ids" "opc = of_nat (ix + 1 + k)"
      "idf = ids ! k" "mnemonic idf = mn" "mode idf = md" by blast
    then show ?thesis by (intro exI [of _ "Suc k"]) (simp add: add.assoc)
  qed
qed

lemma opcode_search_None:
  "opcode_search mn md ix ids = None \<longleftrightarrow> (\<forall>idf \<in> set ids. \<not> (mn = mnemonic idf \<and> mode idf = md))"
  by (induction ids arbitrary: ix) auto

lemma opcode_by_mnemonic_decode:
  assumes "instruction_opcode_by_mnemonic mn md = Some (opc, idf)"
  shows "idf = instruction_decode opc" "mnemonic idf = mn" "mode idf = md"
proof -
  from opcode_search_SomeD [OF assms [unfolded instruction_opcode_by_mnemonic_def]]
  obtain k where k: "k < 256" "opc = of_nat k" "idf = instrs ! k" "mnemonic idf = mn" "mode idf = md"
    by (auto simp: length_instrs)
  then have "unat opc = k" by (simp add: unat_of_nat)
  with k show "idf = instruction_decode opc" "mnemonic idf = mn" "mode idf = md"
    by (simp_all add: instruction_decode_def)
qed

section \<open>What the assembler emits\<close>

lemma assemble_single_buf_bytes:
  assumes "instruction_opcode_by_mnemonic mn md = Some (opc, idf)"
  shows "assemble_single_buf mn md o1 o2 = Some (take (unat (isize idf)) [opc, o1, o2])"
proof -
  from assms have "idf = instruction_decode opc" by (rule opcode_by_mnemonic_decode)
  with isize_cases [of opc] consider "isize idf = 1" | "isize idf = 2" | "isize idf = 3" by auto
  moreover have "replicate 2 x = [x, x]" "replicate 3 x = [x, x, x]" "[x, y, z][2 := v] = [x, y, v]"
    for x y z v :: u8
    by (simp_all add: numeral_2_eq_2 numeral_3_eq_3)
  ultimately show ?thesis
    by cases (simp_all add: assemble_single_buf_def assms)
qed

end
