(* ===== verification/Log.thy ===== *)
theory Log
  imports Debug Disasm
begin

text \<open>
  The log filter of \<open>log.c\<close> and the trace dump of \<open>debug.c\<close> that writes to it. The log
  level is the file's static variable; a message is the line that goes to \<open>stderr\<close>, without
  the time stamp.
\<close>

definition level_str :: "string list" where
  "level_str = [''NONE'', ''CRITICAL'', ''ERROR'', ''INFO'', ''WARN'', ''DEBUG'', ''TRACE'']"

abbreviation LOG_TRACE :: u8 where "LOG_TRACE \<equiv> 6"
abbreviation LOG_INFO :: u8 where "LOG_INFO \<equiv> 3"

definition log_level_init :: u8 where
  "log_level_init = LOG_INFO"

definition rk65c02_loglevel_set :: "u8 \<Rightarrow> u8 \<Rightarrow> u8" where
  "rk65c02_loglevel_set l level = l"

text \<open>The name lookup \<open>level_str[l]\<close> is out of range for levels above \<open>LOG_TRACE\<close>.\<close>

datatype log_out = Silent | Line string string | Level_out_of_range

definition rk65c02_log :: "u8 \<Rightarrow> u8 \<Rightarrow> string \<Rightarrow> log_out" where
  "rk65c02_log level l msg =
     (if l > level then Silent
      else if unat l < length level_str then Line (level_str ! unat l) msg
      else Level_out_of_range)"

definition trace_line :: "trace_entry \<Rightarrow> string" where
  "trace_line tr =
     fmt_X (unat (tr_address tr)) @ '': '' @
     instruction_string_get \<lparr>opcode = tr_opcode tr, op1 = tr_op1 tr, op2 = tr_op2 tr\<rparr> @
     [CHR 0x09] @ rk65c02_regs_string_get (tr_regs tr)"

definition debug_trace_print_all :: "u8 \<Rightarrow> 'h emu \<Rightarrow> log_out list" where
  "debug_trace_print_all level e =
     map (\<lambda>tr. rk65c02_log level LOG_TRACE (trace_line tr)) (trace_head e)"

end
