(* ===== verification/TextDump.thy ===== *)
theory TextDump
  imports Log Samples
begin

text \<open>
  The functions that print to the terminal: what they print is a string, and the reads of the
  stack dump go through the bus. The time stamp of a log line is left out, as in \<open>Log\<close>.
\<close>

definition fmt_x :: "nat \<Rightarrow> string" where
  "fmt_x n = hex_digits hexdigit n"

definition newline :: string where
  "newline = [CHR 0x0A]"

definition bus_device_dump :: "'h bus \<Rightarrow> string" where
  "bus_device_dump b =
     concat (map (\<lambda>(d, addr). ''@ '' @ fmt_x (unat addr) @ '' size '' @ fmt_x (unat (dev_size (heap b d))) @ '' - '' @
       dev_name (heap b d) @ newline) (dm_head b))"

definition instruction_print :: "instruction \<Rightarrow> string" where
  "instruction_print i = instruction_string_get i"

definition rk65c02_dump_regs :: "reg_state \<Rightarrow> string" where
  "rk65c02_dump_regs r = rk65c02_regs_string_get r @ newline"

text \<open>One turn of the loop of \<open>rk65c02_dump_stack\<close>; the addresses are never 0, so \<open>%#02x\<close> has its prefix.\<close>

definition dump_stack_byte :: "'h devhost \<Rightarrow> nat \<Rightarrow> nat \<Rightarrow> string \<times> 'h bus \<Rightarrow> string \<times> 'h bus" where
  "dump_stack_byte D start a = (\<lambda>(out, b).
     let (v, b) = bus_read_1 D b (of_nat a) in
     (out @ (if a = start \<or> a mod 0x10 = 0 then ''stack 0x'' @ fmt_x a @ '': '' else []) @ fmt_alt_02x v @ '' '' @
        (if (a + 1) mod 0x10 = 0 then newline else []), b))"

definition rk65c02_dump_stack :: "'h devhost \<Rightarrow> u8 \<Rightarrow> 'h emu \<Rightarrow> string \<times> 'h emu" where
  "rk65c02_dump_stack D n e =
     (let start = 0x1FF - unat n;
          (out, b) = fold (dump_stack_byte D start) [start..<0x200] ([], bus e)
      in (out, e\<lparr>bus := b\<rparr>))"

definition rk65c02_logv :: "u8 \<Rightarrow> u8 \<Rightarrow> string \<Rightarrow> log_out" where
  "rk65c02_logv level l msg =
     (if l > level then Silent
      else if unat l < length level_str then Line (level_str ! unat l) msg
      else Level_out_of_range)"

text \<open>Dumping the stack of a machine with RAM changes nothing.\<close>

lemma dump_stack_reads:
  assumes "full_ram (bus e)"
  shows "snd (rk65c02_dump_stack D n e) = e"
proof -
  have read: "snd (bus_read_1 D (bus e) a) = bus e" for a
  proof -
    obtain c where "bus_cell (bus e) a = Some c" using assms by (fastforce simp: full_ram_def)
    then show ?thesis by (rule bus_ram.rd_pure)
  qed
  have "snd (fold (dump_stack_byte D start) as (out, bus e)) = bus e" for start as out
    by (induction as arbitrary: out) (simp_all add: dump_stack_byte_def case_prod_beta read)
  then show ?thesis by (simp add: rk65c02_dump_stack_def Let_def case_prod_beta)
qed

lemma log_entry_points: "rk65c02_logv = rk65c02_log"
  by (simp add: fun_eq_iff rk65c02_logv_def rk65c02_log_def)

end
