(* ===== verification/Spec2Isabelle.thy ===== *)
theory Spec2Isabelle
  imports ExampleHosts JitStub Assembler TextDump
begin

text \<open>
  Verification of rk65c02, an emulator library for the WDC 65C02 processor.

  \<^bold>\<open>The program.\<close> A host program makes a bus, maps devices on it and creates an emulator
  (\<open>struct rk65c02emu\<close>) on the bus. The processor core fetches, decodes and executes guest
  instructions. Guest accesses go straight to the bus or, with the MMU on, through a software TLB
  and a translate callback of the host. A just-in-time compiler turns straight runs of guest
  code into native code, keeps them in a cache indexed by address and drops them when the guest
  writes to the code or the host changes the mapping. The host controls a run through stop
  requests, a tick callback, the interrupt line, breakpoints and single stepping.

  \<^bold>\<open>Conventions.\<close> C integers are words of their width. A C call gives an \<open>outcome\<close>:
  \<open>Ret\<close> with its result and the new state, \<open>Longjmp\<close> when it unwinds to the \<open>setjmp\<close> of
  the JIT dispatch, \<open>Abort\<close> for a failed assertion. Function pointers are names (\<open>emul_fn\<close>,
  \<open>mem_fn\<close>, \<open>devops\<close>); the code behind the host's pointers, and the values C leaves open,
  are fields of the parameter \<open>host\<close>. What a theorem needs of the host is a hypothesis:
  \<open>host_keeps q H\<close> says that the host's MMU callbacks leave the view \<open>q\<close> of the emulator
  alone, \<open>translates H e M\<close> that its translate callback answers from the page map \<open>M\<close>. The
  read and write handlers of a device (\<open>devhost\<close>) act on the host's memory and not on the emulator.
  A handler that calls back into the emulator, as the comment at \<open>jit_invalidate_deferred\<close>
  foresees and \<open>mpu_device_write_1\<close> of \<open>mmu_mpu.c\<close> does, is not an instance of this parameter:
  that one is modelled on its own, as a function on the emulator. The buffer of \<open>bus_load_buf\<close> is
  the list of its \<open>bufsize\<close> bytes, a \<open>uint16_t\<close> in C.

  \<^bold>\<open>The model.\<close>
  \<^item> \<open>Prelude\<close>: widths, outcomes, word lemmas.
  \<^item> \<open>Bus\<close>: \<open>bus.c\<close>, \<open>device_ram.c\<close>.
  \<^item> \<open>Isa\<close>: \<open>65c02isa.csv\<close> (all 256 rows), \<open>instruction.h\<close>, table lookups.
  \<^item> \<open>EmuState\<close>: the structures of \<open>rk65c02.h\<close> and of \<open>jit.c\<close>, the host parameter.
  \<^item> \<open>Mmu\<close>, \<open>Memory\<close>: translation, faults, the three guest memory entry points and the
    mapping update protocol of \<open>rk65c02.c\<close>.
  \<^item> \<open>Instruction\<close>, \<open>Emulation\<close>, \<open>Exec\<close>: \<open>instruction.c\<close>, the handlers of
    \<open>emulation.c\<close>, \<open>rk65c02_exec\<close>.
  \<^item> \<open>Debug\<close>, \<open>HostControl\<close>: \<open>debug.c\<close>, the callbacks, \<open>rk65c02_step\<close>
    and the interpreter loop.
  \<^item> \<open>Disasm\<close>, \<open>TextDump\<close>, \<open>Assembler\<close>, \<open>Log\<close>: strings and dumps, \<open>assembler.c\<close>,
    \<open>log.c\<close>.
  \<^item> \<open>JitCache\<close>: reference counts, invalidation sweeps and the guest-write hook of
    \<open>jit.c\<close>.
  \<^item> \<open>JitEmit\<close>: the GNU Lightning instructions that \<open>jit_emit_insn\<close> and its helpers emit;
    \<open>JitNative\<close>: a machine that runs them.
  \<^item> \<open>JitRun\<close>: block building, compilation, dispatch, \<open>rk65c02_run_jit\<close>,
    \<open>rk65c02_start\<close>; \<open>JitStub\<close>: \<open>jit_stub.c\<close>.
  \<^item> \<open>ExampleHosts\<close>: the callbacks and devices of \<open>mmu_pae.c\<close>, \<open>mmu_multitasking.c\<close>,
    \<open>tinyos.c\<close>, \<open>mmu_cart.c\<close>, \<open>mmu_mpu.c\<close> and \<open>msbasic_host.c\<close>, which are instances of
    the host parameter, the write handler of the protection unit apart.

  The three loops that a guest program can keep going for ever (\<open>interp_loop\<close>,
  \<open>jit_run_loop\<close>, \<open>run_block\<close>) are partial functions in the option monad, \<open>None\<close> being a
  run that does not return. Every other loop of the program is a total function; the bounds are
  those of the code (cache slots, pages, bytes of a block, instructions of a block).

  \<^bold>\<open>What is shown.\<close>
  \<^item> \<open>Bus\<close>: accesses stay inside devices, who answers at an address, read after write,
    loading of files and buffers.
  \<^item> \<open>Frames\<close>, \<open>ExecFrame\<close>, \<open>NativeFrame\<close>: locales with the contract between the
    memory system, the processor core and native code. A property that guest accesses and
    register updates keep is kept by every handler, by \<open>rk65c02_exec\<close> and by native code.
  \<^item> \<open>RamMachine\<close>, \<open>Alu\<close>, \<open>Cpu\<close>: the memory system refines an array of bytes; the
    arithmetic handlers compute binary and decimal results and their flags; calls, interrupts
    and branches move the program counter and the stack as the processor does.
  \<^item> \<open>JitCoherence\<close>, \<open>JitInvariant\<close>, \<open>JitProps\<close>: the reference counts are the numbers
    of live blocks; no live block covers a byte that was stored to, by the interpreter or by any
    sequence of stores of native code; sweeps are exact; the whole run loop keeps the cache
    invariant. The physical sweep misses byte-tagged blocks at the top of the 64K physical
    space: the theorems name this exception.
  \<^item> \<open>MmuProps\<close>: the TLB is invisible for a page mapping, the update protocol makes it so
    again for a new one, failed accesses report and stop. The machines of the fault theorems
    (\<open>mapped\<close>) have no JIT, run no native code and have no fault or stop callback.
  \<^item> \<open>NativeOps\<close>, \<open>NativeInsn\<close>: the native code of an instruction other than a conditional
    branch does what its handler does.
  \<^item> \<open>NativeSafety\<close>: native code is well typed, a block fits the emission tables, and it
    returns, because every backward jump uses up the loop budget.
  \<^item> \<open>CpuSim\<close>, \<open>JitGuest\<close>: locales for the view of a machine without its JIT; on a
    machine with 64K of RAM and the MMU off an instruction commutes with the view.
  \<^item> \<open>NativeBlock\<close>, \<open>JitRefine\<close>: conditional branches too; a run of a block is a run of instructions of the
    interpreter; settlement and the sweeps keep the cache a mirror of memory; so a start with the
    JIT and one without it end alike or both go on for ever. The machines of these theorems
    have no interrupt pending, no breakpoint or trace and no callback of the host, because the
    JIT looks at these between blocks and the interpreter between instructions.
  \<^item> \<open>JitStub\<close>: a library built with the stub is the model without a JIT state.
  \<^item> \<open>ExampleHosts\<close>: demand paging resolves the fault, the tasks and the cartridge stay in
    their own memory, the protection unit refuses stores once the permissions are set; but the
    write that switches it on leaves a filled TLB alone, and stores still get through.

  \<^bold>\<open>Not modelled.\<close> Lightning's translation to machine code is taken at its documented
  behaviour. Files are byte lists, and writing to the terminal is not modelled beyond the strings
  that are written; time stamps are left out. The \<open>main\<close> functions of the examples load ROM
  files, start the emulator and print a verdict; their guest programs are assembled by the build.
  The JIT theorems of \<open>NativeBlock\<close> and \<open>JitRefine\<close> are about machines without an MMU: with
  one, the host's callbacks may answer differently at each call, and a fault in native code
  unwinds past the settlement of the block.
\<close>

end
